theory Spec2Isabelle
  imports Main "HOL-Library.Word"
begin

unbundle bit_operations_syntax

section \<open>The HP WMI sensors driver: data model\<close>

text \<open>
  The repository carries two copies of \<^verbatim>\<open>hp-wmi-sensors.c\<close>, one after the other in
  the same source file. The first copy (lines 1 to 1522) has the background refresh task
  and the lowest/highest history; the second copy (lines 1523 to 2588) has
  \<^verbatim>\<open>numeric_sensor_is_connected\<close> and trims strings. Functions that are the same text in
  both copies are embedded once. Where the copies differ, the first copy keeps the
  source's name and the second copy's function carries the suffix \<open>_2\<close>.

  Machine integers: \<^verbatim>\<open>u8\<close>, \<^verbatim>\<open>u32\<close> and \<^verbatim>\<open>u64\<close> are words; \<^verbatim>\<open>s32\<close> is a 32-bit word
  read with \<open>sint\<close>; \<^verbatim>\<open>long\<close> is the 64-bit signed integer of the x86-64 kernel,
  modelled as \<open>int\<close> with the two's complement wrap-around written out (\<open>wrap_long\<close>).
\<close>

type_synonym u8 = "8 word"
type_synonym u32 = "32 word"
type_synonym s32 = "32 word"
type_synonym u64 = "64 word"

subsection \<open>Vendor codes (enum hp\_wmi\_type, hp\_wmi\_status, hp\_wmi\_units)\<close>

definition HP_WMI_TYPE_OTHER :: int where "HP_WMI_TYPE_OTHER = 1"
definition HP_WMI_TYPE_TEMPERATURE :: int where "HP_WMI_TYPE_TEMPERATURE = 2"
definition HP_WMI_TYPE_VOLTAGE :: int where "HP_WMI_TYPE_VOLTAGE = 3"
definition HP_WMI_TYPE_CURRENT :: int where "HP_WMI_TYPE_CURRENT = 4"
definition HP_WMI_TYPE_AIR_FLOW :: int where "HP_WMI_TYPE_AIR_FLOW = 12"

definition HP_WMI_STATUS_OK :: int where "HP_WMI_STATUS_OK = 2"
definition HP_WMI_STATUS_DEGRADED :: int where "HP_WMI_STATUS_DEGRADED = 3"
definition HP_WMI_STATUS_STRESSED :: int where "HP_WMI_STATUS_STRESSED = 4"
definition HP_WMI_STATUS_PREDICTIVE_FAILURE :: int where "HP_WMI_STATUS_PREDICTIVE_FAILURE = 5"
definition HP_WMI_STATUS_ERROR :: int where "HP_WMI_STATUS_ERROR = 6"
definition HP_WMI_STATUS_NON_RECOVERABLE_ERROR :: int where
  "HP_WMI_STATUS_NON_RECOVERABLE_ERROR = 7"
definition HP_WMI_STATUS_NO_CONTACT :: int where "HP_WMI_STATUS_NO_CONTACT = 12"
definition HP_WMI_STATUS_LOST_COMMUNICATION :: int where "HP_WMI_STATUS_LOST_COMMUNICATION = 13"
definition HP_WMI_STATUS_ABORTED :: int where "HP_WMI_STATUS_ABORTED = 14"
definition HP_WMI_STATUS_SUPPORTING_ENTITY_IN_ERROR :: int where
  "HP_WMI_STATUS_SUPPORTING_ENTITY_IN_ERROR = 16"
definition HP_WMI_STATUS_COMPLETED :: int where "HP_WMI_STATUS_COMPLETED = 17"

definition HP_WMI_UNITS_DEGREES_C :: int where "HP_WMI_UNITS_DEGREES_C = 2"
definition HP_WMI_UNITS_DEGREES_F :: int where "HP_WMI_UNITS_DEGREES_F = 3"
definition HP_WMI_UNITS_DEGREES_K :: int where "HP_WMI_UNITS_DEGREES_K = 4"
definition HP_WMI_UNITS_VOLTS :: int where "HP_WMI_UNITS_VOLTS = 5"
definition HP_WMI_UNITS_AMPS :: int where "HP_WMI_UNITS_AMPS = 6"
definition HP_WMI_UNITS_RPM :: int where "HP_WMI_UNITS_RPM = 19"

lemmas hp_wmi_type_defs =
  HP_WMI_TYPE_OTHER_def HP_WMI_TYPE_TEMPERATURE_def HP_WMI_TYPE_VOLTAGE_def
  HP_WMI_TYPE_CURRENT_def HP_WMI_TYPE_AIR_FLOW_def

lemmas hp_wmi_status_defs =
  HP_WMI_STATUS_OK_def HP_WMI_STATUS_DEGRADED_def HP_WMI_STATUS_STRESSED_def
  HP_WMI_STATUS_PREDICTIVE_FAILURE_def HP_WMI_STATUS_ERROR_def
  HP_WMI_STATUS_NON_RECOVERABLE_ERROR_def HP_WMI_STATUS_NO_CONTACT_def
  HP_WMI_STATUS_LOST_COMMUNICATION_def HP_WMI_STATUS_ABORTED_def
  HP_WMI_STATUS_SUPPORTING_ENTITY_IN_ERROR_def HP_WMI_STATUS_COMPLETED_def

lemmas hp_wmi_units_defs =
  HP_WMI_UNITS_DEGREES_C_def HP_WMI_UNITS_DEGREES_F_def HP_WMI_UNITS_DEGREES_K_def
  HP_WMI_UNITS_VOLTS_def HP_WMI_UNITS_AMPS_def HP_WMI_UNITS_RPM_def

subsection \<open>Error codes\<close>

text \<open>
  The driver returns negative errno values. \<open>Undefined_access\<close> is not an errno: it marks
  a read that C leaves undefined (an element beyond the package, the wrong member of the
  ACPI object union, or a NULL string), so that the model stays total.
\<close>

datatype error = EINVAL | ENOMEM | EIO | ENODATA | Undefined_access

fun errno :: "error \<Rightarrow> int" where
  "errno EIO = 5"
| "errno ENOMEM = 12"
| "errno EINVAL = 22"
| "errno ENODATA = 61"
| "errno Undefined_access = 0"

subsection \<open>struct hp\_wmi\_numeric\_sensor\<close>

text \<open>
  Pointers to strings are \<open>string option\<close>: the driver state comes from
  \<^verbatim>\<open>devm_kzalloc\<close>, so a pointer that was never assigned is NULL (\<open>None\<close>).
\<close>

record hp_wmi_numeric_sensor =
  name :: "string option"
  description :: "string option"
  sensor_type :: u32
  other_sensor_type :: "string option"
  operational_status :: u32
  current_state :: "string option"
  possible_states :: "string list"
  base_units :: u32
  unit_modifier :: s32
  current_reading :: u32
  possible_states_count :: u8

section \<open>ACPI objects and record validation\<close>

text \<open>
  \<^verbatim>\<open>union acpi_object\<close> (ACPICA, not part of this repository) is a tagged union. A package
  carries its element count and its element array, here one list; a string carries its
  characters up to the terminating NUL, and its \<^verbatim>\<open>length\<close> member is the length of that
  list. An integer is a 64-bit value.
\<close>

datatype acpi_object_type =
  ACPI_TYPE_INTEGER | ACPI_TYPE_STRING | ACPI_TYPE_BUFFER | ACPI_TYPE_PACKAGE

datatype acpi_object =
    ACPI_Integer u64
  | ACPI_String string
  | ACPI_Buffer "u8 list"
  | ACPI_Package "acpi_object list"

fun acpi_type :: "acpi_object \<Rightarrow> acpi_object_type" where
  "acpi_type (ACPI_Integer _) = ACPI_TYPE_INTEGER"
| "acpi_type (ACPI_String _) = ACPI_TYPE_STRING"
| "acpi_type (ACPI_Buffer _) = ACPI_TYPE_BUFFER"
| "acpi_type (ACPI_Package _) = ACPI_TYPE_PACKAGE"

abbreviation (input) HP_WMI_MAX_STR_SIZE :: nat where "HP_WMI_MAX_STR_SIZE \<equiv> 128"
abbreviation (input) HP_WMI_MAX_PROPERTIES :: nat where "HP_WMI_MAX_PROPERTIES \<equiv> 32"
abbreviation (input) HP_WMI_MAX_INSTANCES :: nat where "HP_WMI_MAX_INSTANCES \<equiv> 32"

abbreviation (input) HP_WMI_PROPERTY_NAME :: nat where "HP_WMI_PROPERTY_NAME \<equiv> 0"
abbreviation (input) HP_WMI_PROPERTY_DESCRIPTION :: nat where "HP_WMI_PROPERTY_DESCRIPTION \<equiv> 1"
abbreviation (input) HP_WMI_PROPERTY_SENSOR_TYPE :: nat where "HP_WMI_PROPERTY_SENSOR_TYPE \<equiv> 2"
abbreviation (input) HP_WMI_PROPERTY_OTHER_SENSOR_TYPE :: nat where
  "HP_WMI_PROPERTY_OTHER_SENSOR_TYPE \<equiv> 3"
abbreviation (input) HP_WMI_PROPERTY_OPERATIONAL_STATUS :: nat where
  "HP_WMI_PROPERTY_OPERATIONAL_STATUS \<equiv> 4"
abbreviation (input) HP_WMI_PROPERTY_CURRENT_STATE :: nat where
  "HP_WMI_PROPERTY_CURRENT_STATE \<equiv> 5"
abbreviation (input) HP_WMI_PROPERTY_POSSIBLE_STATES :: nat where
  "HP_WMI_PROPERTY_POSSIBLE_STATES \<equiv> 6"
abbreviation (input) HP_WMI_PROPERTY_BASE_UNITS :: nat where "HP_WMI_PROPERTY_BASE_UNITS \<equiv> 7"
abbreviation (input) HP_WMI_PROPERTY_UNIT_MODIFIER :: nat where
  "HP_WMI_PROPERTY_UNIT_MODIFIER \<equiv> 8"
abbreviation (input) HP_WMI_PROPERTY_CURRENT_READING :: nat where
  "HP_WMI_PROPERTY_CURRENT_READING \<equiv> 9"

text \<open>The table \<^verbatim>\<open>hp_wmi_property_map\<close>, indexed by property number 0 to 9.\<close>

definition hp_wmi_property_map :: "acpi_object_type list" where
  "hp_wmi_property_map =
     [ACPI_TYPE_STRING, ACPI_TYPE_STRING, ACPI_TYPE_INTEGER, ACPI_TYPE_STRING,
      ACPI_TYPE_INTEGER, ACPI_TYPE_STRING, ACPI_TYPE_STRING, ACPI_TYPE_INTEGER,
      ACPI_TYPE_INTEGER, ACPI_TYPE_INTEGER]"

text \<open>
  \<^verbatim>\<open>check_wobj\<close> (lines 480 to 532, and 1802 to 1854, the same text). The inner loop
  \<^verbatim>\<open>for (; i + 1 < elem_count; i++, count++)\<close> looks one element ahead and stops at the
  first element that is not a string; \<^verbatim>\<open>count\<close> is a \<^verbatim>\<open>u8\<close>, so its increment is
  taken modulo 256. The function returns the final \<open>i\<close> and \<open>count\<close>.
\<close>

function check_wobj_inner :: "acpi_object list \<Rightarrow> nat \<Rightarrow> nat \<Rightarrow> nat \<times> nat" where
  "check_wobj_inner elements i count =
     (if i + 1 < length elements then
        if acpi_type (elements ! (i + 1)) \<noteq> hp_wmi_property_map ! HP_WMI_PROPERTY_POSSIBLE_STATES
        then (i, count)
        else check_wobj_inner elements (i + 1) ((count + 1) mod 256)
      else (i, count))"
  by pat_completeness auto
termination
  by (relation "measure (\<lambda>(elements, i, count). length elements - i)") auto

declare check_wobj_inner.simps [simp del]

lemma check_wobj_inner_ge: "i \<le> fst (check_wobj_inner elements i count)"
proof (induction elements i count rule: check_wobj_inner.induct)
  case (1 elements i count)
  show ?case
    using 1 by (subst check_wobj_inner.simps) (auto simp: Let_def)
qed

text \<open>
  The outer loop \<^verbatim>\<open>for (i = 0; i < elem_count; i++, prop++)\<close>, and the test after it.
  At \<^verbatim>\<open>CurrentState\<close> the body sets \<^verbatim>\<open>prop\<close> to \<^verbatim>\<open>PossibleStates\<close> and runs the inner
  loop; the increments of the outer loop then move on to the element after the last
  possible state and to \<^verbatim>\<open>BaseUnits\<close>.
\<close>

function check_wobj_loop :: "acpi_object list \<Rightarrow> nat \<Rightarrow> nat \<Rightarrow> nat \<Rightarrow> error + nat" where
  "check_wobj_loop elements i prop count =
     (if i < length elements then
        if prop > HP_WMI_PROPERTY_CURRENT_READING then Inl EINVAL
        else if acpi_type (elements ! i) \<noteq> hp_wmi_property_map ! prop then Inl EINVAL
        else if prop = HP_WMI_PROPERTY_CURRENT_STATE then
          check_wobj_loop elements (fst (check_wobj_inner elements i count) + 1)
            (HP_WMI_PROPERTY_POSSIBLE_STATES + 1) (snd (check_wobj_inner elements i count))
        else check_wobj_loop elements (i + 1) (prop + 1) count
      else if count = 0 \<or> prop \<le> HP_WMI_PROPERTY_CURRENT_READING then Inl EINVAL
      else Inr count)"
  by pat_completeness auto
termination
proof (relation "measure (\<lambda>(elements, i, p, count). length elements - i)")
  fix elements :: "acpi_object list" and i p count :: nat
  assume "i < length elements"
  moreover have "i \<le> fst (check_wobj_inner elements i count)"
    by (rule check_wobj_inner_ge)
  ultimately show "((elements, fst (check_wobj_inner elements i count) + 1,
                     HP_WMI_PROPERTY_POSSIBLE_STATES + 1,
                     snd (check_wobj_inner elements i count)),
                    elements, i, p, count)
                   \<in> measure (\<lambda>(elements, i, p, count). length elements - i)"
    by simp
qed auto

declare check_wobj_loop.simps [simp del]

text \<open>
  \<^verbatim>\<open>check_wobj\<close> itself: the type and count tests, then the loop from element 0 and
  property \<^verbatim>\<open>Name\<close> with \<^verbatim>\<open>count = 0\<close>. \<open>Inr count\<close> is the return value 0 together
  with the count written through \<^verbatim>\<open>possible_states_count\<close>.
\<close>

definition check_wobj :: "acpi_object \<Rightarrow> error + nat" where
  "check_wobj wobj =
     (case wobj of
        ACPI_Package elements \<Rightarrow>
          if length elements > HP_WMI_MAX_PROPERTIES then Inl EINVAL
          else check_wobj_loop elements 0 HP_WMI_PROPERTY_NAME 0
      | _ \<Rightarrow> Inl EINVAL)"

text \<open>
  The schema of the claim, as a list of element types: Name, Description, SensorType,
  OtherSensorType, OperationalStatus, CurrentState, then \<open>n\<close> possible states, then
  BaseUnits, UnitModifier, CurrentReading. This definition follows the specification,
  not the code; \<open>check_wobj\<close> is compared with it.
\<close>

definition sensor_schema :: "nat \<Rightarrow> acpi_object_type list" where
  "sensor_schema n =
     [ACPI_TYPE_STRING, ACPI_TYPE_STRING, ACPI_TYPE_INTEGER, ACPI_TYPE_STRING,
      ACPI_TYPE_INTEGER, ACPI_TYPE_STRING] @
     replicate n ACPI_TYPE_STRING @
     [ACPI_TYPE_INTEGER, ACPI_TYPE_INTEGER, ACPI_TYPE_INTEGER]"

section \<open>Decoding\<close>

text \<open>
  Kernel string helpers, not part of this repository. \<^verbatim>\<open>isspace\<close> follows the kernel's
  \<^verbatim>\<open>_ctype\<close> table (tab to carriage return, space, and the no-break space 160);
  \<^verbatim>\<open>strim\<close> removes trailing and then leading white space.
\<close>

definition isspace :: "char \<Rightarrow> bool" where
  "isspace c = ((of_char c :: nat) \<in> {9, 10, 11, 12, 13, 32, 160})"

definition strim :: "string \<Rightarrow> string" where
  "strim s = dropWhile isspace (rev (dropWhile isspace (rev s)))"

text \<open>
  \<^verbatim>\<open>hp_wmi_strdup\<close>. First copy (lines 442 to 455): the length is passed in and clamped
  to \<^verbatim>\<open>HP_WMI_MAX_STR_SIZE - 1\<close>, then \<^verbatim>\<open>strscpy\<close> copies that many characters. Second
  copy (lines 1742 to 1756): the length is \<^verbatim>\<open>strnlen(src, HP_WMI_MAX_STR_SIZE - 1)\<close>.
  Memory allocation is taken to succeed: the \<^verbatim>\<open>-ENOMEM\<close> returns of the driver are
  outside this model.
\<close>

definition hp_wmi_strdup :: "string \<Rightarrow> nat \<Rightarrow> string" where
  "hp_wmi_strdup src len = take (min len (HP_WMI_MAX_STR_SIZE - 1)) src"

definition hp_wmi_strdup_2 :: "string \<Rightarrow> string" where
  "hp_wmi_strdup_2 src = take (min (length src) (HP_WMI_MAX_STR_SIZE - 1)) src"

text \<open>
  Reading a member of the element that \<^verbatim>\<open>element\<close> points at: \<^verbatim>\<open>integer.value\<close> and
  \<^verbatim>\<open>string.pointer\<close>. Reading past the package, or the member of another type, is
  undefined in C.
\<close>

definition integer_value :: "acpi_object list \<Rightarrow> nat \<Rightarrow> error + u64" where
  "integer_value elements element =
     (if element < length elements then
        (case elements ! element of ACPI_Integer v \<Rightarrow> Inr v | _ \<Rightarrow> Inl Undefined_access)
      else Inl Undefined_access)"

definition string_pointer :: "acpi_object list \<Rightarrow> nat \<Rightarrow> error + string" where
  "string_pointer elements element =
     (if element < length elements then
        (case elements ! element of ACPI_String s \<Rightarrow> Inr s | _ \<Rightarrow> Inl Undefined_access)
      else Inl Undefined_access)"

text \<open>
  The extraction step of \<^verbatim>\<open>populate_numeric_sensor_from_wobj\<close>: in the first copy the
  switch on the schema type written in the loop body (lines 655 to 669), here
  \<open>extract_inline\<close>; in the second copy the function \<^verbatim>\<open>extract_acpi_value\<close> (lines
  1774 to 1793), which also trims the string. The 64-bit integer is stored in the
  \<^verbatim>\<open>u32\<close> variable \<^verbatim>\<open>value\<close>, which truncates it. Both return the new contents of the
  local variables \<^verbatim>\<open>value\<close> and \<^verbatim>\<open>string\<close>.
\<close>

definition extract_inline ::
  "acpi_object list \<Rightarrow> nat \<Rightarrow> acpi_object_type \<Rightarrow> u32 \<Rightarrow> string \<Rightarrow> error + u32 \<times> string" where
  "extract_inline elements element type value string =
     (case type of
        ACPI_TYPE_INTEGER \<Rightarrow>
          (case integer_value elements element of
             Inl err \<Rightarrow> Inl err
           | Inr v \<Rightarrow> Inr (ucast v, string))
      | ACPI_TYPE_STRING \<Rightarrow>
          (case string_pointer elements element of
             Inl err \<Rightarrow> Inl err
           | Inr s \<Rightarrow> Inr (value, hp_wmi_strdup s (length s)))
      | _ \<Rightarrow> Inl EINVAL)"

definition extract_acpi_value ::
  "acpi_object list \<Rightarrow> nat \<Rightarrow> acpi_object_type \<Rightarrow> u32 \<Rightarrow> string \<Rightarrow> error + u32 \<times> string" where
  "extract_acpi_value elements element type value string =
     (case type of
        ACPI_TYPE_INTEGER \<Rightarrow>
          (case integer_value elements element of
             Inl err \<Rightarrow> Inl err
           | Inr v \<Rightarrow> Inr (ucast v, string))
      | ACPI_TYPE_STRING \<Rightarrow>
          (case string_pointer elements element of
             Inl err \<Rightarrow> Inl err
           | Inr s \<Rightarrow> Inr (value, hp_wmi_strdup_2 (strim s)))
      | _ \<Rightarrow> Inl EINVAL)"

text \<open>
  The loop \<^verbatim>\<open>for (prop = 0; prop <= HP_WMI_PROPERTY_CURRENT_READING; prop++)\<close> of
  \<^verbatim>\<open>populate_numeric_sensor_from_wobj\<close> (lines 652 to 730, and 2003 to 2069). Its state
  is the property number, the index of \<^verbatim>\<open>element\<close>, the \<^verbatim>\<open>u8\<close> count of possible
  states still to read, the local variables \<^verbatim>\<open>value\<close> and \<^verbatim>\<open>string\<close>, and the sensor.
  After SensorType the loop skips OtherSensorType unless the type is Other; at
  PossibleStates it decrements the count (modulo 256) and stays on the property while
  the count is not zero. On an error return the caller abandons the sensor, so the
  model returns only the error.
\<close>

lemma u8_decrement_less:
  "0 < (c + 255) mod 256 \<Longrightarrow> ((c + 255) mod 256 + 255) mod 256 < (c + 255) mod (256::nat)"
proof -
  assume a: "0 < (c + 255) mod 256"
  define x where "x = (c + 255) mod 256"
  have "x < 256" by (simp add: x_def)
  moreover have "0 < x" using a by (simp add: x_def)
  ultimately have "(x + 255) mod 256 = x - 1"
    by (simp add: mod_if)
  then show ?thesis using \<open>0 < x\<close> by (simp add: x_def)
qed

function populate_loop ::
  "(acpi_object list \<Rightarrow> nat \<Rightarrow> acpi_object_type \<Rightarrow> u32 \<Rightarrow> string \<Rightarrow> error + u32 \<times> string) \<Rightarrow>
   acpi_object list \<Rightarrow> nat \<Rightarrow> nat \<Rightarrow> nat \<Rightarrow> u32 \<Rightarrow> string \<Rightarrow>
   hp_wmi_numeric_sensor \<Rightarrow> error + hp_wmi_numeric_sensor" where
  "populate_loop extract elements prop element count value string nsensor =
     (if prop \<le> HP_WMI_PROPERTY_CURRENT_READING then
        (case extract elements element (hp_wmi_property_map ! prop) value string of
           Inl err \<Rightarrow> Inl err
         | Inr (value, string) \<Rightarrow>
             if prop = HP_WMI_PROPERTY_NAME then
               populate_loop extract elements (prop + 1) (element + 1) count
                 value string (nsensor\<lparr>name := Some string\<rparr>)
             else if prop = HP_WMI_PROPERTY_DESCRIPTION then
               populate_loop extract elements (prop + 1) (element + 1) count
                 value string (nsensor\<lparr>description := Some string\<rparr>)
             else if prop = HP_WMI_PROPERTY_SENSOR_TYPE then
               if uint value > HP_WMI_TYPE_AIR_FLOW then Inl EINVAL
               else if uint value \<noteq> HP_WMI_TYPE_OTHER then
                 populate_loop extract elements (prop + 1 + 1) (element + 1 + 1)
                   count value string (nsensor\<lparr>sensor_type := value\<rparr>)
               else
                 populate_loop extract elements (prop + 1) (element + 1)
                   count value string (nsensor\<lparr>sensor_type := value\<rparr>)
             else if prop = HP_WMI_PROPERTY_OTHER_SENSOR_TYPE then
               populate_loop extract elements (prop + 1) (element + 1) count
                 value string (nsensor\<lparr>other_sensor_type := Some string\<rparr>)
             else if prop = HP_WMI_PROPERTY_OPERATIONAL_STATUS then
               populate_loop extract elements (prop + 1) (element + 1) count
                 value string (nsensor\<lparr>operational_status := value\<rparr>)
             else if prop = HP_WMI_PROPERTY_CURRENT_STATE then
               populate_loop extract elements (prop + 1) (element + 1) count
                 value string (nsensor\<lparr>current_state := Some string\<rparr>)
             else if prop = HP_WMI_PROPERTY_POSSIBLE_STATES then
               if (count + 255) mod 256 \<noteq> 0 then
                 populate_loop extract elements prop (element + 1)
                   ((count + 255) mod 256) value string
                   (nsensor\<lparr>possible_states := possible_states nsensor @ [string]\<rparr>)
               else
                 populate_loop extract elements (prop + 1) (element + 1)
                   ((count + 255) mod 256) value string
                   (nsensor\<lparr>possible_states := possible_states nsensor @ [string]\<rparr>)
             else if prop = HP_WMI_PROPERTY_BASE_UNITS then
               populate_loop extract elements (prop + 1) (element + 1) count
                 value string (nsensor\<lparr>base_units := value\<rparr>)
             else if prop = HP_WMI_PROPERTY_UNIT_MODIFIER then
               populate_loop extract elements (prop + 1) (element + 1) count
                 value string (nsensor\<lparr>unit_modifier := value\<rparr>)
             else
               populate_loop extract elements (prop + 1) (element + 1) count
                 value string (nsensor\<lparr>current_reading := value\<rparr>))
      else Inr nsensor)"
  by pat_completeness auto
termination
  by (relation "measure (\<lambda>(extract, elements, p, element, count, rest).
                  (10 - p) * 256 + (count + 255) mod 256)")
     (auto simp: u8_decrement_less)

declare populate_loop.simps [simp del]

text \<open>
  \<^verbatim>\<open>populate_numeric_sensor_from_wobj\<close> (lines 624 to 733, and 1975 to 2072):
  \<^verbatim>\<open>check_wobj\<close> first, then the loop from the first element.
\<close>

definition populate_numeric_sensor_from_wobj ::
  "hp_wmi_numeric_sensor \<Rightarrow> acpi_object \<Rightarrow> error + hp_wmi_numeric_sensor" where
  "populate_numeric_sensor_from_wobj nsensor wobj =
     (case check_wobj wobj of
        Inl err \<Rightarrow> Inl err
      | Inr count \<Rightarrow>
          (case wobj of
             ACPI_Package elements \<Rightarrow>
               populate_loop extract_inline elements HP_WMI_PROPERTY_NAME 0
                 count 0 []
                 (nsensor\<lparr>possible_states := [], possible_states_count := of_nat count\<rparr>)
           | _ \<Rightarrow> Inl Undefined_access))"

definition populate_numeric_sensor_from_wobj_2 ::
  "hp_wmi_numeric_sensor \<Rightarrow> acpi_object \<Rightarrow> error + hp_wmi_numeric_sensor" where
  "populate_numeric_sensor_from_wobj_2 nsensor wobj =
     (case check_wobj wobj of
        Inl err \<Rightarrow> Inl err
      | Inr count \<Rightarrow>
          (case wobj of
             ACPI_Package elements \<Rightarrow>
               populate_loop extract_acpi_value elements HP_WMI_PROPERTY_NAME 0
                 count 0 []
                 (nsensor\<lparr>possible_states := [], possible_states_count := of_nat count\<rparr>)
           | _ \<Rightarrow> Inl Undefined_access))"

section \<open>Classification\<close>

text \<open>
  \<^verbatim>\<open>classify_numeric_sensor\<close> (lines 592 to 622, and 1939 to 1973): a switch on the
  sensor type with one test of the base units per case; every path that does not return
  a type falls through to \<^verbatim>\<open>return -EINVAL\<close>. The result is a C \<^verbatim>\<open>int\<close>.
\<close>

definition classify_numeric_sensor :: "hp_wmi_numeric_sensor \<Rightarrow> int" where
  "classify_numeric_sensor nsensor =
     (let sensor_type = uint (sensor_type nsensor);
          base_units = uint (base_units nsensor)
      in if sensor_type = HP_WMI_TYPE_TEMPERATURE then
           (if base_units = HP_WMI_UNITS_DEGREES_C \<or>
               base_units = HP_WMI_UNITS_DEGREES_F \<or>
               base_units = HP_WMI_UNITS_DEGREES_K
            then HP_WMI_TYPE_TEMPERATURE else - errno EINVAL)
         else if sensor_type = HP_WMI_TYPE_VOLTAGE then
           (if base_units = HP_WMI_UNITS_VOLTS then HP_WMI_TYPE_VOLTAGE else - errno EINVAL)
         else if sensor_type = HP_WMI_TYPE_CURRENT then
           (if base_units = HP_WMI_UNITS_AMPS then HP_WMI_TYPE_CURRENT else - errno EINVAL)
         else if sensor_type = HP_WMI_TYPE_AIR_FLOW then
           (if base_units = HP_WMI_UNITS_RPM then HP_WMI_TYPE_AIR_FLOW else - errno EINVAL)
         else - errno EINVAL)"

section \<open>Scaling\<close>

text \<open>
  Kernel definitions used by \<^verbatim>\<open>scale_numeric_sensor\<close>, not part of this repository:
  \<^verbatim>\<open>LONG_MAX\<close> of a 64-bit \<^verbatim>\<open>long\<close>, \<^verbatim>\<open>MILLI\<close> (1000), C's division that
  truncates towards zero (\<open>c_div\<close>), the macro \<^verbatim>\<open>DIV_ROUND_CLOSEST\<close> for signed
  operands, and \<^verbatim>\<open>milli_kelvin_to_millicelsius\<close>, which adds \<open>-273150\<close>. Every
  addition, subtraction and multiplication on a \<^verbatim>\<open>long\<close> is wrapped to 64 bits by
  \<open>wrap_long\<close>.
\<close>

definition LONG_MAX :: int where "LONG_MAX = 9223372036854775807"
definition LONG_MIN :: int where "LONG_MIN = - 9223372036854775807 - 1"
definition MILLI :: int where "MILLI = 1000"

definition wrap_long :: "int \<Rightarrow> int" where
  "wrap_long x = signed_take_bit 63 x"

definition c_div :: "int \<Rightarrow> int \<Rightarrow> int" where
  "c_div a b = sgn a * sgn b * (\<bar>a\<bar> div \<bar>b\<bar>)"

definition DIV_ROUND_CLOSEST :: "int \<Rightarrow> int \<Rightarrow> int" where
  "DIV_ROUND_CLOSEST x divisor =
     (if (x > 0) = (divisor > 0)
      then c_div (wrap_long (x + c_div divisor 2)) divisor
      else c_div (wrap_long (x - c_div divisor 2)) divisor)"

definition milli_kelvin_to_millicelsius :: "int \<Rightarrow> int" where
  "milli_kelvin_to_millicelsius t = wrap_long (t + (- 273150))"

text \<open>
  The two loops of \<^verbatim>\<open>scale_numeric_sensor\<close>. The first divides by ten while the
  modifier is below the target and returns the value and the modifier it stopped at;
  the second multiplies by ten while the modifier is above the target, and stops with
  \<^verbatim>\<open>LONG_MAX\<close> when the value exceeds \<^verbatim>\<open>LONG_MAX / 10\<close>. The modifier is an
  \<^verbatim>\<open>s32\<close>; it only moves towards the target, so its increments cannot overflow.
\<close>

function scale_down :: "int \<Rightarrow> int \<Rightarrow> int \<Rightarrow> int \<times> int" where
  "scale_down val modifier target_modifier =
     (if modifier < target_modifier
      then scale_down (DIV_ROUND_CLOSEST val 10) (modifier + 1) target_modifier
      else (val, modifier))"
  by pat_completeness auto
termination
  by (relation "measure (\<lambda>(val, modifier, target_modifier). nat (target_modifier - modifier))")
     auto

function scale_up :: "int \<Rightarrow> int \<Rightarrow> int \<Rightarrow> int" where
  "scale_up val modifier target_modifier =
     (if modifier > target_modifier then
        if val > c_div LONG_MAX 10 then LONG_MAX
        else scale_up (wrap_long (val * 10)) (modifier - 1) target_modifier
      else val)"
  by pat_completeness auto
termination
  by (relation "measure (\<lambda>(val, modifier, target_modifier). nat (modifier - target_modifier))")
     auto

declare scale_down.simps [simp del] scale_up.simps [simp del]

text \<open>
  \<^verbatim>\<open>scale_numeric_sensor\<close>, first copy (lines 543 to 583): the Fahrenheit case divides
  with C's truncating division.
\<close>

definition scale_numeric_sensor :: "hp_wmi_numeric_sensor \<Rightarrow> int" where
  "scale_numeric_sensor nsensor =
     (let current_reading = uint (current_reading nsensor);
          unit_modifier = sint (unit_modifier nsensor);
          sensor_type = uint (sensor_type nsensor);
          base_units = uint (base_units nsensor);
          target_modifier = (if sensor_type = HP_WMI_TYPE_AIR_FLOW then 0 else - 3);
          val = current_reading;
          (val, unit_modifier) = scale_down val unit_modifier target_modifier;
          val = scale_up val unit_modifier target_modifier
      in if sensor_type = HP_WMI_TYPE_TEMPERATURE then
           if base_units = HP_WMI_UNITS_DEGREES_F then
             (let val = wrap_long (val - 32 * MILLI)
              in if val \<le> c_div LONG_MAX 5 then c_div (wrap_long (val * 5)) 9
                 else wrap_long (c_div val 9 * 5))
           else if base_units = HP_WMI_UNITS_DEGREES_K then milli_kelvin_to_millicelsius val
           else val
         else val)"

text \<open>
  \<^verbatim>\<open>scale_numeric_sensor\<close>, second copy (lines 1889 to 1930): the Fahrenheit case uses
  \<^verbatim>\<open>DIV_ROUND_CLOSEST\<close>.
\<close>

definition scale_numeric_sensor_2 :: "hp_wmi_numeric_sensor \<Rightarrow> int" where
  "scale_numeric_sensor_2 nsensor =
     (let current_reading = uint (current_reading nsensor);
          unit_modifier = sint (unit_modifier nsensor);
          sensor_type = uint (sensor_type nsensor);
          base_units = uint (base_units nsensor);
          target_modifier = (if sensor_type = HP_WMI_TYPE_AIR_FLOW then 0 else - 3);
          val = current_reading;
          (val, unit_modifier) = scale_down val unit_modifier target_modifier;
          val = scale_up val unit_modifier target_modifier
      in if sensor_type = HP_WMI_TYPE_TEMPERATURE then
           if base_units = HP_WMI_UNITS_DEGREES_F then
             (let val = wrap_long (val - MILLI * 32)
              in if val \<le> c_div LONG_MAX 5 then DIV_ROUND_CLOSEST (wrap_long (val * 5)) 9
                 else wrap_long (DIV_ROUND_CLOSEST val 9 * 5))
           else if base_units = HP_WMI_UNITS_DEGREES_K then milli_kelvin_to_millicelsius val
           else val
         else val)"

text \<open>
  The computation of \<^verbatim>\<open>scale_numeric_sensor\<close> over unbounded integers, with which the
  computation on 64-bit integers is compared: the two loops (\<open>decade_scaled\<close>: one
  half-up division by ten for each decade below the target, one multiplication by ten
  for each decade above it), rounding division, and the two split Fahrenheit
  computations without any wrap-around.
\<close>

definition decade_scaled :: "int \<Rightarrow> int \<Rightarrow> int \<Rightarrow> int" where
  "decade_scaled reading modifier target =
     (if modifier < target
      then ((\<lambda>v. (v + 5) div 10) ^^ nat (target - modifier)) reading
      else reading * 10 ^ nat (modifier - target))"

definition div_round_closest :: "int \<Rightarrow> int \<Rightarrow> int" where
  "div_round_closest x d =
     (if (x > 0) = (d > 0) then c_div (x + c_div d 2) d else c_div (x - c_div d 2) d)"

definition fahrenheit_split :: "int \<Rightarrow> int" where
  "fahrenheit_split v =
     (let w = v - 32000
      in if w \<le> LONG_MAX div 5 then c_div (w * 5) 9 else c_div w 9 * 5)"

definition fahrenheit_split_2 :: "int \<Rightarrow> int" where
  "fahrenheit_split_2 v =
     (let w = v - 32000
      in if w \<le> LONG_MAX div 5 then div_round_closest (w * 5) 9
         else div_round_closest w 9 * 5)"

definition target_modifier_of :: "hp_wmi_numeric_sensor \<Rightarrow> int" where
  "target_modifier_of nsensor =
     (if uint (sensor_type nsensor) = HP_WMI_TYPE_AIR_FLOW then 0 else - 3)"

definition decade_value :: "hp_wmi_numeric_sensor \<Rightarrow> int" where
  "decade_value nsensor =
     decade_scaled (uint (current_reading nsensor)) (sint (unit_modifier nsensor))
       (target_modifier_of nsensor)"

text \<open>
  Specification side. The reading stands for \<open>reading * 10 ^ modifier\<close> base units, and
  the result is wanted in units of \<open>10 ^ target\<close> (milli-units, whole RPM for a fan),
  in degrees Celsius for a temperature. \<open>round_nearest p q\<close> is the fraction \<open>p / q\<close>
  (\<open>q\<close> positive) rounded to the nearest integer, a half upwards. \<open>scale_exact\<close> is the
  mathematically correct value, rounded once: the exact quotient
  \<open>reading * 10 ^ (modifier - target)\<close>, less 32000 and times \<open>5/9\<close> for Fahrenheit, less
  273150 for Kelvin. \<open>rounded_value\<close> is what rounding one decimal digit after the other
  gives instead when the modifier is \<open>d\<close> decades below the target, in closed form: the
  reading plus \<open>55...5\<close> (\<open>d\<close> digits), divided by \<open>10 ^ d\<close> with the remainder dropped.
\<close>

definition round_nearest :: "int \<Rightarrow> int \<Rightarrow> int" where
  "round_nearest p q = (2 * p + q) div (2 * q)"

definition scale_exact :: "hp_wmi_numeric_sensor \<Rightarrow> int" where
  "scale_exact nsensor =
     (let reading = uint (current_reading nsensor);
          modifier = sint (unit_modifier nsensor);
          target = target_modifier_of nsensor;
          up = 10 ^ nat (modifier - target);
          down = 10 ^ nat (target - modifier)
      in if uint (sensor_type nsensor) = HP_WMI_TYPE_TEMPERATURE \<and>
            uint (base_units nsensor) = HP_WMI_UNITS_DEGREES_F
         then round_nearest ((reading * up - 32000 * down) * 5) (9 * down)
         else if uint (sensor_type nsensor) = HP_WMI_TYPE_TEMPERATURE \<and>
                 uint (base_units nsensor) = HP_WMI_UNITS_DEGREES_K
         then round_nearest (reading * up - 273150 * down) down
         else round_nearest (reading * up) down)"

definition decade_rounded :: "int \<Rightarrow> int \<Rightarrow> int \<Rightarrow> int" where
  "decade_rounded reading modifier target =
     (if modifier < target
      then (reading + 5 * ((10 ^ nat (target - modifier) - 1) div 9)) div
             10 ^ nat (target - modifier)
      else reading * 10 ^ nat (modifier - target))"

definition rounded_value :: "hp_wmi_numeric_sensor \<Rightarrow> int" where
  "rounded_value nsensor =
     decade_rounded (uint (current_reading nsensor)) (sint (unit_modifier nsensor))
       (target_modifier_of nsensor)"

text \<open>A sensor with given type, units, modifier and reading, for concrete examples.\<close>

definition sensor_with :: "u32 \<Rightarrow> u32 \<Rightarrow> s32 \<Rightarrow> u32 \<Rightarrow> hp_wmi_numeric_sensor" where
  "sensor_with st bu um cr =
     \<lparr>name = None, description = None, sensor_type = st, other_sensor_type = None,
      operational_status = 2, current_state = None, possible_states = [], base_units = bu,
      unit_modifier = um, current_reading = cr, possible_states_count = 0\<rparr>"

text \<open>
  \<^verbatim>\<open>numeric_sensor_has_fault\<close>: in the first copy (lines 534 to 540) any status other
  than OK, or a zero reading; in the second copy (lines 1864 to 1886) a switch over the
  failure statuses. \<^verbatim>\<open>numeric_sensor_is_connected\<close> exists only in the second copy
  (lines 1856 to 1862).
\<close>

definition numeric_sensor_has_fault :: "hp_wmi_numeric_sensor \<Rightarrow> bool" where
  "numeric_sensor_has_fault nsensor =
     (uint (operational_status nsensor) \<noteq> HP_WMI_STATUS_OK \<or> current_reading nsensor = 0)"

definition numeric_sensor_is_connected :: "hp_wmi_numeric_sensor \<Rightarrow> bool" where
  "numeric_sensor_is_connected nsensor =
     (uint (operational_status nsensor) \<noteq> HP_WMI_STATUS_NO_CONTACT)"

definition numeric_sensor_has_fault_2 :: "hp_wmi_numeric_sensor \<Rightarrow> bool" where
  "numeric_sensor_has_fault_2 nsensor =
     (uint (operational_status nsensor) \<in>
        {HP_WMI_STATUS_DEGRADED, HP_WMI_STATUS_STRESSED, HP_WMI_STATUS_PREDICTIVE_FAILURE,
         HP_WMI_STATUS_ERROR, HP_WMI_STATUS_NON_RECOVERABLE_ERROR, HP_WMI_STATUS_NO_CONTACT,
         HP_WMI_STATUS_LOST_COMMUNICATION, HP_WMI_STATUS_ABORTED,
         HP_WMI_STATUS_SUPPORTING_ENTITY_IN_ERROR,
         HP_WMI_STATUS_COMPLETED + HP_WMI_STATUS_DEGRADED,
         HP_WMI_STATUS_COMPLETED + HP_WMI_STATUS_ERROR})"

text \<open>
  \<^verbatim>\<open>update_numeric_sensor_from_wobj\<close> (lines 736 to 769, and 2075 to 2106). It reads
  four elements without validating the object: OperationalStatus, CurrentState, and the
  two elements at \<^verbatim>\<open>HP_WMI_PROPERTY_UNIT_MODIFIER + offset\<close> and
  \<^verbatim>\<open>HP_WMI_PROPERTY_CURRENT_READING + offset\<close>, where the \<^verbatim>\<open>u8\<close> offset is
  \<^verbatim>\<open>possible_states_count - 1\<close>. The current state is replaced only when \<^verbatim>\<open>strcmp\<close>
  finds a difference. The function returns nothing; the model returns the updated sensor,
  or \<open>Undefined_access\<close> when one of the reads is undefined in C.
\<close>

definition update_numeric_sensor_from_wobj ::
  "hp_wmi_numeric_sensor \<Rightarrow> acpi_object \<Rightarrow> error + hp_wmi_numeric_sensor" where
  "update_numeric_sensor_from_wobj nsensor wobj =
     (case wobj of
        ACPI_Package elements \<Rightarrow>
          (case integer_value elements HP_WMI_PROPERTY_OPERATIONAL_STATUS of
             Inl err \<Rightarrow> Inl err
           | Inr status \<Rightarrow>
          (case string_pointer elements HP_WMI_PROPERTY_CURRENT_STATE of
             Inl err \<Rightarrow> Inl err
           | Inr string \<Rightarrow>
          (case current_state nsensor of
             None \<Rightarrow> Inl Undefined_access
           | Some state \<Rightarrow>
          (let offset = unat (possible_states_count nsensor - 1) in
          (case integer_value elements (HP_WMI_PROPERTY_UNIT_MODIFIER + offset) of
             Inl err \<Rightarrow> Inl err
           | Inr modifier \<Rightarrow>
          (case integer_value elements (HP_WMI_PROPERTY_CURRENT_READING + offset) of
             Inl err \<Rightarrow> Inl err
           | Inr reading \<Rightarrow>
             Inr (nsensor\<lparr>operational_status := ucast status,
                           current_state :=
                             (if string \<noteq> state
                              then Some (hp_wmi_strdup string (length string))
                              else Some state),
                           unit_modifier := ucast modifier,
                           current_reading := ucast reading\<rparr>)))))))
      | _ \<Rightarrow> Inl Undefined_access)"

definition update_numeric_sensor_from_wobj_2 ::
  "hp_wmi_numeric_sensor \<Rightarrow> acpi_object \<Rightarrow> error + hp_wmi_numeric_sensor" where
  "update_numeric_sensor_from_wobj_2 nsensor wobj =
     (case wobj of
        ACPI_Package elements \<Rightarrow>
          (case integer_value elements HP_WMI_PROPERTY_OPERATIONAL_STATUS of
             Inl err \<Rightarrow> Inl err
           | Inr status \<Rightarrow>
          (case string_pointer elements HP_WMI_PROPERTY_CURRENT_STATE of
             Inl err \<Rightarrow> Inl err
           | Inr pointer \<Rightarrow>
          (case current_state nsensor of
             None \<Rightarrow> Inl Undefined_access
           | Some state \<Rightarrow>
          (let string = strim pointer;
               offset = unat (possible_states_count nsensor - 1) in
          (case integer_value elements (HP_WMI_PROPERTY_UNIT_MODIFIER + offset) of
             Inl err \<Rightarrow> Inl err
           | Inr modifier \<Rightarrow>
          (case integer_value elements (HP_WMI_PROPERTY_CURRENT_READING + offset) of
             Inl err \<Rightarrow> Inl err
           | Inr reading \<Rightarrow>
             Inr (nsensor\<lparr>operational_status := ucast status,
                           current_state :=
                             (if string \<noteq> state then Some (hp_wmi_strdup_2 string)
                              else Some state),
                           unit_modifier := ucast modifier,
                           current_reading := ucast reading\<rparr>)))))))
      | _ \<Rightarrow> Inl Undefined_access)"

section \<open>Sensor state and the freshness cache\<close>

text \<open>\<^verbatim>\<open>enum hwmon_sensor_types\<close> of the kernel's hwmon framework.\<close>

datatype hwmon_sensor_types =
  hwmon_chip | hwmon_temp | hwmon_in | hwmon_curr | hwmon_power | hwmon_energy |
  hwmon_humidity | hwmon_fan | hwmon_pwm | hwmon_intrusion

text \<open>
  The WMI transport. \<^verbatim>\<open>wmidev_block_query\<close> is outside the repository: the device is
  modelled by the answer of the firmware for each instance number (\<open>None\<close> is the NULL
  result) and by the list of the instance numbers queried so far, which the model keeps
  in order to count queries. \<^verbatim>\<open>hp_wmi_get_wobj\<close> (lines 465 to 471) is one query.

  The update pass reads an answer without validating it. Where such a read is undefined
  in C (a union member of another type, an element beyond the package), what it yields
  depends on the memory behind the answer and not on the answer as modelled here; the
  field \<open>stray\<close> of the device stands for that memory: it gives, for a sensor and an
  answer, the four values that the unvalidated reads yield. Nothing is assumed about it.
\<close>

record wmi_device =
  block :: "nat \<Rightarrow> acpi_object option"
  queries :: "nat list"
  stray :: "hp_wmi_numeric_sensor \<Rightarrow> acpi_object \<Rightarrow> hp_wmi_numeric_sensor"

definition hp_wmi_get_wobj :: "wmi_device \<Rightarrow> nat \<Rightarrow> acpi_object option \<times> wmi_device" where
  "hp_wmi_get_wobj dev inst = (block dev inst, dev\<lparr>queries := queries dev @ [inst]\<rparr>)"

text \<open>
  \<^verbatim>\<open>struct hp_wmi_info\<close>. The field \<^verbatim>\<open>instance\<close> is named \<open>instance_no\<close> here. The
  second copy has no \<^verbatim>\<open>lo_val\<close> and \<^verbatim>\<open>hi_val\<close>; its functions leave them alone.
  \<^verbatim>\<open>last_updated\<close> is an \<^verbatim>\<open>unsigned long\<close> in jiffies.
\<close>

record hp_wmi_info =
  nsensor :: hp_wmi_numeric_sensor
  instance_no :: u8
  is_active :: bool
  type :: hwmon_sensor_types
  cached_val :: int
  lo_val :: int
  hi_val :: int
  last_updated :: u64

text \<open>
  \<^verbatim>\<open>interpret_info\<close> (lines 785 to 797, and 2114 to 2120). The current value of the
  kernel's \<^verbatim>\<open>jiffies\<close> counter is a parameter.
\<close>

definition interpret_info :: "u64 \<Rightarrow> hp_wmi_info \<Rightarrow> hp_wmi_info" where
  "interpret_info jiffies info =
     (let cached = scale_numeric_sensor (nsensor info);
          info = info\<lparr>cached_val := cached\<rparr>;
          info = (if type info \<noteq> hwmon_fan
                  then info\<lparr>lo_val := min (lo_val info) (cached_val info),
                            hi_val := max (hi_val info) (cached_val info)\<rparr>
                  else info)
      in info\<lparr>last_updated := jiffies\<rparr>)"

definition interpret_info_2 :: "u64 \<Rightarrow> hp_wmi_info \<Rightarrow> hp_wmi_info" where
  "interpret_info_2 jiffies info =
     info\<lparr>cached_val := scale_numeric_sensor_2 (nsensor info), last_updated := jiffies\<rparr>"

text \<open>
  The kernel macro \<^verbatim>\<open>time_after(a, b)\<close> is \<^verbatim>\<open>(long)((b) - (a)) < 0\<close> on
  \<^verbatim>\<open>unsigned long\<close> operands.
\<close>

definition time_after :: "u64 \<Rightarrow> u64 \<Rightarrow> bool" where
  "time_after a b = (sint (b - a) < 0)"

text \<open>
  \<^verbatim>\<open>hp_wmi_update_info\<close> (lines 806 to 831, and 2129 to 2158). The parameters are
  \<^verbatim>\<open>jiffies\<close>, the kernel constant \<^verbatim>\<open>HZ\<close> (jiffies per second), the device and the
  sensor info; the result is the return value (\<open>None\<close> for 0, \<open>Some EIO\<close> for
  \<^verbatim>\<open>-EIO\<close>), the info and the device afterwards. The only error is a query without
  an answer. \<^verbatim>\<open>update_numeric_sensor_from_wobj\<close> returns nothing, so every answer is
  followed by \<^verbatim>\<open>interpret_info\<close> and the return of 0: \<open>updated_sensor\<close> is the sensor
  after the update pass, with the values of the pass where its reads are defined, and
  with the four assigned fields taken from \<open>stray\<close> where they are not. The second copy
  takes the mutex inside the function and the first copy leaves that to its callers; the
  model is sequential and has no lock.
\<close>

definition updated_sensor ::
  "(hp_wmi_numeric_sensor \<Rightarrow> acpi_object \<Rightarrow> error + hp_wmi_numeric_sensor) \<Rightarrow>
   wmi_device \<Rightarrow> hp_wmi_numeric_sensor \<Rightarrow> acpi_object \<Rightarrow> hp_wmi_numeric_sensor" where
  "updated_sensor update dev sensor wobj =
     (case update sensor wobj of
        Inr ns \<Rightarrow> ns
      | Inl err \<Rightarrow>
          sensor\<lparr>operational_status := operational_status (stray dev sensor wobj),
                 current_state := current_state (stray dev sensor wobj),
                 unit_modifier := unit_modifier (stray dev sensor wobj),
                 current_reading := current_reading (stray dev sensor wobj)\<rparr>)"

definition hp_wmi_update_info ::
  "u64 \<Rightarrow> u64 \<Rightarrow> wmi_device \<Rightarrow> hp_wmi_info \<Rightarrow> error option \<times> hp_wmi_info \<times> wmi_device" where
  "hp_wmi_update_info jiffies HZ dev info =
     (if time_after jiffies (last_updated info + HZ) then
        (case hp_wmi_get_wobj dev (unat (instance_no info)) of
           (None, dev) \<Rightarrow> (Some EIO, info, dev)
         | (Some wobj, dev) \<Rightarrow>
             (None,
              interpret_info jiffies
                (info\<lparr>nsensor :=
                   updated_sensor update_numeric_sensor_from_wobj dev (nsensor info) wobj\<rparr>),
              dev))
      else (None, info, dev))"

definition hp_wmi_update_info_2 ::
  "u64 \<Rightarrow> u64 \<Rightarrow> wmi_device \<Rightarrow> hp_wmi_info \<Rightarrow> error option \<times> hp_wmi_info \<times> wmi_device" where
  "hp_wmi_update_info_2 jiffies HZ dev info =
     (if time_after jiffies (last_updated info + HZ) then
        (case hp_wmi_get_wobj dev (unat (instance_no info)) of
           (None, dev) \<Rightarrow> (Some EIO, info, dev)
         | (Some wobj, dev) \<Rightarrow>
             (None,
              interpret_info_2 jiffies
                (info\<lparr>nsensor :=
                   updated_sensor update_numeric_sensor_from_wobj_2 dev (nsensor info) wobj\<rparr>),
              dev))
      else (None, info, dev))"


section \<open>Driver state, background refresh and discovery\<close>

text \<open>
  \<^verbatim>\<open>struct hp_wmi_refresh_task\<close> and \<^verbatim>\<open>struct hp_wmi_sensors\<close>. The array
  \<^verbatim>\<open>info\<close> has \<^verbatim>\<open>HP_WMI_MAX_INSTANCES\<close> entries; \<^verbatim>\<open>info_map[type][channel]\<close> points
  into it, here by index, with \<open>None\<close> for a NULL pointer and the empty list for an
  array that was never allocated. The second copy has no refresh task.
\<close>

record hp_wmi_refresh_task =
  update_interval :: int

record hp_wmi_sensors =
  wdev :: wmi_device
  refresh_task :: hp_wmi_refresh_task
  info :: "hp_wmi_info list"
  info_map :: "hwmon_sensor_types \<Rightarrow> nat option list"
  count :: nat
  channel_count :: "hwmon_sensor_types \<Rightarrow> nat"

text \<open>
  \<^verbatim>\<open>hp_wmi_sensors_refresh_task\<close> (lines 834 to 874, first copy only). The loop over
  the sensors returns \<open>False\<close> when it left through \<^verbatim>\<open>goto out_unlock\<close> after setting
  \<^verbatim>\<open>update_interval\<close> to zero, and \<open>True\<close> when it ran to the end. The test in the
  source is \<^verbatim>\<open>if (!err)\<close>, so the branch is taken when the update returned 0. The task
  returns the state and the delay in milliseconds given to \<^verbatim>\<open>schedule_delayed_work\<close>,
  or \<open>None\<close> when it did not schedule itself again.
\<close>

function hp_wmi_sensors_refresh_loop ::
  "u64 \<Rightarrow> u64 \<Rightarrow> hp_wmi_sensors \<Rightarrow> nat \<Rightarrow> bool \<times> hp_wmi_sensors" where
  "hp_wmi_sensors_refresh_loop jiffies HZ state i =
     (if i < count state then
        if \<not> is_active (info state ! i) then
          hp_wmi_sensors_refresh_loop jiffies HZ state (i + 1)
        else
          (case hp_wmi_update_info jiffies HZ (wdev state) (info state ! i) of
             (err, info', dev) \<Rightarrow>
               if err = None then
                 (False, state\<lparr>wdev := dev, info := (info state)[i := info'],
                                refresh_task := (refresh_task state)\<lparr>update_interval := 0\<rparr>\<rparr>)
               else
                 hp_wmi_sensors_refresh_loop jiffies HZ
                   (state\<lparr>wdev := dev, info := (info state)[i := info']\<rparr>) (i + 1))
      else (True, state))"
  by pat_completeness auto
termination
  by (relation "measure (\<lambda>(jiffies, HZ, state, i). count state - i)") auto

declare hp_wmi_sensors_refresh_loop.simps [simp del]

definition hp_wmi_sensors_refresh_task ::
  "u64 \<Rightarrow> u64 \<Rightarrow> hp_wmi_sensors \<Rightarrow> hp_wmi_sensors \<times> int option" where
  "hp_wmi_sensors_refresh_task jiffies HZ state =
     (let interval = update_interval (refresh_task state)
      in case hp_wmi_sensors_refresh_loop jiffies HZ state 0 of
           (True, state) \<Rightarrow> (state, Some interval)
         | (False, state) \<Rightarrow> (state, None))"

text \<open>
  \<^verbatim>\<open>hp_wmi_sensors_init\<close> (lines 1330 to 1475, and 2437 to 2554). The table
  \<^verbatim>\<open>hp_wmi_hwmon_type_map\<close> has entries for the four supported types and zero
  (\<^verbatim>\<open>hwmon_chip\<close>) elsewhere.
\<close>

definition hp_wmi_hwmon_type_map :: "int \<Rightarrow> hwmon_sensor_types" where
  "hp_wmi_hwmon_type_map wtype =
     (if wtype = HP_WMI_TYPE_TEMPERATURE then hwmon_temp
      else if wtype = HP_WMI_TYPE_VOLTAGE then hwmon_in
      else if wtype = HP_WMI_TYPE_CURRENT then hwmon_curr
      else if wtype = HP_WMI_TYPE_AIR_FLOW then hwmon_fan
      else hwmon_chip)"

text \<open>
  The discovery loop \<^verbatim>\<open>for (i = 0, channel = 0; i < HP_WMI_MAX_INSTANCES; i++, info++)\<close>.
  The two copies differ in three places, which are parameters here: the decoder
  (\<open>populate\<close>), the test that skips a decoded sensor (\<open>skip\<close>:
  \<^verbatim>\<open>numeric_sensor_has_fault(nsensor)\<close> at line 1360 of the first copy,
  \<^verbatim>\<open>!numeric_sensor_is_connected(nsensor)\<close> at line 2467 of the second), and what is done
  to the info of an accepted sensor after \<^verbatim>\<open>is_active\<close> and \<^verbatim>\<open>type\<close> are set
  (\<open>activate\<close>). A failed query leaves the loop; an error of the decoder is returned
  from the function after \<^verbatim>\<open>kfree(wobj)\<close>, whatever the instance number; a skipped or
  unclassified sensor stays in \<^verbatim>\<open>info\<close> but is not activated. \<open>active_info\<close> holds the
  indices of the activated infos, its length is \<^verbatim>\<open>channel\<close>, and \<open>counts\<close> is the local
  array \<^verbatim>\<open>channel_count\<close>.
\<close>

function hp_wmi_sensors_init_loop ::
  "(hp_wmi_numeric_sensor \<Rightarrow> acpi_object \<Rightarrow> error + hp_wmi_numeric_sensor) \<Rightarrow>
   (hp_wmi_numeric_sensor \<Rightarrow> bool) \<Rightarrow> (hp_wmi_info \<Rightarrow> hp_wmi_info) \<Rightarrow>
   hp_wmi_sensors \<Rightarrow> nat \<Rightarrow> nat list \<Rightarrow> (hwmon_sensor_types \<Rightarrow> nat) \<Rightarrow>
   error + hp_wmi_sensors \<times> nat \<times> nat list \<times> (hwmon_sensor_types \<Rightarrow> nat)" where
  "hp_wmi_sensors_init_loop populate skip activate state i active_info counts =
     (if i < HP_WMI_MAX_INSTANCES then
        (case hp_wmi_get_wobj (wdev state) i of
           (None, dev) \<Rightarrow> Inr (state\<lparr>wdev := dev\<rparr>, i, active_info, counts)
         | (Some wobj, dev) \<Rightarrow>
             (case populate (nsensor ((info state ! i)\<lparr>instance_no := of_nat i\<rparr>)) wobj of
                Inl err \<Rightarrow> Inl err
              | Inr sensor \<Rightarrow>
                  if skip sensor \<or> classify_numeric_sensor sensor < 0 then
                    hp_wmi_sensors_init_loop populate skip activate
                      (state\<lparr>wdev := dev,
                             info := (info state)[i := (info state ! i)
                                       \<lparr>instance_no := of_nat i, nsensor := sensor\<rparr>]\<rparr>)
                      (i + 1) active_info counts
                  else
                    hp_wmi_sensors_init_loop populate skip activate
                      (state\<lparr>wdev := dev,
                             info := (info state)[i := activate ((info state ! i)
                                       \<lparr>instance_no := of_nat i, nsensor := sensor,
                                        is_active := True,
                                        type := hp_wmi_hwmon_type_map
                                                  (classify_numeric_sensor sensor)\<rparr>)]\<rparr>)
                      (i + 1) (active_info @ [i])
                      (counts (hp_wmi_hwmon_type_map (classify_numeric_sensor sensor) :=
                         counts (hp_wmi_hwmon_type_map (classify_numeric_sensor sensor)) + 1))))
      else Inr (state, i, active_info, counts))"
  by pat_completeness auto
termination
  by (relation "measure (\<lambda>(populate, skip, activate, state, i, rest). HP_WMI_MAX_INSTANCES - i)")
     auto

declare hp_wmi_sensors_init_loop.simps [simp del]

text \<open>
  The last loop of the function, \<^verbatim>\<open>while (channel > 0)\<close>, which files the active infos
  under their type, from the last one back.
\<close>

fun fill_info_map ::
  "hp_wmi_info list \<Rightarrow> nat list \<Rightarrow> nat \<Rightarrow> (hwmon_sensor_types \<Rightarrow> nat) \<Rightarrow>
   (hwmon_sensor_types \<Rightarrow> nat option list) \<Rightarrow> hwmon_sensor_types \<Rightarrow> nat option list" where
  "fill_info_map infos active_info 0 counts imap = imap"
| "fill_info_map infos active_info (Suc channel) counts imap =
     (let ty = type (infos ! (active_info ! channel));
          i = counts ty - 1
      in fill_info_map infos active_info channel (counts (ty := i))
           (imap (ty := (imap ty)[i := Some (active_info ! channel)])))"

text \<open>
  The part after the discovery loop: \<^verbatim>\<open>-ENODATA\<close> when no instance answered, an early
  return 0 when no sensor is active, otherwise the per-type arrays are allocated (zeroed)
  and filled. The first copy always counts one \<^verbatim>\<open>hwmon_chip\<close> channel, the second only
  when there is a temperature channel. The channel configuration handed to the hwmon
  framework, the debugfs tree and the registration itself are outside this model, and
  are taken to succeed.
\<close>

definition hp_wmi_sensors_init_end ::
  "bool \<Rightarrow> hp_wmi_sensors \<times> nat \<times> nat list \<times> (hwmon_sensor_types \<Rightarrow> nat) \<Rightarrow>
   error + hp_wmi_sensors" where
  "hp_wmi_sensors_init_end chip_always r =
     (case r of (state, i, active_info, counts) \<Rightarrow>
        if i = 0 then Inl ENODATA
        else if length active_info = 0 then Inr (state\<lparr>count := i\<rparr>)
        else
          (let counts = (if chip_always \<or> counts hwmon_temp \<noteq> 0
                         then counts (hwmon_chip := 1) else counts);
               imap = (\<lambda>ty. if counts ty \<noteq> 0 then replicate (counts ty) None
                            else info_map state ty)
           in Inr (state\<lparr>count := i, channel_count := counts,
                         info_map := fill_info_map (info state) active_info
                                       (length active_info) counts imap\<rparr>)))"

definition hp_wmi_sensors_init :: "u64 \<Rightarrow> hp_wmi_sensors \<Rightarrow> error + hp_wmi_sensors" where
  "hp_wmi_sensors_init jiffies state =
     (case hp_wmi_sensors_init_loop populate_numeric_sensor_from_wobj numeric_sensor_has_fault
             (\<lambda>info'. interpret_info jiffies (info'\<lparr>lo_val := LONG_MAX, hi_val := LONG_MIN\<rparr>))
             state 0 [] (\<lambda>ty. 0) of
        Inl err \<Rightarrow> Inl err
      | Inr r \<Rightarrow> hp_wmi_sensors_init_end True r)"

definition hp_wmi_sensors_init_2 :: "u64 \<Rightarrow> hp_wmi_sensors \<Rightarrow> error + hp_wmi_sensors" where
  "hp_wmi_sensors_init_2 jiffies state =
     (case hp_wmi_sensors_init_loop populate_numeric_sensor_from_wobj_2
             (\<lambda>sensor. \<not> numeric_sensor_is_connected sensor)
             (interpret_info_2 jiffies) state 0 [] (\<lambda>ty. 0) of
        Inl err \<Rightarrow> Inl err
      | Inr r \<Rightarrow> hp_wmi_sensors_init_end False r)"

text \<open>
  For concrete examples: the zeroed driver state over a given firmware, and a well-formed
  record with two possible states.
\<close>

definition zero_sensor :: hp_wmi_numeric_sensor where
  "zero_sensor = \<lparr>name = None, description = None, sensor_type = 0, other_sensor_type = None,
     operational_status = 0, current_state = None, possible_states = [], base_units = 0,
     unit_modifier = 0, current_reading = 0, possible_states_count = 0\<rparr>"

definition zero_info :: hp_wmi_info where
  "zero_info = \<lparr>nsensor = zero_sensor, instance_no = 0, is_active = False, type = hwmon_chip,
     cached_val = 0, lo_val = 0, hi_val = 0, last_updated = 0\<rparr>"

definition zero_state :: "(nat \<Rightarrow> acpi_object option) \<Rightarrow> hp_wmi_sensors" where
  "zero_state fw =
     \<lparr>wdev = \<lparr>block = fw, queries = [], stray = (\<lambda>sensor wobj. sensor)\<rparr>,
      refresh_task = \<lparr>update_interval = 0\<rparr>,
      info = replicate HP_WMI_MAX_INSTANCES zero_info, info_map = (\<lambda>ty. []), count = 0,
      channel_count = (\<lambda>ty. 0)\<rparr>"

definition sensor_package :: "string \<Rightarrow> u64 \<Rightarrow> u64 \<Rightarrow> u64 \<Rightarrow> u64 \<Rightarrow> u64 \<Rightarrow> acpi_object" where
  "sensor_package nm st status bu um cr =
     ACPI_Package [ACPI_String nm, ACPI_String ''description'', ACPI_Integer st,
       ACPI_String '''', ACPI_Integer status, ACPI_String ''Normal'',
       ACPI_String ''Normal'', ACPI_String ''Caution'',
       ACPI_Integer bu, ACPI_Integer um, ACPI_Integer cr]"

text \<open>A decoded Celsius temperature sensor with two possible states, and an active info for it.\<close>

definition example_sensor :: hp_wmi_numeric_sensor where
  "example_sensor =
     \<lparr>name = Some ''CPU'', description = Some ''description'', sensor_type = 2,
      other_sensor_type = None, operational_status = 2, current_state = Some ''Normal'',
      possible_states = [''Normal'', ''Caution''], base_units = 2, unit_modifier = - 3,
      current_reading = 25000, possible_states_count = 2\<rparr>"

definition example_info :: hp_wmi_info where
  "example_info =
     \<lparr>nsensor = example_sensor, instance_no = 0, is_active = True, type = hwmon_temp,
      cached_val = 25000, lo_val = 25000, hi_val = 25000, last_updated = 1000\<rparr>"

text \<open>The fields of a sensor that the specification calls fixed at discovery.\<close>

definition fixed_fields ::
  "hp_wmi_numeric_sensor \<Rightarrow>
   string option \<times> string option \<times> u32 \<times> string option \<times> u32 \<times> string list \<times> u8" where
  "fixed_fields sensor =
     (name sensor, description sensor, sensor_type sensor, other_sensor_type sensor,
      base_units sensor, possible_states sensor, possible_states_count sensor)"

text \<open>
  A device whose firmware answers for instance 0 with a well-formed record (status 3,
  reading 26000), a device whose firmware answers every query with an integer instead
  of a package, a device whose firmware answers nothing, and a driver state with the
  example sensor as its only, active, sensor and an update interval of 5000 ms.
\<close>

definition example_device :: wmi_device where
  "example_device =
     \<lparr>block = (\<lambda>i. if i = 0 then Some (sensor_package ''CPU'' 2 3 2 0xFFFFFFFD 26000) else None),
      queries = [], stray = (\<lambda>sensor wobj. sensor)\<rparr>"


definition dead_device :: wmi_device where
  "dead_device = \<lparr>block = (\<lambda>i. None), queries = [], stray = (\<lambda>sensor wobj. sensor)\<rparr>"

definition example_state :: "wmi_device \<Rightarrow> hp_wmi_sensors" where
  "example_state dev =
     \<lparr>wdev = dev, refresh_task = \<lparr>update_interval = 5000\<rparr>,
      info = example_info # replicate 31 zero_info,
      info_map = (\<lambda>ty. if ty = hwmon_temp then [Some 0] else if ty = hwmon_chip then [None] else []),
      count = 1,
      channel_count = (\<lambda>ty. if ty = hwmon_temp \<or> ty = hwmon_chip then 1 else 0)\<rparr>"


text \<open>
  The states that one pass of the discovery loop produces from \<open>state\<close> at instance \<open>i\<close>:
  the device after the query, the state when the decoded sensor is skipped or not
  classified, and the state when it is activated.
\<close>

definition queried :: "hp_wmi_sensors \<Rightarrow> nat \<Rightarrow> wmi_device" where
  "queried state i = (wdev state)\<lparr>queries := queries (wdev state) @ [i]\<rparr>"

definition skipped :: "hp_wmi_sensors \<Rightarrow> nat \<Rightarrow> hp_wmi_numeric_sensor \<Rightarrow> hp_wmi_sensors" where
  "skipped state i sensor =
     state\<lparr>wdev := queried state i,
           info := (info state)[i := (info state ! i)
                     \<lparr>instance_no := of_nat i, nsensor := sensor\<rparr>]\<rparr>"

definition activated ::
  "(hp_wmi_info \<Rightarrow> hp_wmi_info) \<Rightarrow> hp_wmi_sensors \<Rightarrow> nat \<Rightarrow> hp_wmi_numeric_sensor \<Rightarrow>
   hp_wmi_sensors" where
  "activated activate state i sensor =
     state\<lparr>wdev := queried state i,
           info := (info state)[i := activate ((info state ! i)
                     \<lparr>instance_no := of_nat i, nsensor := sensor, is_active := True,
                      type := hp_wmi_hwmon_type_map (classify_numeric_sensor sensor)\<rparr>)]\<rparr>"

text \<open>
  The specification's terms for discovery. The record of instance \<open>j\<close> decodes when the
  firmware answers for it and the decoder accepts the answer; the record of instance \<open>k\<close>
  is malformed when the firmware answers and the decoder returns the error \<open>err\<close>. The
  decoder is applied to the sensor of the state's info entry, as the loop does.
\<close>

definition decodes ::
  "(hp_wmi_numeric_sensor \<Rightarrow> acpi_object \<Rightarrow> error + hp_wmi_numeric_sensor) \<Rightarrow>
   hp_wmi_sensors \<Rightarrow> nat \<Rightarrow> bool" where
  "decodes populate state j =
     (case block (wdev state) j of
        None \<Rightarrow> False
      | Some wobj \<Rightarrow>
          (case populate (nsensor (info state ! j)) wobj of
             Inl err \<Rightarrow> False
           | Inr sensor \<Rightarrow> True))"

definition malformed ::
  "(hp_wmi_numeric_sensor \<Rightarrow> acpi_object \<Rightarrow> error + hp_wmi_numeric_sensor) \<Rightarrow>
   hp_wmi_sensors \<Rightarrow> nat \<Rightarrow> error \<Rightarrow> bool" where
  "malformed populate state k err =
     (case block (wdev state) k of
        None \<Rightarrow> False
      | Some wobj \<Rightarrow>
          (case populate (nsensor (info state ! k)) wobj of
             Inl err' \<Rightarrow> err' = err
           | Inr sensor \<Rightarrow> False))"

text \<open>
  The live set. \<open>live_exactly accepted state j\<close>: the info of instance \<open>j\<close> is active
  exactly when its sensor is accepted and classifies, and \<open>j\<close> stands in the channel list
  of a category exactly when, moreover, the category is the one of its classification.
\<close>

definition hwmon_types :: "hwmon_sensor_types list" where
  "hwmon_types = [hwmon_chip, hwmon_temp, hwmon_in, hwmon_curr, hwmon_power, hwmon_energy,
     hwmon_humidity, hwmon_fan, hwmon_pwm, hwmon_intrusion]"

definition live_exactly :: "(hp_wmi_numeric_sensor \<Rightarrow> bool) \<Rightarrow> hp_wmi_sensors \<Rightarrow> nat \<Rightarrow> bool" where
  "live_exactly accepted state j =
     (let sensor = nsensor (info state ! j);
          live = (accepted sensor \<and> 0 \<le> classify_numeric_sensor sensor)
      in is_active (info state ! j) = live \<and>
         list_all (\<lambda>ty. (Some j \<in> set (info_map state ty)) =
                     (live \<and> ty = hp_wmi_hwmon_type_map (classify_numeric_sensor sensor)))
           hwmon_types)"

text \<open>
  The state that the probe hands to the initialisation comes from \<^verbatim>\<open>devm_kzalloc\<close>: the
  array of infos has its 32 entries, no info is active and no category has a channel
  list (\<open>unpopulated\<close>). The sensor of instance \<open>j\<close> is kept in the state after discovery
  (\<open>discovered\<close>) when the entry \<open>j\<close> of the info array holds what the decoder made of
  the firmware's record for \<open>j\<close>, under the instance number \<open>j\<close>.
\<close>

definition unpopulated :: "hp_wmi_sensors \<Rightarrow> bool" where
  "unpopulated state =
     (length (info state) = HP_WMI_MAX_INSTANCES \<and>
      list_all (\<lambda>x. \<not> is_active x) (info state) \<and>
      list_all (\<lambda>ty. info_map state ty = []) hwmon_types)"

definition discovered ::
  "(hp_wmi_numeric_sensor \<Rightarrow> acpi_object \<Rightarrow> error + hp_wmi_numeric_sensor) \<Rightarrow>
   hp_wmi_sensors \<Rightarrow> hp_wmi_sensors \<Rightarrow> nat \<Rightarrow> bool" where
  "discovered populate state state' j =
     (case block (wdev state) j of
        None \<Rightarrow> False
      | Some wobj \<Rightarrow>
          populate (nsensor (info state ! j)) wobj = Inr (nsensor (info state' ! j)) \<and>
          instance_no (info state' ! j) = of_nat j)"

text \<open>
  A firmware that answers with the given records for the instances 0, 1, ... and with
  nothing after them; and three well-formed records: a Celsius temperature sensor with
  status OK, a fan (Air Flow, RPM) with status Degraded, and a Celsius temperature sensor
  with status No Contact.
\<close>

definition firmware_of :: "acpi_object list \<Rightarrow> nat \<Rightarrow> acpi_object option" where
  "firmware_of records i = (if i < length records then Some (records ! i) else None)"

definition example_records :: "acpi_object list" where
  "example_records =
     [sensor_package ''CPU'' 2 2 2 0 45, sensor_package ''Fan'' 12 3 19 0 1200,
      sensor_package ''Aux'' 2 12 2 0 30]"

section \<open>Properties\<close>

subsection \<open>Classification\<close>

lemma classify_numeric_sensor_cases:
  "classify_numeric_sensor sensor \<in>
     {HP_WMI_TYPE_TEMPERATURE, HP_WMI_TYPE_VOLTAGE, HP_WMI_TYPE_CURRENT,
      HP_WMI_TYPE_AIR_FLOW, - errno EINVAL}"
  by (simp add: classify_numeric_sensor_def Let_def hp_wmi_type_defs hp_wmi_units_defs)

text \<open>
  Claim C6. For every pair of a sensor type and base units (any two 32-bit values),
  the classifier returns Temperature exactly for the Temperature code with Celsius,
  Fahrenheit or Kelvin, Voltage exactly for (Voltage, Volts), Current exactly for
  (Current, Amps), the Air Flow code (the fan category) exactly for (Air Flow, RPM),
  and otherwise a negative value, namely \<open>-EINVAL\<close>.
\<close>

theorem classify_numeric_sensor_table:
  fixes sensor :: hp_wmi_numeric_sensor
  defines "st \<equiv> uint (sensor_type sensor)"
      and "bu \<equiv> uint (base_units sensor)"
      and "r \<equiv> classify_numeric_sensor sensor"
  shows "((r = HP_WMI_TYPE_TEMPERATURE) =
           (st = HP_WMI_TYPE_TEMPERATURE \<and>
            (bu = HP_WMI_UNITS_DEGREES_C \<or> bu = HP_WMI_UNITS_DEGREES_F \<or>
             bu = HP_WMI_UNITS_DEGREES_K))) \<and>
         ((r = HP_WMI_TYPE_VOLTAGE) =
           (st = HP_WMI_TYPE_VOLTAGE \<and> bu = HP_WMI_UNITS_VOLTS)) \<and>
         ((r = HP_WMI_TYPE_CURRENT) =
           (st = HP_WMI_TYPE_CURRENT \<and> bu = HP_WMI_UNITS_AMPS)) \<and>
         ((r = HP_WMI_TYPE_AIR_FLOW) =
           (st = HP_WMI_TYPE_AIR_FLOW \<and> bu = HP_WMI_UNITS_RPM)) \<and>
         ((r = - errno EINVAL) =
           (r \<noteq> HP_WMI_TYPE_TEMPERATURE \<and> r \<noteq> HP_WMI_TYPE_VOLTAGE \<and>
            r \<noteq> HP_WMI_TYPE_CURRENT \<and> r \<noteq> HP_WMI_TYPE_AIR_FLOW)) \<and>
         ((r < 0) = (r = - errno EINVAL))"
  unfolding st_def bu_def r_def classify_numeric_sensor_def Let_def
  by (simp add: hp_wmi_type_defs hp_wmi_units_defs)

subsection \<open>Record validation\<close>

abbreviation (input) is_string_type :: "acpi_object_type \<Rightarrow> bool" where
  "is_string_type \<equiv> (\<lambda>t. t = ACPI_TYPE_STRING)"

text \<open>
  A device for the proofs: the outer loop of \<open>check_wobj\<close> as a function of the
  types of the elements not yet read. The inner loop becomes \<open>takeWhile\<close> and
  \<open>dropWhile\<close>.
\<close>

function check_types :: "acpi_object_type list \<Rightarrow> nat \<Rightarrow> nat \<Rightarrow> error + nat" where
  "check_types [] p cnt = (if cnt = 0 \<or> p \<le> 9 then Inl EINVAL else Inr cnt)"
| "check_types (t # ts) p cnt =
     (if p > 9 then Inl EINVAL
      else if t \<noteq> hp_wmi_property_map ! p then Inl EINVAL
      else if p = 5 then
        check_types (dropWhile is_string_type ts) 7
          ((cnt + length (takeWhile is_string_type ts)) mod 256)
      else check_types ts (p + 1) cnt)"
  by pat_completeness auto
termination
  by (relation "measure (\<lambda>(ts, p, cnt). length ts)")
     (auto simp: length_dropWhile_le less_Suc_eq_le)

lemma property_map_6: "hp_wmi_property_map ! 6 = ACPI_TYPE_STRING"
  by (simp add: hp_wmi_property_map_def)

lemma check_wobj_inner_eq:
  "cnt < 256 \<Longrightarrow> check_wobj_inner elements i cnt =
     (i + length (takeWhile is_string_type (map acpi_type (drop (i + 1) elements))),
      (cnt + length (takeWhile is_string_type (map acpi_type (drop (i + 1) elements)))) mod 256)"
proof (induction elements i cnt rule: check_wobj_inner.induct)
  case (1 elements i cnt)
  show ?case
  proof (cases "i + 1 < length elements")
    case False
    with 1 show ?thesis
      by (subst check_wobj_inner.simps) simp
  next
    case True
    then have d: "drop (Suc i) elements = elements ! Suc i # drop (Suc (Suc i)) elements"
      by (simp add: Cons_nth_drop_Suc)
    show ?thesis
    proof (cases "acpi_type (elements ! (i + 1)) = ACPI_TYPE_STRING")
      case False
      with 1 True d show ?thesis
        by (subst check_wobj_inner.simps) (simp add: property_map_6)
    next
      case str: True
      have "check_wobj_inner elements i cnt =
              check_wobj_inner elements (i + 1) ((cnt + 1) mod 256)"
        using True str by (subst check_wobj_inner.simps) (simp add: property_map_6)
      also have "\<dots> = (i + 1 + length (takeWhile is_string_type
                              (map acpi_type (drop (i + 1 + 1) elements))),
                        ((cnt + 1) mod 256 + length (takeWhile is_string_type
                              (map acpi_type (drop (i + 1 + 1) elements)))) mod 256)"
        using 1 True str by (simp add: property_map_6)
      finally show ?thesis
        using str by (simp add: d mod_add_left_eq)
    qed
  qed
qed

lemma check_wobj_loop_types:
  "cnt < 256 \<Longrightarrow> check_wobj_loop elements i p cnt = check_types (map acpi_type (drop i elements)) p cnt"
proof (induction elements i p cnt rule: check_wobj_loop.induct)
  case (1 elements i p cnt)
  show ?case
  proof (cases "i < length elements")
    case False
    then show ?thesis
      by (subst check_wobj_loop.simps) simp
  next
    case True
    then have d: "drop i elements = elements ! i # drop (i + 1) elements"
      by (simp add: Cons_nth_drop_Suc)
    let ?k = "length (takeWhile is_string_type (map acpi_type (drop (i + 1) elements)))"
    have dw: "dropWhile is_string_type (map acpi_type (drop (Suc i) elements)) =
              map acpi_type (drop (Suc (i + ?k)) elements)"
      by (subst dropWhile_eq_drop) (simp add: drop_map add.commute add.left_commute)
    show ?thesis
      using 1 True
      by (subst check_wobj_loop.simps, subst d)
         (simp add: check_wobj_inner_eq dw)
  qed
qed


lemma check_types_step:
  assumes "check_types ts p cnt = Inr n" and "p \<le> 9" and "p \<noteq> 5" and "q = p + 1"
  shows "\<exists>r. ts = hp_wmi_property_map ! p # r \<and> check_types r q cnt = Inr n"
  using assms by (cases ts) (auto split: if_splits)

lemma check_types_state:
  assumes "check_types ts 5 cnt = Inr n"
  shows "\<exists>r. ts = ACPI_TYPE_STRING # r \<and>
             check_types (dropWhile is_string_type r) 7
               ((cnt + length (takeWhile is_string_type r)) mod 256) = Inr n"
  using assms by (cases ts) (auto simp: hp_wmi_property_map_def split: if_splits)

lemma check_types_end:
  assumes "check_types ts 10 cnt = Inr n"
  shows "ts = [] \<and> cnt = n \<and> n \<noteq> 0"
  using assms by (cases ts) (auto split: if_splits)

lemma takeWhile_replicate_strings:
  "length (takeWhile is_string_type r) = k \<Longrightarrow>
   takeWhile is_string_type r = replicate k ACPI_TYPE_STRING"
  by (induction r arbitrary: k) auto

lemma check_types_header:
  assumes ok: "check_types ts 0 0 = Inr n"
  shows "\<exists>r6. ts = [ACPI_TYPE_STRING, ACPI_TYPE_STRING, ACPI_TYPE_INTEGER, ACPI_TYPE_STRING,
                      ACPI_TYPE_INTEGER, ACPI_TYPE_STRING] @ r6 \<and>
              check_types (dropWhile is_string_type r6) 7
                (length (takeWhile is_string_type r6) mod 256) = Inr n"
proof -
  have "\<exists>r. ts = hp_wmi_property_map ! 0 # r \<and> check_types r 1 0 = Inr n"
    by (rule check_types_step [OF ok]) simp_all
  then obtain r1 where
    1: "ts = hp_wmi_property_map ! 0 # r1" "check_types r1 1 0 = Inr n" by blast
  have "\<exists>r. r1 = hp_wmi_property_map ! 1 # r \<and> check_types r 2 0 = Inr n"
    by (rule check_types_step [OF 1(2)]) simp_all
  then obtain r2 where
    2: "r1 = hp_wmi_property_map ! 1 # r2" "check_types r2 2 0 = Inr n" by blast
  have "\<exists>r. r2 = hp_wmi_property_map ! 2 # r \<and> check_types r 3 0 = Inr n"
    by (rule check_types_step [OF 2(2)]) simp_all
  then obtain r3 where
    3: "r2 = hp_wmi_property_map ! 2 # r3" "check_types r3 3 0 = Inr n" by blast
  have "\<exists>r. r3 = hp_wmi_property_map ! 3 # r \<and> check_types r 4 0 = Inr n"
    by (rule check_types_step [OF 3(2)]) simp_all
  then obtain r4 where
    4: "r3 = hp_wmi_property_map ! 3 # r4" "check_types r4 4 0 = Inr n" by blast
  have "\<exists>r. r4 = hp_wmi_property_map ! 4 # r \<and> check_types r 5 0 = Inr n"
    by (rule check_types_step [OF 4(2)]) simp_all
  then obtain r5 where
    5: "r4 = hp_wmi_property_map ! 4 # r5" "check_types r5 5 0 = Inr n" by blast
  from check_types_state [OF 5(2)] obtain r6 where
    6: "r5 = ACPI_TYPE_STRING # r6"
       "check_types (dropWhile is_string_type r6) 7
          ((0 + length (takeWhile is_string_type r6)) mod 256) = Inr n" by blast
  have "ts = [ACPI_TYPE_STRING, ACPI_TYPE_STRING, ACPI_TYPE_INTEGER, ACPI_TYPE_STRING,
              ACPI_TYPE_INTEGER, ACPI_TYPE_STRING] @ r6"
    unfolding 1(1) 2(1) 3(1) 4(1) 5(1) 6(1) by (simp add: hp_wmi_property_map_def)
  with 6(2) show ?thesis by simp
qed

lemma check_types_trailer:
  assumes ok: "check_types ts 7 cnt = Inr n"
  shows "ts = [ACPI_TYPE_INTEGER, ACPI_TYPE_INTEGER, ACPI_TYPE_INTEGER] \<and> cnt = n \<and> n \<noteq> 0"
proof -
  have "\<exists>r. ts = hp_wmi_property_map ! 7 # r \<and> check_types r 8 cnt = Inr n"
    by (rule check_types_step [OF ok]) simp_all
  then obtain r7 where
    7: "ts = hp_wmi_property_map ! 7 # r7" "check_types r7 8 cnt = Inr n" by blast
  have "\<exists>r. r7 = hp_wmi_property_map ! 8 # r \<and> check_types r 9 cnt = Inr n"
    by (rule check_types_step [OF 7(2)]) simp_all
  then obtain r8 where
    8: "r7 = hp_wmi_property_map ! 8 # r8" "check_types r8 9 cnt = Inr n" by blast
  have "\<exists>r. r8 = hp_wmi_property_map ! 9 # r \<and> check_types r 10 cnt = Inr n"
    by (rule check_types_step [OF 8(2)]) simp_all
  then obtain r9 where
    9: "r8 = hp_wmi_property_map ! 9 # r9" "check_types r9 10 cnt = Inr n" by blast
  from check_types_end [OF 9(2)] have e: "r9 = []" "cnt = n" "n \<noteq> 0" by blast+
  have "ts = [ACPI_TYPE_INTEGER, ACPI_TYPE_INTEGER, ACPI_TYPE_INTEGER]"
    unfolding 7(1) 8(1) 9(1) e(1) by (simp add: hp_wmi_property_map_def)
  with e show ?thesis by simp
qed

lemma check_types_sound:
  assumes ok: "check_types ts 0 0 = Inr n" and len: "length ts \<le> 32"
  shows "1 \<le> n \<and> ts = sensor_schema n"
proof -
  from check_types_header [OF ok] obtain r6 where
    h: "ts = [ACPI_TYPE_STRING, ACPI_TYPE_STRING, ACPI_TYPE_INTEGER, ACPI_TYPE_STRING,
              ACPI_TYPE_INTEGER, ACPI_TYPE_STRING] @ r6"
    and c: "check_types (dropWhile is_string_type r6) 7
              (length (takeWhile is_string_type r6) mod 256) = Inr n"
    by blast
  let ?k = "length (takeWhile is_string_type r6)"
  from check_types_trailer [OF c] have
    t: "dropWhile is_string_type r6 = [ACPI_TYPE_INTEGER, ACPI_TYPE_INTEGER, ACPI_TYPE_INTEGER]"
    and e: "?k mod 256 = n" "n \<noteq> 0"
    by blast+
  have "?k \<le> length r6" by (rule length_takeWhile_le)
  moreover have "length r6 \<le> 32" using len unfolding h by simp
  ultimately have "?k < 256" by linarith
  then have k: "?k = n" using e(1) by simp
  have "r6 = takeWhile is_string_type r6 @ dropWhile is_string_type r6" by simp
  also have "\<dots> = replicate n ACPI_TYPE_STRING @
                    [ACPI_TYPE_INTEGER, ACPI_TYPE_INTEGER, ACPI_TYPE_INTEGER]"
    unfolding t takeWhile_replicate_strings [OF k] ..
  finally have "r6 = replicate n ACPI_TYPE_STRING @
                    [ACPI_TYPE_INTEGER, ACPI_TYPE_INTEGER, ACPI_TYPE_INTEGER]" .
  then have "ts = sensor_schema n"
    unfolding h by (simp add: sensor_schema_def)
  with e(2) show ?thesis by simp
qed

lemma check_types_complete:
  assumes "1 \<le> n" and "n < 256"
  shows "check_types (sensor_schema n) 0 0 = Inr n"
proof -
  have tw: "takeWhile is_string_type (replicate n ACPI_TYPE_STRING @
              [ACPI_TYPE_INTEGER, ACPI_TYPE_INTEGER, ACPI_TYPE_INTEGER]) =
            replicate n ACPI_TYPE_STRING"
    by (induction n) auto
  have dw: "dropWhile is_string_type (replicate n ACPI_TYPE_STRING @
              [ACPI_TYPE_INTEGER, ACPI_TYPE_INTEGER, ACPI_TYPE_INTEGER]) =
            [ACPI_TYPE_INTEGER, ACPI_TYPE_INTEGER, ACPI_TYPE_INTEGER]"
    by (induction n) auto
  show ?thesis
    using assms by (simp add: sensor_schema_def hp_wmi_property_map_def tw dw)
qed

lemma length_sensor_schema: "length (sensor_schema n) = n + 9"
  by (simp add: sensor_schema_def)

lemma check_types_cases: "check_types ts p cnt = Inl EINVAL \<or> (\<exists>n. check_types ts p cnt = Inr n)"
  by (induction ts p cnt rule: check_types.induct) auto

text \<open>
  Claim C1. \<open>check_wobj\<close> succeeds with cnt \<open>n\<close> exactly on the packages of at most
  \<open>HP_WMI_MAX_PROPERTIES\<close> elements whose element types are the schema with \<open>n \<ge> 1\<close>
  possible states, so on such a record it reports exactly the number of possible states.
  Every other object is rejected, always with \<open>-EINVAL\<close>: in particular a record
  whose CurrentState is followed by no string (the lookahead finds nothing) and a record
  with fewer than the three integers after the possible states match no schema and are
  rejected.
\<close>

theorem check_wobj_accepts_iff:
  "(check_wobj wobj = Inr n) =
     (\<exists>elements. wobj = ACPI_Package elements \<and> length elements \<le> HP_WMI_MAX_PROPERTIES \<and>
        1 \<le> n \<and> map acpi_type elements = sensor_schema n) \<and>
   (check_wobj wobj = Inl EINVAL \<or> (\<exists>m. check_wobj wobj = Inr m))"
proof (cases wobj)
  case (ACPI_Package elements)
  show ?thesis
  proof (cases "length elements \<le> 32")
    case False
    then show ?thesis
      using ACPI_Package by (auto simp: check_wobj_def)
  next
    case True
    have eq: "check_wobj wobj = check_types (map acpi_type elements) 0 0"
      using True ACPI_Package by (simp add: check_wobj_def check_wobj_loop_types)
    have "(check_types (map acpi_type elements) 0 0 = Inr n) =
            (1 \<le> n \<and> map acpi_type elements = sensor_schema n)"
    proof
      assume "check_types (map acpi_type elements) 0 0 = Inr n"
      then show "1 \<le> n \<and> map acpi_type elements = sensor_schema n"
        using check_types_sound True by simp
    next
      assume a: "1 \<le> n \<and> map acpi_type elements = sensor_schema n"
      then have "length (sensor_schema n) \<le> 32"
        using True by (metis length_map)
      then have "n < 256" by (simp add: length_sensor_schema)
      with a show "check_types (map acpi_type elements) 0 0 = Inr n"
        by (simp add: check_types_complete)
    qed
    then show ?thesis
      using eq True ACPI_Package check_types_cases [of "map acpi_type elements" 0 0] by auto
  qed
qed (simp_all add: check_wobj_def)

subsection \<open>Scaling\<close>

lemma wrap_long_id: "LONG_MIN \<le> x \<Longrightarrow> x \<le> LONG_MAX \<Longrightarrow> wrap_long x = x"
  unfolding wrap_long_def LONG_MIN_def LONG_MAX_def
  by (rule signed_take_bit_int_eq_self) simp_all

lemma c_div_nonneg: "0 \<le> a \<Longrightarrow> 0 < b \<Longrightarrow> c_div a b = a div b"
  by (cases "a = 0") (simp_all add: c_div_def)

lemma c_div_neg: "a < 0 \<Longrightarrow> 0 < b \<Longrightarrow> c_div a b = - ((- a) div b)"
  by (simp add: c_div_def)

lemma c_div_LONG_MAX_10: "c_div LONG_MAX 10 = 922337203685477580"
  by (simp add: c_div_def LONG_MAX_def)

lemma c_div_LONG_MAX_5: "c_div LONG_MAX 5 = LONG_MAX div 5"
  by (simp add: c_div_def LONG_MAX_def)

lemma DIV_ROUND_CLOSEST_10:
  assumes "0 \<le> v" and "v < 2 ^ 32"
  shows "DIV_ROUND_CLOSEST v 10 = (v + 5) div 10"
proof (cases "v = 0")
  case True
  then show ?thesis
    by (simp add: DIV_ROUND_CLOSEST_def c_div_def wrap_long_id LONG_MIN_def LONG_MAX_def)
next
  case False
  with assms have "0 < v" by simp
  moreover have "wrap_long (v + 5) = v + 5"
    using assms by (intro wrap_long_id) (simp_all add: LONG_MIN_def LONG_MAX_def)
  ultimately show ?thesis
    using assms by (simp add: DIV_ROUND_CLOSEST_def c_div_nonneg c_div_def [of 10 2])
qed

lemma round_step_range:
  assumes "0 \<le> v" and "v < (2::int) ^ 32"
  shows "0 \<le> (v + 5) div 10 \<and> (v + 5) div 10 < 2 ^ 32"
  using assms by simp arith

lemma round_steps_range:
  assumes "0 \<le> v" and "v < (2::int) ^ 32"
  shows "0 \<le> ((\<lambda>v. (v + 5) div 10) ^^ k) v \<and> ((\<lambda>v. (v + 5) div 10) ^^ k) v < 2 ^ 32"
proof (induction k)
  case 0
  show ?case using assms by simp
next
  case (Suc k)
  show ?case
    using round_step_range [of "((\<lambda>v. (v + 5) div 10) ^^ k) v"] Suc by simp
qed

lemma scale_down_eq:
  assumes "0 \<le> v" and "v < 2 ^ 32"
  shows "scale_down v m t =
           (if m < t then (((\<lambda>v. (v + 5) div 10) ^^ nat (t - m)) v, t) else (v, m))"
  using assms
proof (induction v m t rule: scale_down.induct)
  case (1 val modifier target_modifier)
  show ?case
  proof (cases "modifier < target_modifier")
    case False
    then show ?thesis by (subst scale_down.simps) simp
  next
    case True
    have r: "0 \<le> (val + 5) div 10" "(val + 5) div 10 < 2 ^ 32"
      using round_step_range [OF 1(2) 1(3)] by simp_all
    have n: "nat (target_modifier - modifier) = Suc (nat (target_modifier - (modifier + 1)))"
      using True by simp
    have "scale_down val modifier target_modifier =
            scale_down ((val + 5) div 10) (modifier + 1) target_modifier"
      using True by (subst scale_down.simps) (simp add: DIV_ROUND_CLOSEST_10 [OF 1(2) 1(3)])
    also have "\<dots> = (if modifier + 1 < target_modifier
                      then (((\<lambda>v. (v + 5) div 10) ^^ nat (target_modifier - (modifier + 1)))
                              ((val + 5) div 10), target_modifier)
                      else ((val + 5) div 10, modifier + 1))"
      using "1.IH" [OF True] r by (simp add: DIV_ROUND_CLOSEST_10 [OF 1(2) 1(3)])
    also have "\<dots> = (((\<lambda>v. (v + 5) div 10) ^^ nat (target_modifier - modifier)) val,
                       target_modifier)"
    proof (cases "modifier + 1 < target_modifier")
      case True
      then show ?thesis by (simp only: n funpow_Suc_right o_apply if_True)
    next
      case False
      with \<open>modifier < target_modifier\<close> have "target_modifier = modifier + 1" by simp
      then show ?thesis by simp
    qed
    finally show ?thesis using True by simp
  qed
qed

lemma scale_up_eq:
  assumes "0 \<le> v" and "v \<le> LONG_MAX" and "t \<le> m"
  shows "scale_up v m t = min (v * 10 ^ nat (m - t)) LONG_MAX"
  using assms
proof (induction v m t rule: scale_up.induct)
  case (1 val modifier target_modifier)
  show ?case
  proof (cases "modifier > target_modifier")
    case False
    with 1(4) have "modifier = target_modifier" by simp
    then show ?thesis
      using 1(3) by (subst scale_up.simps) simp
  next
    case True
    then have n: "nat (modifier - target_modifier) = Suc (nat (modifier - 1 - target_modifier))"
      by simp
    show ?thesis
    proof (cases "val > c_div LONG_MAX 10")
      case big: True
      then have "922337203685477580 < val"
        by (simp only: c_div_LONG_MAX_10)
      then have "val * 10 > LONG_MAX"
        by (simp add: LONG_MAX_def)
      moreover have "val * 10 \<le> val * 10 * 10 ^ nat (modifier - 1 - target_modifier)"
        using 1(2) by (simp add: mult_le_cancel_left1)
      ultimately have "LONG_MAX < val * 10 ^ nat (modifier - target_modifier)"
        unfolding n by (simp add: mult.assoc)
      then show ?thesis
        using True big by (subst scale_up.simps) simp
    next
      case small: False
      then have "val \<le> 922337203685477580"
        by (simp only: c_div_LONG_MAX_10 not_less)
      then have le: "val * 10 \<le> LONG_MAX"
        by (simp add: LONG_MAX_def)
      have w: "wrap_long (val * 10) = val * 10"
        using le 1(2) by (intro wrap_long_id) (simp_all add: LONG_MIN_def)
      have "scale_up val modifier target_modifier =
              scale_up (val * 10) (modifier - 1) target_modifier"
        using True small by (subst scale_up.simps) (simp add: w)
      also have "\<dots> = min (val * 10 * 10 ^ nat (modifier - 1 - target_modifier)) LONG_MAX"
        using "1.IH" [OF True small] w le 1(2) True by simp
      finally show ?thesis
        unfolding n by (simp add: mult.assoc)
    qed
  qed
qed

lemma decade_scaled_range:
  assumes "0 \<le> r" and "r < 2 ^ 32"
  shows "0 \<le> decade_scaled r m t"
    and "m < t \<Longrightarrow> decade_scaled r m t < 2 ^ 32"
  using assms round_steps_range [OF assms, of "nat (t - m)"]
  by (simp_all add: decade_scaled_def)

lemma scale_loops_eq:
  assumes "0 \<le> r" and "r < 2 ^ 32"
  shows "(case scale_down r m t of (val, modifier) \<Rightarrow> scale_up val modifier t) =
           min (decade_scaled r m t) LONG_MAX"
proof (cases "m < t")
  case True
  let ?d = "((\<lambda>v. (v + 5) div 10) ^^ nat (t - m)) r"
  have d: "0 \<le> ?d" "?d < 2 ^ 32"
    using round_steps_range [OF assms, of "nat (t - m)"] by simp_all
  then have "?d \<le> LONG_MAX" by (simp add: LONG_MAX_def)
  then show ?thesis
    using True d by (simp add: scale_down_eq [OF assms] scale_up_eq decade_scaled_def)
next
  case False
  have "r \<le> LONG_MAX" using assms by (simp add: LONG_MAX_def)
  then show ?thesis
    using False assms by (simp add: scale_down_eq [OF assms] scale_up_eq decade_scaled_def)
qed

lemma decade_shape:
  fixes r m t :: int
  assumes "0 \<le> r" and "r < 2 ^ 32"
  defines "v \<equiv> min (decade_scaled r m t) LONG_MAX"
  shows "0 \<le> v" and "v \<le> LONG_MAX" and "v = LONG_MAX \<or> v < 2 ^ 32 \<or> 10 dvd v"
proof -
  show "0 \<le> v" using decade_scaled_range(1) [OF assms(1,2)] by (simp add: v_def LONG_MAX_def)
  show "v \<le> LONG_MAX" by (simp add: v_def)
  show "v = LONG_MAX \<or> v < 2 ^ 32 \<or> 10 dvd v"
  proof (cases "m < t")
    case True
    then show ?thesis
      using decade_scaled_range(2) [OF assms(1,2)] by (simp add: v_def min_def)
  next
    case False
    show ?thesis
    proof (cases "m = t")
      case True
      then show ?thesis using assms by (simp add: v_def decade_scaled_def min_def)
    next
      case ne: False
      with False have "nat (m - t) = Suc (nat (m - t - 1))" by simp
      then have "10 dvd decade_scaled r m t"
        using False by (simp add: decade_scaled_def)
      then show ?thesis by (auto simp: v_def min_def)
    qed
  qed
qed

lemma kelvin_no_wrap:
  assumes "0 \<le> v" and "v \<le> LONG_MAX"
  shows "milli_kelvin_to_millicelsius v = v - 273150"
  unfolding milli_kelvin_to_millicelsius_def
  using assms by (subst wrap_long_id) (simp_all add: LONG_MIN_def LONG_MAX_def)

lemma fahrenheit_no_wrap:
  assumes "0 \<le> v" and "v \<le> LONG_MAX"
  shows "(let val = wrap_long (v - 32 * MILLI)
          in if val \<le> c_div LONG_MAX 5 then c_div (wrap_long (val * 5)) 9
             else wrap_long (c_div val 9 * 5)) = fahrenheit_split v"
proof -
  define w where "w = v - 32000"
  have w: "- 32000 \<le> w" "w \<le> LONG_MAX - 32000" using assms by (simp_all add: w_def)
  have w1: "wrap_long (v - 32 * MILLI) = w"
    using assms by (simp add: MILLI_def w_def wrap_long_id LONG_MIN_def LONG_MAX_def)
  show ?thesis
  proof (cases "w \<le> LONG_MAX div 5")
    case True
    then have "w * 5 \<le> LONG_MAX" by (simp add: LONG_MAX_def)
    then have "wrap_long (w * 5) = w * 5"
      using w by (intro wrap_long_id) (simp_all add: LONG_MIN_def)
    then show ?thesis
      using True by (simp add: w1 Let_def fahrenheit_split_def c_div_LONG_MAX_5 w_def [symmetric])
  next
    case False
    then have pos: "0 < w" by (simp add: LONG_MAX_def)
    then have q: "c_div w 9 = w div 9" by (simp add: c_div_nonneg)
    have "0 \<le> w div 9 * 5" "w div 9 * 5 \<le> w" using pos by simp_all
    then have "wrap_long (w div 9 * 5) = w div 9 * 5"
      using w by (intro wrap_long_id) (simp_all add: LONG_MIN_def)
    then show ?thesis
      using False by (simp add: w1 Let_def fahrenheit_split_def c_div_LONG_MAX_5 q w_def [symmetric])
  qed
qed

lemma c_div_9_2: "c_div 9 2 = 4"
  by (simp add: c_div_def)

lemma DIV_ROUND_CLOSEST_9:
  assumes "LONG_MIN \<le> x - 4" and "x + 4 \<le> LONG_MAX"
  shows "DIV_ROUND_CLOSEST x 9 = div_round_closest x 9"
proof -
  have "wrap_long (x + 4) = x + 4" "wrap_long (x - 4) = x - 4"
    using assms by (simp_all add: wrap_long_id LONG_MIN_def LONG_MAX_def)
  then show ?thesis
    by (simp add: DIV_ROUND_CLOSEST_def div_round_closest_def c_div_9_2)
qed

lemma fahrenheit_no_wrap_2:
  assumes "0 \<le> v" and "v \<le> LONG_MAX"
    and shape: "v = LONG_MAX \<or> v < 2 ^ 32 \<or> 10 dvd v"
  shows "(let val = wrap_long (v - MILLI * 32)
          in if val \<le> c_div LONG_MAX 5 then DIV_ROUND_CLOSEST (wrap_long (val * 5)) 9
             else wrap_long (DIV_ROUND_CLOSEST val 9 * 5)) = fahrenheit_split_2 v"
proof -
  define w where "w = v - 32000"
  have w: "- 32000 \<le> w" "w \<le> LONG_MAX - 32000" using assms by (simp_all add: w_def)
  have w1: "wrap_long (v - MILLI * 32) = w"
    using assms by (simp add: MILLI_def w_def wrap_long_id LONG_MIN_def LONG_MAX_def)
  show ?thesis
  proof (cases "w \<le> LONG_MAX div 5")
    case True
    then have le: "w \<le> 1844674407370955161" by (simp add: LONG_MAX_def)
    then have "w * 5 \<le> LONG_MAX" by (simp add: LONG_MAX_def)
    then have w5: "wrap_long (w * 5) = w * 5"
      using w by (intro wrap_long_id) (simp_all add: LONG_MIN_def)
    have "w * 5 + 4 \<le> 9223372036854775807"
    proof -
      from shape consider "v = LONG_MAX" | "v < 2 ^ 32" | "10 dvd v" by blast
      then show ?thesis
      proof cases
        case 1
        with le show ?thesis by (simp add: w_def LONG_MAX_def)
      next
        case 2
        then show ?thesis by (simp add: w_def)
      next
        case 3
        then obtain q where q: "v = 10 * q" by (elim dvdE)
        with le have "10 * q \<le> 1844674407370987161" by (simp add: w_def)
        then have "q \<le> 184467440737098716" by linarith
        then show ?thesis by (simp add: w_def q)
      qed
    qed
    then have "DIV_ROUND_CLOSEST (w * 5) 9 = div_round_closest (w * 5) 9"
      using w by (intro DIV_ROUND_CLOSEST_9) (simp_all add: LONG_MIN_def LONG_MAX_def)
    then show ?thesis
      using True
      by (simp add: w1 w5 Let_def fahrenheit_split_2_def c_div_LONG_MAX_5 w_def [symmetric])
  next
    case False
    then have pos: "1844674407370955161 < w" by (simp add: LONG_MAX_def)
    have d: "DIV_ROUND_CLOSEST w 9 = div_round_closest w 9"
      using w pos by (intro DIV_ROUND_CLOSEST_9) (simp_all add: LONG_MIN_def LONG_MAX_def)
    have e: "div_round_closest w 9 = (w + 4) div 9"
      using pos by (simp add: div_round_closest_def c_div_9_2 c_div_nonneg)
    have "0 \<le> (w + 4) div 9 * 5" "(w + 4) div 9 * 5 \<le> w" using pos by simp_all
    then have "wrap_long ((w + 4) div 9 * 5) = (w + 4) div 9 * 5"
      using w by (intro wrap_long_id) (simp_all add: LONG_MIN_def)
    then show ?thesis
      using False
      by (simp add: w1 d e Let_def fahrenheit_split_2_def c_div_LONG_MAX_5 w_def [symmetric])
  qed
qed

lemma reading_range: "0 \<le> uint (x :: u32)" "uint (x :: u32) < 2 ^ 32"
  using uint_lt2p [of x] by simp_all

lemma scale_numeric_sensor_closed:
  "scale_numeric_sensor sensor =
     (if uint (sensor_type sensor) = HP_WMI_TYPE_TEMPERATURE \<and>
         uint (base_units sensor) = HP_WMI_UNITS_DEGREES_F
      then fahrenheit_split (min (decade_value sensor) LONG_MAX)
      else if uint (sensor_type sensor) = HP_WMI_TYPE_TEMPERATURE \<and>
              uint (base_units sensor) = HP_WMI_UNITS_DEGREES_K
      then min (decade_value sensor) LONG_MAX - 273150
      else min (decade_value sensor) LONG_MAX)"
proof -
  let ?r = "uint (current_reading sensor)"
  let ?m = "sint (unit_modifier sensor)"
  let ?t = "target_modifier_of sensor"
  let ?v = "min (decade_scaled ?r ?m ?t) LONG_MAX"
  note s = decade_shape [OF reading_range, of "current_reading sensor" ?m ?t]
  have loops: "(case scale_down ?r ?m ?t of (val, modifier) \<Rightarrow> scale_up val modifier ?t) = ?v"
    by (rule scale_loops_eq [OF reading_range])
  have "scale_numeric_sensor sensor =
          (if uint (sensor_type sensor) = HP_WMI_TYPE_TEMPERATURE then
             if uint (base_units sensor) = HP_WMI_UNITS_DEGREES_F then
               (let val = wrap_long (?v - 32 * MILLI)
                in if val \<le> c_div LONG_MAX 5 then c_div (wrap_long (val * 5)) 9
                   else wrap_long (c_div val 9 * 5))
             else if uint (base_units sensor) = HP_WMI_UNITS_DEGREES_K
             then milli_kelvin_to_millicelsius ?v
             else ?v
           else ?v)"
  proof -
    obtain a b where ab: "scale_down ?r ?m ?t = (a, b)"
      by (cases "scale_down ?r ?m ?t")
    with loops have up: "scale_up a b ?t = ?v" by simp
    show ?thesis
      unfolding scale_numeric_sensor_def
      by (simp only: Let_def ab [unfolded target_modifier_of_def] case_prod_conv
            up [unfolded target_modifier_of_def] target_modifier_of_def)
  qed
  then show ?thesis
    by (simp add: fahrenheit_no_wrap [OF s(1,2)] kelvin_no_wrap [OF s(1,2)] decade_value_def)
qed

lemma scale_numeric_sensor_2_closed:
  "scale_numeric_sensor_2 sensor =
     (if uint (sensor_type sensor) = HP_WMI_TYPE_TEMPERATURE \<and>
         uint (base_units sensor) = HP_WMI_UNITS_DEGREES_F
      then fahrenheit_split_2 (min (decade_value sensor) LONG_MAX)
      else if uint (sensor_type sensor) = HP_WMI_TYPE_TEMPERATURE \<and>
              uint (base_units sensor) = HP_WMI_UNITS_DEGREES_K
      then min (decade_value sensor) LONG_MAX - 273150
      else min (decade_value sensor) LONG_MAX)"
proof -
  let ?r = "uint (current_reading sensor)"
  let ?m = "sint (unit_modifier sensor)"
  let ?t = "target_modifier_of sensor"
  let ?v = "min (decade_scaled ?r ?m ?t) LONG_MAX"
  note s = decade_shape [OF reading_range, of "current_reading sensor" ?m ?t]
  have loops: "(case scale_down ?r ?m ?t of (val, modifier) \<Rightarrow> scale_up val modifier ?t) = ?v"
    by (rule scale_loops_eq [OF reading_range])
  have "scale_numeric_sensor_2 sensor =
          (if uint (sensor_type sensor) = HP_WMI_TYPE_TEMPERATURE then
             if uint (base_units sensor) = HP_WMI_UNITS_DEGREES_F then
               (let val = wrap_long (?v - MILLI * 32)
                in if val \<le> c_div LONG_MAX 5 then DIV_ROUND_CLOSEST (wrap_long (val * 5)) 9
                   else wrap_long (DIV_ROUND_CLOSEST val 9 * 5))
             else if uint (base_units sensor) = HP_WMI_UNITS_DEGREES_K
             then milli_kelvin_to_millicelsius ?v
             else ?v
           else ?v)"
  proof -
    obtain a b where ab: "scale_down ?r ?m ?t = (a, b)"
      by (cases "scale_down ?r ?m ?t")
    with loops have up: "scale_up a b ?t = ?v" by simp
    show ?thesis
      unfolding scale_numeric_sensor_2_def
      by (simp only: Let_def ab [unfolded target_modifier_of_def] case_prod_conv
            up [unfolded target_modifier_of_def] target_modifier_of_def)
  qed
  then show ?thesis
    by (simp add: fahrenheit_no_wrap_2 [OF s] kelvin_no_wrap [OF s(1,2)] decade_value_def)
qed

subsection \<open>Decoding\<close>

lemma check_wobj_schema:
  assumes "check_wobj (ACPI_Package elements) = Inr n"
  shows "length elements \<le> 32 \<and> 1 \<le> n \<and> map acpi_type elements = sensor_schema n"
proof -
  have len: "length elements \<le> 32"
    using assms by (auto simp: check_wobj_def split: if_splits)
  then have "check_types (map acpi_type elements) 0 0 = Inr n"
    using assms by (simp add: check_wobj_def check_wobj_loop_types)
  with len show ?thesis
    using check_types_sound [of "map acpi_type elements" n] by simp
qed

lemma schema_string_element:
  assumes "map acpi_type elements = sensor_schema n" and "i < length elements"
    and "sensor_schema n ! i = ACPI_TYPE_STRING"
  shows "\<exists>s. elements ! i = ACPI_String s"
proof -
  have "acpi_type (elements ! i) = ACPI_TYPE_STRING"
    using assms by (metis nth_map)
  then show ?thesis by (cases "elements ! i") simp_all
qed

lemma populate_loop_name:
  assumes "extract elements e ACPI_TYPE_STRING v s = Inr (v', s')"
  shows "populate_loop extract elements 0 e c v s ns =
           populate_loop extract elements 1 (e + 1) c v' s' (ns\<lparr>name := Some s'\<rparr>)"
  by (subst populate_loop.simps) (simp add: hp_wmi_property_map_def assms)

lemma populate_loop_description:
  assumes "extract elements e ACPI_TYPE_STRING v s = Inr (v', s')"
  shows "populate_loop extract elements 1 e c v s ns =
           populate_loop extract elements 2 (e + 1) c v' s' (ns\<lparr>description := Some s'\<rparr>)"
  by (subst populate_loop.simps) (simp add: hp_wmi_property_map_def assms numeral_2_eq_2)

lemma populate_loop_sensor_type_reject:
  assumes "extract elements e ACPI_TYPE_INTEGER v s = Inr (v', s')"
    and "uint v' > HP_WMI_TYPE_AIR_FLOW"
  shows "populate_loop extract elements 2 e c v s ns = Inl EINVAL"
  by (subst populate_loop.simps) (simp add: hp_wmi_property_map_def assms)

text \<open>
  Claim C10. When a record passes \<open>check_wobj\<close> and the value of its SensorType
  element, truncated to the \<^verbatim>\<open>u32\<close> variable of the decoder, is greater than the Air
  Flow code 12, the decoder of either copy returns \<open>-EINVAL\<close>: no sensor record is
  produced although the shape of the record is valid.
\<close>

theorem populate_rejects_sensor_type:
  assumes ok: "check_wobj (ACPI_Package elements) = Inr n"
    and st: "elements ! HP_WMI_PROPERTY_SENSOR_TYPE = ACPI_Integer v"
    and big: "uint (ucast v :: u32) > HP_WMI_TYPE_AIR_FLOW"
  shows "populate_numeric_sensor_from_wobj sensor (ACPI_Package elements) = Inl EINVAL \<and>
         populate_numeric_sensor_from_wobj_2 sensor (ACPI_Package elements) = Inl EINVAL"
proof -
  from check_wobj_schema [OF ok] have sch: "map acpi_type elements = sensor_schema n" by simp
  then have "length elements = n + 9"
    by (metis length_map length_sensor_schema)
  then have len: "0 < length elements" "1 < length elements" "2 < length elements" by simp_all
  obtain s0 where s0: "elements ! 0 = ACPI_String s0"
    using schema_string_element [OF sch len(1)] by (auto simp: sensor_schema_def)
  obtain s1 where s1: "elements ! 1 = ACPI_String s1"
    using schema_string_element [OF sch len(2)] by (auto simp: sensor_schema_def)
  have a: "populate_loop extract_inline elements 0 0 n 0 [] ns = Inl EINVAL" for ns
  proof -
    have e0: "extract_inline elements 0 ACPI_TYPE_STRING 0 [] =
                Inr (0, hp_wmi_strdup s0 (length s0))"
      using len s0 by (simp add: extract_inline_def string_pointer_def)
    have e1: "extract_inline elements (0 + 1) ACPI_TYPE_STRING 0 (hp_wmi_strdup s0 (length s0)) =
                Inr (0, hp_wmi_strdup s1 (length s1))"
      using len s1 by (simp add: extract_inline_def string_pointer_def)
    have e2: "extract_inline elements (0 + 1 + 1) ACPI_TYPE_INTEGER 0
                (hp_wmi_strdup s1 (length s1)) = Inr (ucast v, hp_wmi_strdup s1 (length s1))"
      using len st by (simp add: extract_inline_def integer_value_def numeral_2_eq_2)
    show ?thesis
      by (simp only: populate_loop_name [of extract_inline, OF e0]
            populate_loop_description [of extract_inline, OF e1]
            populate_loop_sensor_type_reject [of extract_inline, OF e2 big])
  qed
  have b: "populate_loop extract_acpi_value elements 0 0 n 0 [] ns = Inl EINVAL" for ns
  proof -
    have e0: "extract_acpi_value elements 0 ACPI_TYPE_STRING 0 [] =
                Inr (0, hp_wmi_strdup_2 (strim s0))"
      using len s0 by (simp add: extract_acpi_value_def string_pointer_def)
    have e1: "extract_acpi_value elements (0 + 1) ACPI_TYPE_STRING 0 (hp_wmi_strdup_2 (strim s0)) =
                Inr (0, hp_wmi_strdup_2 (strim s1))"
      using len s1 by (simp add: extract_acpi_value_def string_pointer_def)
    have e2: "extract_acpi_value elements (0 + 1 + 1) ACPI_TYPE_INTEGER 0
                (hp_wmi_strdup_2 (strim s1)) = Inr (ucast v, hp_wmi_strdup_2 (strim s1))"
      using len st by (simp add: extract_acpi_value_def integer_value_def numeral_2_eq_2)
    show ?thesis
      by (simp only: populate_loop_name [of extract_acpi_value, OF e0]
            populate_loop_description [of extract_acpi_value, OF e1]
            populate_loop_sensor_type_reject [of extract_acpi_value, OF e2 big])
  qed
  show ?thesis
    by (simp add: populate_numeric_sensor_from_wobj_def populate_numeric_sensor_from_wobj_2_def
        ok a b)
qed

theorem populate_rejects_sensor_type_witness:
  "check_wobj (sensor_package ''X'' 13 2 2 0 1) = Inr 2 \<and>
   populate_numeric_sensor_from_wobj zero_sensor (sensor_package ''X'' 13 2 2 0 1) = Inl EINVAL \<and>
   populate_numeric_sensor_from_wobj_2 zero_sensor (sensor_package ''X'' 13 2 2 0 1) = Inl EINVAL"
proof -
  have ok: "check_wobj (ACPI_Package [ACPI_String ''X'', ACPI_String ''description'',
              ACPI_Integer 13, ACPI_String '''', ACPI_Integer 2, ACPI_String ''Normal'',
              ACPI_String ''Normal'', ACPI_String ''Caution'',
              ACPI_Integer 2, ACPI_Integer 0, ACPI_Integer 1]) = Inr 2"
    by code_simp
  show ?thesis
    unfolding sensor_package_def
    using ok populate_rejects_sensor_type [OF ok, of 13 zero_sensor]
    by (simp add: HP_WMI_TYPE_AIR_FLOW_def)
qed

subsection \<open>Scaling: the claims\<close>

lemma nine_ones: "9 * (((10::int) ^ d - 1) div 9) = 10 ^ d - 1"
proof -
  have "(9::int) dvd 10 ^ d - 1"
  proof (induction d)
    case 0
    show ?case by simp
  next
    case (Suc d)
    have "(10::int) ^ Suc d - 1 = 10 * (10 ^ d - 1) + 9" by simp
    then show ?case using Suc by (simp only: dvd_add dvd_mult dvd_refl)
  qed
  then show ?thesis by simp
qed

lemma fives_Suc:
  "5 * (((10::int) ^ Suc d - 1) div 9) = 5 * ((10 ^ d - 1) div 9) + 5 * 10 ^ d"
  using nine_ones [of d] nine_ones [of "Suc d"] by simp

lemma round_steps_closed:
  "((\<lambda>v::int. (v + 5) div 10) ^^ d) r = (r + 5 * ((10 ^ d - 1) div 9)) div 10 ^ d"
proof (induction d)
  case 0
  show ?case by simp
next
  case (Suc d)
  let ?c = "5 * (((10::int) ^ d - 1) div 9)"
  have "((\<lambda>v::int. (v + 5) div 10) ^^ Suc d) r = ((r + ?c) div 10 ^ d + 5) div 10"
    by (simp add: Suc)
  also have "(r + ?c) div 10 ^ d + 5 = (r + ?c + 5 * 10 ^ d) div 10 ^ d"
    by simp
  also have "(r + ?c + 5 * 10 ^ d) div 10 ^ d div 10 = (r + ?c + 5 * 10 ^ d) div (10 ^ d * 10)"
    by (simp add: zdiv_zmult2_eq)
  also have "\<dots> = (r + 5 * ((10 ^ Suc d - 1) div 9)) div 10 ^ Suc d"
    using fives_Suc [of d] by (simp add: ac_simps)
  finally show ?case .
qed

lemma decade_scaled_rounded: "decade_scaled r m t = decade_rounded r m t"
  by (simp add: decade_scaled_def decade_rounded_def round_steps_closed)

lemma decade_value_rounded: "decade_value sensor = rounded_value sensor"
  by (simp add: decade_value_def rounded_value_def decade_scaled_rounded)

lemma rounded_near:
  fixes r :: int
  assumes "m < t"
  shows "round_nearest r (10 ^ nat (t - m)) \<le> decade_rounded r m t"
    and "decade_rounded r m t \<le> round_nearest r (10 ^ nat (t - m)) + 1"
proof -
  from assms obtain d where d: "nat (t - m) = Suc d"
    by (cases "nat (t - m)") simp_all
  define X :: int where "X = 10 ^ d"
  define c :: int where "c = 5 * ((10 ^ Suc d - 1) div 9)"
  have X: "1 \<le> X" by (simp add: X_def)
  have D: "(10::int) ^ Suc d = 10 * X" by (simp add: X_def)
  have "9 * c = 5 * (10 ^ Suc d - 1)"
    using nine_ones [of "Suc d"] by (simp add: c_def)
  then have c9: "9 * c = 50 * X - 5" by (simp add: X_def)
  have lo: "r + 5 * X \<le> r + c" and hi: "r + c \<le> r + 5 * X + 10 * X"
    using c9 X by simp_all
  have near: "round_nearest r (10 * X) = (r + 5 * X) div (10 * X)"
  proof -
    have "2 * r + 10 * X = 2 * (r + 5 * X)" by simp
    then have "round_nearest r (10 * X) = (2 * (r + 5 * X)) div (2 * (10 * X))"
      by (simp only: round_nearest_def)
    also have "\<dots> = (r + 5 * X) div (10 * X)"
      by (rule div_mult_mult1) simp
    finally show ?thesis .
  qed
  have pos: "0 < 10 * X" using X by simp
  have r: "decade_rounded r m t = (r + c) div (10 * X)"
    using assms by (simp add: decade_rounded_def d c_def X_def)
  have "(r + 5 * X) div (10 * X) \<le> (r + c) div (10 * X)"
    using lo pos by (rule zdiv_mono1)
  then show "round_nearest r (10 ^ nat (t - m)) \<le> decade_rounded r m t"
    by (simp only: d D near r)
  have "(r + c) div (10 * X) \<le> (r + 5 * X + 10 * X) div (10 * X)"
    using hi pos by (rule zdiv_mono1)
  also have "\<dots> = (r + 5 * X) div (10 * X) + 1"
    using pos by (intro div_add_self2) simp
  finally show "decade_rounded r m t \<le> round_nearest r (10 ^ nat (t - m)) + 1"
    by (simp only: d D near r)
qed

lemma round_nearest_one: "round_nearest p 1 = p"
  by (simp add: round_nearest_def)

lemma scale_exact_plain:
  assumes "\<not> (uint (sensor_type sensor) = HP_WMI_TYPE_TEMPERATURE \<and>
              uint (base_units sensor) = HP_WMI_UNITS_DEGREES_F)"
    and "\<not> (uint (sensor_type sensor) = HP_WMI_TYPE_TEMPERATURE \<and>
             uint (base_units sensor) = HP_WMI_UNITS_DEGREES_K)"
  shows "target_modifier_of sensor \<le> sint (unit_modifier sensor) \<Longrightarrow>
           scale_exact sensor = rounded_value sensor"
    and "sint (unit_modifier sensor) < target_modifier_of sensor \<Longrightarrow>
           scale_exact sensor =
             round_nearest (uint (current_reading sensor))
               (10 ^ nat (target_modifier_of sensor - sint (unit_modifier sensor)))"
  using assms
  by (auto simp add: scale_exact_def Let_def rounded_value_def decade_rounded_def
      round_nearest_one)

lemma rounded_value_small:
  assumes "sint (unit_modifier sensor) < target_modifier_of sensor"
  shows "min (rounded_value sensor) LONG_MAX = rounded_value sensor"
proof -
  have "decade_value sensor < 2 ^ 32"
    unfolding decade_value_def
    using assms by (rule decade_scaled_range(2) [OF reading_range])
  then show ?thesis
    by (simp add: decade_value_rounded LONG_MAX_def)
qed

text \<open>
  Claim C2, as amended. For every 32-bit reading and modifier the computation of
  \<open>scale_numeric_sensor\<close> on wrapping 64-bit integers equals a computation on unbounded
  integers, so no operation wraps, and the function is total. The decade scaling gives
  \<open>rounded_value\<close>, or \<^verbatim>\<open>LONG_MAX\<close> when that is larger, and the temperature conversion is
  applied afterwards, also to a saturated value: for Fahrenheit the split computation of
  the copy, for Kelvin the subtraction of 273150. For a sensor that is neither: when the
  modifier is at or above the target, the result is the exact scaled value, or
  \<^verbatim>\<open>LONG_MAX\<close> when that is larger; when the modifier is below the target, the result is
  the exact quotient rounded digit by digit, which is the correctly rounded quotient or
  one more than it.
\<close>

theorem scale_numeric_sensor_saturates:
  fixes sensor :: hp_wmi_numeric_sensor
  defines "v \<equiv> min (rounded_value sensor) LONG_MAX"
      and "fahrenheit \<equiv> uint (sensor_type sensor) = HP_WMI_TYPE_TEMPERATURE \<and>
                         uint (base_units sensor) = HP_WMI_UNITS_DEGREES_F"
      and "kelvin \<equiv> uint (sensor_type sensor) = HP_WMI_TYPE_TEMPERATURE \<and>
                     uint (base_units sensor) = HP_WMI_UNITS_DEGREES_K"
      and "below \<equiv> sint (unit_modifier sensor) < target_modifier_of sensor"
  shows "scale_numeric_sensor sensor =
           (if fahrenheit then fahrenheit_split v else if kelvin then v - 273150 else v) \<and>
         scale_numeric_sensor_2 sensor =
           (if fahrenheit then fahrenheit_split_2 v else if kelvin then v - 273150 else v) \<and>
         (\<not> fahrenheit \<and> \<not> kelvin \<and> \<not> below \<longrightarrow>
            scale_numeric_sensor sensor = min (scale_exact sensor) LONG_MAX \<and>
            scale_numeric_sensor_2 sensor = min (scale_exact sensor) LONG_MAX) \<and>
         (\<not> fahrenheit \<and> \<not> kelvin \<and> below \<longrightarrow>
            scale_numeric_sensor_2 sensor = scale_numeric_sensor sensor \<and>
            scale_exact sensor \<le> scale_numeric_sensor sensor \<and>
            scale_numeric_sensor sensor \<le> scale_exact sensor + 1)"
proof -
  have 1: "scale_numeric_sensor sensor =
             (if fahrenheit then fahrenheit_split v else if kelvin then v - 273150 else v)"
    unfolding v_def fahrenheit_def kelvin_def decade_value_rounded [symmetric]
    by (rule scale_numeric_sensor_closed)
  have 2: "scale_numeric_sensor_2 sensor =
             (if fahrenheit then fahrenheit_split_2 v else if kelvin then v - 273150 else v)"
    unfolding v_def fahrenheit_def kelvin_def decade_value_rounded [symmetric]
    by (rule scale_numeric_sensor_2_closed)
  have 3: "scale_numeric_sensor sensor = min (scale_exact sensor) LONG_MAX \<and>
           scale_numeric_sensor_2 sensor = min (scale_exact sensor) LONG_MAX"
    if a: "\<not> fahrenheit \<and> \<not> kelvin \<and> \<not> below"
  proof -
    from a have "scale_exact sensor = rounded_value sensor"
      unfolding fahrenheit_def kelvin_def below_def
      by (intro scale_exact_plain(1)) simp_all
    then show ?thesis using 1 2 a by (simp add: v_def)
  qed
  have 4: "scale_numeric_sensor_2 sensor = scale_numeric_sensor sensor \<and>
           scale_exact sensor \<le> scale_numeric_sensor sensor \<and>
           scale_numeric_sensor sensor \<le> scale_exact sensor + 1"
    if a: "\<not> fahrenheit \<and> \<not> kelvin \<and> below"
  proof -
    from a have b: "sint (unit_modifier sensor) < target_modifier_of sensor"
      by (simp add: below_def)
    from a have e: "scale_exact sensor =
        round_nearest (uint (current_reading sensor))
          (10 ^ nat (target_modifier_of sensor - sint (unit_modifier sensor)))"
      unfolding fahrenheit_def kelvin_def below_def
      by (intro scale_exact_plain(2)) simp_all
    have r: "scale_numeric_sensor sensor = rounded_value sensor"
      "scale_numeric_sensor_2 sensor = rounded_value sensor"
      using 1 2 a by (simp_all add: v_def rounded_value_small [OF b])
    show ?thesis
      using rounded_near [OF b, of "uint (current_reading sensor)"]
      by (simp add: r e rounded_value_def)
  qed
  from 1 2 3 4 show ?thesis by blast
qed

lemma example_scaling:
  "rounded_value (sensor_with 3 5 (- 3) 3300) = 3300"
  "scale_exact (sensor_with 3 5 (- 3) 3300) = 3300"
  "min (rounded_value (sensor_with 3 5 100 1)) LONG_MAX = LONG_MAX"
  "min (scale_exact (sensor_with 3 5 100 1)) LONG_MAX = LONG_MAX"
  "rounded_value (sensor_with 3 5 (- 5) 3349) = 34"
  "scale_exact (sensor_with 3 5 (- 5) 3349) = 33"
  "rounded_value (sensor_with 3 5 (- 4) 3305) = 331"
  "scale_exact (sensor_with 3 5 (- 4) 3305) = 331"
  "rounded_value (sensor_with 3 5 (- 5) 45) = 1"
  "scale_exact (sensor_with 3 5 (- 5) 45) = 0"
  by (simp_all add: rounded_value_def decade_rounded_def scale_exact_def round_nearest_def
      target_modifier_of_def sensor_with_def Let_def hp_wmi_type_defs hp_wmi_units_defs
      LONG_MAX_def)

theorem scale_numeric_sensor_saturates_witness:
  "scale_numeric_sensor (sensor_with 3 5 (- 3) 3300) = 3300 \<and>
   scale_numeric_sensor_2 (sensor_with 3 5 (- 3) 3300) = 3300 \<and>
   scale_exact (sensor_with 3 5 (- 3) 3300) = 3300 \<and>
   scale_numeric_sensor (sensor_with 3 5 100 1) = LONG_MAX \<and>
   scale_numeric_sensor_2 (sensor_with 3 5 100 1) = LONG_MAX \<and>
   scale_numeric_sensor (sensor_with 3 5 (- 5) 3349) = 34 \<and>
   scale_numeric_sensor_2 (sensor_with 3 5 (- 5) 3349) = 34 \<and>
   scale_exact (sensor_with 3 5 (- 5) 3349) = 33 \<and>
   scale_numeric_sensor (sensor_with 3 5 (- 4) 3305) = 331 \<and>
   scale_numeric_sensor_2 (sensor_with 3 5 (- 4) 3305) = 331 \<and>
   scale_exact (sensor_with 3 5 (- 4) 3305) = 331"
proof -
  have k: "uint (sensor_type (sensor_with 3 5 m r)) \<noteq> HP_WMI_TYPE_TEMPERATURE"
    "target_modifier_of (sensor_with 3 5 m r) = - 3"
    "sint (unit_modifier (sensor_with 3 5 m r)) = sint m" for m r
    by (simp_all add: sensor_with_def target_modifier_of_def hp_wmi_type_defs)
  show ?thesis
    using scale_numeric_sensor_saturates [of "sensor_with 3 5 (- 3) 3300"]
      scale_numeric_sensor_saturates [of "sensor_with 3 5 100 1"]
      scale_numeric_sensor_saturates [of "sensor_with 3 5 (- 5) 3349"]
      scale_numeric_sensor_saturates [of "sensor_with 3 5 (- 4) 3305"]
    by (simp add: k example_scaling) (simp add: LONG_MAX_def)
qed

text \<open>
  The claim as stated fails in two ways, in both copies. A Kelvin temperature sensor
  with reading 1 and modifier 100 saturates in the decade scaling and is converted
  afterwards: the result \<open>LONG_MAX - 273150\<close> is neither the exact value nor
  \<^verbatim>\<open>LONG_MAX\<close>. A voltage sensor with reading 45 and modifier \<open>-5\<close> stands for 0.45 mV,
  which is 0 to the nearest millivolt and 0 truncated; rounding digit by digit gives 5
  and then 1.
\<close>

theorem scale_numeric_sensor_counterexample:
  "scale_numeric_sensor (sensor_with 2 4 100 1) = LONG_MAX - 273150 \<and>
   scale_numeric_sensor_2 (sensor_with 2 4 100 1) = LONG_MAX - 273150 \<and>
   scale_exact (sensor_with 2 4 100 1) = 10 ^ 103 - 273150 \<and>
   scale_numeric_sensor (sensor_with 3 5 (- 5) 45) = 1 \<and>
   scale_numeric_sensor_2 (sensor_with 3 5 (- 5) 45) = 1 \<and>
   scale_exact (sensor_with 3 5 (- 5) 45) = 0 \<and>
   uint (45 :: u32) div 10 ^ 2 = 0"
proof -
  have d: "decade_value (sensor_with 2 4 100 1) = 10 ^ 103"
    by (simp add: decade_value_def decade_scaled_def target_modifier_of_def sensor_with_def
        HP_WMI_TYPE_AIR_FLOW_def)
  have big: "LONG_MAX < (10 :: int) ^ 103" by (simp add: LONG_MAX_def)
  then have m: "min (decade_value (sensor_with 2 4 100 1)) LONG_MAX = LONG_MAX"
    using d by simp
  have k: "uint (sensor_type (sensor_with 2 4 100 1)) = HP_WMI_TYPE_TEMPERATURE"
    "uint (base_units (sensor_with 2 4 100 1)) = HP_WMI_UNITS_DEGREES_K"
    "uint (base_units (sensor_with 2 4 100 1)) \<noteq> HP_WMI_UNITS_DEGREES_F"
    by (simp_all add: sensor_with_def hp_wmi_type_defs hp_wmi_units_defs)
  have 1: "scale_numeric_sensor (sensor_with 2 4 100 1) = LONG_MAX - 273150"
    by (simp add: scale_numeric_sensor_closed k m hp_wmi_units_defs)
  have 2: "scale_numeric_sensor_2 (sensor_with 2 4 100 1) = LONG_MAX - 273150"
    by (simp add: scale_numeric_sensor_2_closed k m hp_wmi_units_defs)
  have e: "scale_exact (sensor_with 2 4 100 1) = 10 ^ 103 - 273150"
    by (simp add: scale_exact_def round_nearest_def target_modifier_of_def sensor_with_def
        Let_def hp_wmi_type_defs hp_wmi_units_defs)
  have v: "uint (sensor_type (sensor_with 3 5 (- 5) 45)) \<noteq> HP_WMI_TYPE_TEMPERATURE"
    by (simp add: sensor_with_def hp_wmi_type_defs)
  have 3: "scale_numeric_sensor (sensor_with 3 5 (- 5) 45) = 1"
    by (simp add: scale_numeric_sensor_closed v decade_value_rounded example_scaling
        LONG_MAX_def)
  have 4: "scale_numeric_sensor_2 (sensor_with 3 5 (- 5) 45) = 1"
    by (simp add: scale_numeric_sensor_2_closed v decade_value_rounded example_scaling
        LONG_MAX_def)
  show ?thesis
    using 1 2 e 3 4 by (simp add: example_scaling)
qed

text \<open>
  Claim C5. For a Fahrenheit temperature the second copy subtracts 32000 and rounds
  \<open>5/9\<close> of the value to the nearest integer; the first copy divides with C's
  truncating division instead. At a reading of 32001 with modifier \<open>-3\<close>, that is 1
  milli-degree above freezing and \<open>5/9\<close> of a milli-degree Celsius, the first copy
  returns 0 where rounding to nearest gives 1, as the second copy does. Both copies
  return 0 at the reading 32000.
\<close>

theorem scale_numeric_sensor_fahrenheit_truncates:
  "scale_numeric_sensor (sensor_with 2 3 (- 3) 32001) = 0 \<and>
   scale_numeric_sensor_2 (sensor_with 2 3 (- 3) 32001) = 1 \<and>
   div_round_closest ((32001 - 32000) * 5) 9 = 1 \<and>
   scale_exact (sensor_with 2 3 (- 3) 32001) = 1 \<and>
   scale_numeric_sensor (sensor_with 2 3 (- 3) 32000) = 0 \<and>
   scale_numeric_sensor_2 (sensor_with 2 3 (- 3) 32000) = 0"
proof -
  have k: "uint (sensor_type (sensor_with 2 3 (- 3) r)) = HP_WMI_TYPE_TEMPERATURE"
    "uint (base_units (sensor_with 2 3 (- 3) r)) = HP_WMI_UNITS_DEGREES_F" for r
    by (simp_all add: sensor_with_def hp_wmi_type_defs hp_wmi_units_defs)
  have d: "decade_value (sensor_with 2 3 (- 3) r) = uint r" for r
    by (simp add: decade_value_def decade_scaled_def target_modifier_of_def sensor_with_def
        HP_WMI_TYPE_AIR_FLOW_def)
  have e: "scale_exact (sensor_with 2 3 (- 3) 32001) = 1"
    by (simp add: scale_exact_def round_nearest_def target_modifier_of_def sensor_with_def
        Let_def hp_wmi_type_defs hp_wmi_units_defs)
  show ?thesis
    by (simp add: scale_numeric_sensor_closed scale_numeric_sensor_2_closed e k d
        fahrenheit_split_def fahrenheit_split_2_def div_round_closest_def c_div_def LONG_MAX_def)
qed

subsection \<open>The update pass and the freshness cache\<close>

lemma update_numeric_sensor_fixed:
  assumes "update_numeric_sensor_from_wobj sensor wobj = Inr sensor'"
  shows "fixed_fields sensor' = fixed_fields sensor"
  using assms
  by (auto simp: update_numeric_sensor_from_wobj_def fixed_fields_def Let_def
      split: acpi_object.splits sum.splits option.splits)

lemma update_numeric_sensor_2_fixed:
  assumes "update_numeric_sensor_from_wobj_2 sensor wobj = Inr sensor'"
  shows "fixed_fields sensor' = fixed_fields sensor"
  using assms
  by (auto simp: update_numeric_sensor_from_wobj_2_def fixed_fields_def Let_def
      split: acpi_object.splits sum.splits option.splits)

lemma sensor_schema_nth:
  "sensor_schema n ! 4 = ACPI_TYPE_INTEGER"
  "sensor_schema n ! 5 = ACPI_TYPE_STRING"
  "sensor_schema n ! (n + 7) = ACPI_TYPE_INTEGER"
  "sensor_schema n ! (n + 8) = ACPI_TYPE_INTEGER"
proof -
  have a: "sensor_schema n = ([ACPI_TYPE_STRING, ACPI_TYPE_STRING, ACPI_TYPE_INTEGER,
             ACPI_TYPE_STRING, ACPI_TYPE_INTEGER, ACPI_TYPE_STRING] @
             replicate n ACPI_TYPE_STRING) @
             [ACPI_TYPE_INTEGER, ACPI_TYPE_INTEGER, ACPI_TYPE_INTEGER]"
    by (simp add: sensor_schema_def)
  show "sensor_schema n ! 4 = ACPI_TYPE_INTEGER" "sensor_schema n ! 5 = ACPI_TYPE_STRING"
    by (simp_all add: sensor_schema_def)
  have l: "length ([ACPI_TYPE_STRING, ACPI_TYPE_STRING, ACPI_TYPE_INTEGER,
             ACPI_TYPE_STRING, ACPI_TYPE_INTEGER, ACPI_TYPE_STRING] @
             replicate n ACPI_TYPE_STRING) = n + 6" by simp
  show "sensor_schema n ! (n + 7) = ACPI_TYPE_INTEGER"
    unfolding a by (subst nth_append) (simp only: l, simp)
  show "sensor_schema n ! (n + 8) = ACPI_TYPE_INTEGER"
    unfolding a by (subst nth_append) (simp only: l, simp)
qed

lemma schema_integer_element:
  assumes "map acpi_type elements = sensor_schema n" and "i < length elements"
    and "sensor_schema n ! i = ACPI_TYPE_INTEGER"
  shows "\<exists>v. elements ! i = ACPI_Integer v"
proof -
  have "acpi_type (elements ! i) = ACPI_TYPE_INTEGER"
    using assms by (metis nth_map)
  then show ?thesis by (cases "elements ! i") simp_all
qed

lemma update_reads_defined:
  assumes ok: "check_wobj wobj = Inr (unat (possible_states_count sensor))"
  shows "\<exists>elements status string modifier reading.
           wobj = ACPI_Package elements \<and>
           integer_value elements 4 = Inr status \<and>
           string_pointer elements 5 = Inr string \<and>
           integer_value elements (8 + unat (possible_states_count sensor - 1)) = Inr modifier \<and>
           integer_value elements (9 + unat (possible_states_count sensor - 1)) = Inr reading"
proof -
  let ?n = "unat (possible_states_count sensor)"
  from ok obtain elements where w: "wobj = ACPI_Package elements"
    by (cases wobj) (simp_all add: check_wobj_def)
  from check_wobj_schema [OF ok [unfolded w]]
  have n: "1 \<le> ?n" and sch: "map acpi_type elements = sensor_schema ?n" by simp_all
  have len: "length elements = ?n + 9"
    using sch by (metis length_map length_sensor_schema)
  from n have "possible_states_count sensor \<noteq> 0" by (auto simp: unat_eq_0)
  then have off: "unat (possible_states_count sensor - 1) = ?n - 1"
    by (rule unat_minus_one)
  have i8: "8 + (?n - 1) = ?n + 7" and i9: "9 + (?n - 1) = ?n + 8" using n by simp_all
  obtain status where e4: "elements ! 4 = ACPI_Integer status"
    using schema_integer_element [OF sch _ sensor_schema_nth(1)] len by auto
  obtain string where e5: "elements ! 5 = ACPI_String string"
    using schema_string_element [OF sch _ sensor_schema_nth(2)] len by auto
  obtain modifier where e8: "elements ! (?n + 7) = ACPI_Integer modifier"
    using schema_integer_element [OF sch _ sensor_schema_nth(3)] len by auto
  obtain reading where e9: "elements ! (?n + 8) = ACPI_Integer reading"
    using schema_integer_element [OF sch _ sensor_schema_nth(4)] len by auto
  have "integer_value elements 4 = Inr status"
    using len e4 by (simp add: integer_value_def)
  moreover have "string_pointer elements 5 = Inr string"
    using len e5 by (simp add: string_pointer_def)
  moreover have "integer_value elements (?n + 7) = Inr modifier"
    using len e8 by (simp add: integer_value_def)
  then have "integer_value elements (8 + unat (possible_states_count sensor - 1)) = Inr modifier"
    by (simp only: off i8)
  moreover have "integer_value elements (?n + 8) = Inr reading"
    using len e9 by (simp add: integer_value_def)
  then have "integer_value elements (9 + unat (possible_states_count sensor - 1)) = Inr reading"
    by (simp only: off i9)
  ultimately show ?thesis
    using w by blast
qed

text \<open>
  Claim C9. Whenever the update pass of either copy produces a sensor, the name, the
  description, the sensor type, the other sensor type, the base units, the possible
  states and their count are those of the sensor before; only the operational status,
  the current state, the unit modifier and the current reading are assigned. The pass
  does produce a sensor for every record that \<open>check_wobj\<close> accepts with the sensor's
  count of possible states, when the sensor has a current state.
\<close>

theorem update_numeric_sensor_frame:
  "(\<forall>sensor'. update_numeric_sensor_from_wobj sensor wobj = Inr sensor' \<longrightarrow>
      fixed_fields sensor' = fixed_fields sensor) \<and>
   (\<forall>sensor'. update_numeric_sensor_from_wobj_2 sensor wobj = Inr sensor' \<longrightarrow>
      fixed_fields sensor' = fixed_fields sensor) \<and>
   (check_wobj wobj = Inr (unat (possible_states_count sensor)) \<and>
    current_state sensor \<noteq> None \<longrightarrow>
      (\<exists>sensor'. update_numeric_sensor_from_wobj sensor wobj = Inr sensor') \<and>
      (\<exists>sensor'. update_numeric_sensor_from_wobj_2 sensor wobj = Inr sensor'))"
proof (intro conjI allI impI)
  fix sensor'
  assume "update_numeric_sensor_from_wobj sensor wobj = Inr sensor'"
  then show "fixed_fields sensor' = fixed_fields sensor"
    by (rule update_numeric_sensor_fixed)
next
  fix sensor'
  assume "update_numeric_sensor_from_wobj_2 sensor wobj = Inr sensor'"
  then show "fixed_fields sensor' = fixed_fields sensor"
    by (rule update_numeric_sensor_2_fixed)
next
  assume a: "check_wobj wobj = Inr (unat (possible_states_count sensor)) \<and>
             current_state sensor \<noteq> None"
  then obtain state where s: "current_state sensor = Some state" by auto
  from update_reads_defined a obtain elements status string modifier reading where
    r: "wobj = ACPI_Package elements" "integer_value elements 4 = Inr status"
       "string_pointer elements 5 = Inr string"
       "integer_value elements (8 + unat (possible_states_count sensor - 1)) = Inr modifier"
       "integer_value elements (9 + unat (possible_states_count sensor - 1)) = Inr reading"
    by blast
  show "\<exists>sensor'. update_numeric_sensor_from_wobj sensor wobj = Inr sensor'"
    by (simp add: update_numeric_sensor_from_wobj_def r s Let_def)
  show "\<exists>sensor'. update_numeric_sensor_from_wobj_2 sensor wobj = Inr sensor'"
    by (simp add: update_numeric_sensor_from_wobj_2_def r s Let_def)
qed

lemma example_update:
  "update_numeric_sensor_from_wobj example_sensor (sensor_package ''CPU'' 2 3 2 0xFFFFFFFD 26000) =
     Inr (example_sensor\<lparr>operational_status := 3, current_reading := 26000\<rparr>)"
  by (simp add: update_numeric_sensor_from_wobj_def example_sensor_def sensor_package_def
      integer_value_def string_pointer_def Let_def)

lemma example_update_2:
  "update_numeric_sensor_from_wobj_2 example_sensor (sensor_package ''CPU'' 2 3 2 0xFFFFFFFD 26000) =
     Inr (example_sensor\<lparr>operational_status := 3, current_reading := 26000\<rparr>)"
  by (simp add: update_numeric_sensor_from_wobj_2_def example_sensor_def sensor_package_def
      integer_value_def string_pointer_def Let_def strim_def isspace_def)

theorem update_numeric_sensor_frame_witness:
  "update_numeric_sensor_from_wobj example_sensor (sensor_package ''CPU'' 2 3 2 0xFFFFFFFD 26000) =
     Inr (example_sensor\<lparr>operational_status := 3, current_reading := 26000\<rparr>) \<and>
   fixed_fields (example_sensor\<lparr>operational_status := 3, current_reading := 26000\<rparr>) =
     fixed_fields example_sensor"
  using update_numeric_sensor_frame
    [of example_sensor "sensor_package ''CPU'' 2 3 2 0xFFFFFFFD 26000"] example_update
  by simp

lemma sint_negative_iff: "sint (w :: u64) < 0 \<longleftrightarrow> 2 ^ 63 \<le> uint w"
proof -
  have r: "0 \<le> uint w" "uint w < 2 ^ 64"
    using uint_lt2p [of w] by simp_all
  have "sint w = take_bit 64 (uint w + 2 ^ 63) - 2 ^ 63"
    by (simp add: sint_uint signed_take_bit_eq_take_bit_shift)
  also have "\<dots> = (uint w + 2 ^ 63) mod 2 ^ 64 - 2 ^ 63"
    by (simp add: take_bit_eq_mod)
  also have "\<dots> = (if uint w < 2 ^ 63 then uint w else uint w - 2 ^ 64)"
  proof (cases "uint w < 2 ^ 63")
    case True
    then have "(uint w + 2 ^ 63) mod 2 ^ 64 = uint w + 2 ^ 63"
      using r by (intro mod_pos_pos_trivial) simp_all
    then show ?thesis using True by simp
  next
    case False
    then have "(uint w + 2 ^ 63) mod 2 ^ 64 = uint w + 2 ^ 63 - 2 ^ 64"
      using r by (subst mod_pos_geq) (simp_all add: mod_pos_pos_trivial)
    then show ?thesis using False by simp
  qed
  finally show ?thesis using r by (simp split: if_splits)
qed

lemma time_after_iff:
  assumes "uint HZ < 2 ^ 63"
  shows "time_after jiffies (updated + HZ) \<longleftrightarrow>
           uint HZ < uint (jiffies - updated) \<and> uint (jiffies - updated) \<le> uint HZ + 2 ^ 63"
proof -
  define d where "d = jiffies - updated"
  have e: "updated + HZ - jiffies = HZ - d" by (simp add: d_def)
  have r: "0 \<le> uint d" "uint d < 2 ^ 64" "0 \<le> uint HZ"
    using uint_lt2p [of d] by simp_all
  have s: "uint (HZ - d) =
             (if uint d \<le> uint HZ then uint HZ - uint d else uint HZ - uint d + 2 ^ 64)"
    using uint_sub_if' [of HZ d] by simp
  have "time_after jiffies (updated + HZ) \<longleftrightarrow> 2 ^ 63 \<le> uint (HZ - d)"
    by (simp only: time_after_def e sint_negative_iff)
  also have "\<dots> \<longleftrightarrow> uint HZ < uint d \<and> uint d \<le> uint HZ + 2 ^ 63"
  proof -
    define x y where "x = uint d" and "y = uint HZ"
    have "0 \<le> x" "x < 18446744073709551616" "0 \<le> y" "y < 9223372036854775808"
      using r assms by (simp_all add: x_def y_def)
    then have "((2::int) ^ 63 \<le> (if x \<le> y then y - x else y - x + 2 ^ 64))
               \<longleftrightarrow> y < x \<and> x \<le> y + 2 ^ 63"
      by (cases "x \<le> y") (simp, simp, linarith)
    then show ?thesis
      unfolding s x_def y_def .
  qed
  finally show ?thesis by (simp only: d_def)
qed







lemma hp_wmi_update_info_instance:
  "instance_no (fst (snd (hp_wmi_update_info jiffies HZ dev sinfo))) = instance_no sinfo"
  "instance_no (fst (snd (hp_wmi_update_info_2 jiffies HZ dev sinfo))) = instance_no sinfo"
  by (simp_all add: hp_wmi_update_info_def hp_wmi_update_info_2_def hp_wmi_get_wobj_def
      interpret_info_def interpret_info_2_def Let_def
      split: option.splits sum.splits)


lemma example_elapsed:
  "uint ((1100 :: u64) - last_updated example_info) = 100"
  "uint ((1250 :: u64) - last_updated example_info) = 250"
  "uint ((2000 :: u64) - last_updated example_info) = 1000"
  "uint ((2100 :: u64) - 2000) = 100"
  "uint (250 :: u64) = 250"
  by (simp_all add: example_info_def)

lemma example_read:
  "fst (hp_wmi_update_info 2000 250 example_device example_info) = None"
  "fst (hp_wmi_update_info_2 2000 250 example_device example_info) = None"
proof -
  have t: "time_after 2000 (last_updated example_info + 250)"
    by (simp add: time_after_iff example_elapsed)
  have n: "nsensor example_info = example_sensor" "unat (instance_no example_info) = 0"
    by (simp_all add: example_info_def)
  have b: "block example_device 0 = Some (sensor_package ''CPU'' 2 3 2 0xFFFFFFFD 26000)"
    by (simp add: example_device_def)
  show "fst (hp_wmi_update_info 2000 250 example_device example_info) = None"
    by (simp add: hp_wmi_update_info_def t n hp_wmi_get_wobj_def b example_update)
  show "fst (hp_wmi_update_info_2 2000 250 example_device example_info) = None"
    by (simp add: hp_wmi_update_info_2_def t n hp_wmi_get_wobj_def b example_update_2)
qed




subsection \<open>The background refresh task\<close>

lemma refresh_loop_success:
  assumes "i < count state" and "is_active (info state ! i)"
    and "hp_wmi_update_info jiffies HZ (wdev state) (info state ! i) = (None, info', dev')"
  shows "hp_wmi_sensors_refresh_loop jiffies HZ state i =
           (False, state\<lparr>wdev := dev', info := (info state)[i := info'],
                          refresh_task := (refresh_task state)\<lparr>update_interval := 0\<rparr>\<rparr>)"
  using assms by (subst hp_wmi_sensors_refresh_loop.simps) simp

lemma refresh_loop_failure:
  assumes "i < count state" and "is_active (info state ! i)"
    and "hp_wmi_update_info jiffies HZ (wdev state) (info state ! i) = (Some err, info', dev')"
  shows "hp_wmi_sensors_refresh_loop jiffies HZ state i =
           hp_wmi_sensors_refresh_loop jiffies HZ
             (state\<lparr>wdev := dev', info := (info state)[i := info']\<rparr>) (i + 1)"
  using assms by (subst hp_wmi_sensors_refresh_loop.simps) simp

lemma refresh_loop_end:
  assumes "\<not> i < count state"
  shows "hp_wmi_sensors_refresh_loop jiffies HZ state i = (True, state)"
  using assms by (subst hp_wmi_sensors_refresh_loop.simps) simp

lemma example_read_dead:
  "hp_wmi_update_info 2000 250 dead_device example_info =
     (Some EIO, example_info, dead_device\<lparr>queries := [0]\<rparr>)"
proof -
  have t: "time_after 2000 (last_updated example_info + 250)"
    by (simp add: time_after_iff example_elapsed)
  have n: "unat (instance_no example_info) = 0"
    by (simp add: example_info_def)
  show ?thesis
    by (simp add: hp_wmi_update_info_def t n hp_wmi_get_wobj_def dead_device_def)
qed

text \<open>
  Claim C3. The state has one active sensor, the update interval is 5000 ms, and more
  than a second has passed since the last update. With a firmware that answers, the
  update of the sensor returns 0, and the task sets the update interval to zero and
  does not schedule itself again. With a firmware that answers nothing, the update
  returns \<open>-EIO\<close>, and the task keeps the interval and schedules itself after 5000 ms.
  This is the reverse of the claim; the test in the source is \<^verbatim>\<open>if (!err)\<close>, and the
  message it guards reads \<^verbatim>\<open>Error %d while updating sensor\<close>.
\<close>

theorem hp_wmi_sensors_refresh_task_inverted:
  "fst (hp_wmi_update_info 2000 250 example_device example_info) = None \<and>
   snd (hp_wmi_sensors_refresh_task 2000 250 (example_state example_device)) = None \<and>
   update_interval (refresh_task
     (fst (hp_wmi_sensors_refresh_task 2000 250 (example_state example_device)))) = 0 \<and>
   fst (hp_wmi_update_info 2000 250 dead_device example_info) = Some EIO \<and>
   snd (hp_wmi_sensors_refresh_task 2000 250 (example_state dead_device)) = Some 5000 \<and>
   update_interval (refresh_task
     (fst (hp_wmi_sensors_refresh_task 2000 250 (example_state dead_device)))) = 5000"
proof -
  have s: "0 < count (example_state dev)" "is_active (info (example_state dev) ! 0)"
    "info (example_state dev) ! 0 = example_info" "wdev (example_state dev) = dev"
    "update_interval (refresh_task (example_state dev)) = 5000" for dev
    by (simp_all add: example_state_def example_info_def)
  have act: "is_active example_info" by (simp add: example_info_def)
  obtain info' dev' where
    u: "hp_wmi_update_info 2000 250 example_device example_info = (None, info', dev')"
    using example_read(1) by (cases "hp_wmi_update_info 2000 250 example_device example_info") simp
  have a: "hp_wmi_sensors_refresh_loop 2000 250 (example_state example_device) 0 =
             (False, (example_state example_device)\<lparr>wdev := dev',
                info := (info (example_state example_device))[0 := info'],
                refresh_task := (refresh_task (example_state example_device))
                                  \<lparr>update_interval := 0\<rparr>\<rparr>)"
    by (rule refresh_loop_success) (simp_all add: s u act)
  have "hp_wmi_sensors_refresh_loop 2000 250 (example_state dead_device) 0 =
          hp_wmi_sensors_refresh_loop 2000 250
            ((example_state dead_device)\<lparr>wdev := dead_device\<lparr>queries := [0]\<rparr>,
               info := (info (example_state dead_device))[0 := example_info]\<rparr>) (0 + 1)"
    by (rule refresh_loop_failure [where err = EIO]) (simp_all add: s example_read_dead act)
  also have "\<dots> = (True, (example_state dead_device)\<lparr>wdev := dead_device\<lparr>queries := [0]\<rparr>,
               info := (info (example_state dead_device))[0 := example_info]\<rparr>)"
    by (rule refresh_loop_end) (simp add: example_state_def)
  finally have b: "hp_wmi_sensors_refresh_loop 2000 250 (example_state dead_device) 0 =
      (True, (example_state dead_device)\<lparr>wdev := dead_device\<lparr>queries := [0]\<rparr>,
               info := (info (example_state dead_device))[0 := example_info]\<rparr>)" .
  show ?thesis
    by (simp add: hp_wmi_sensors_refresh_task_def a b s example_read(1) example_read_dead)
qed

subsection \<open>Discovery\<close>

lemma init_loop_done:
  assumes "\<not> i < 32"
  shows "hp_wmi_sensors_init_loop populate skip activate state i active counts =
           Inr (state, i, active, counts)"
  using assms by (subst hp_wmi_sensors_init_loop.simps) simp

lemma init_loop_absent:
  assumes "i < 32" and "block (wdev state) i = None"
  shows "hp_wmi_sensors_init_loop populate skip activate state i active counts =
           Inr (state\<lparr>wdev := queried state i\<rparr>, i, active, counts)"
  using assms
  by (subst hp_wmi_sensors_init_loop.simps) (simp add: hp_wmi_get_wobj_def queried_def)

lemma init_loop_error:
  assumes "i < 32" and "block (wdev state) i = Some wobj"
    and "populate (nsensor (info state ! i)) wobj = Inl err"
  shows "hp_wmi_sensors_init_loop populate skip activate state i active counts = Inl err"
  using assms
  by (subst hp_wmi_sensors_init_loop.simps) (simp add: hp_wmi_get_wobj_def)

lemma init_loop_skip:
  assumes "i < 32" and "block (wdev state) i = Some wobj"
    and "populate (nsensor (info state ! i)) wobj = Inr sensor"
    and "skip sensor \<or> classify_numeric_sensor sensor < 0"
  shows "hp_wmi_sensors_init_loop populate skip activate state i active counts =
           hp_wmi_sensors_init_loop populate skip activate (skipped state i sensor) (i + 1)
             active counts"
  using assms
  by (subst hp_wmi_sensors_init_loop.simps)
     (simp add: hp_wmi_get_wobj_def queried_def skipped_def)

lemma init_loop_activate:
  assumes "i < 32" and "block (wdev state) i = Some wobj"
    and "populate (nsensor (info state ! i)) wobj = Inr sensor"
    and "\<not> (skip sensor \<or> classify_numeric_sensor sensor < 0)"
  shows "hp_wmi_sensors_init_loop populate skip activate state i active counts =
           hp_wmi_sensors_init_loop populate skip activate (activated activate state i sensor)
             (i + 1) (active @ [i])
             (counts (hp_wmi_hwmon_type_map (classify_numeric_sensor sensor) :=
                counts (hp_wmi_hwmon_type_map (classify_numeric_sensor sensor)) + 1))"
  using assms
  by (subst hp_wmi_sensors_init_loop.simps)
     (simp add: hp_wmi_get_wobj_def queried_def activated_def)

lemma step_facts:
  "block (wdev (skipped state i sensor)) = block (wdev state)"
  "block (wdev (activated activate state i sensor)) = block (wdev state)"
  "length (info (skipped state i sensor)) = length (info state)"
  "length (info (activated activate state i sensor)) = length (info state)"
  "j \<noteq> i \<Longrightarrow> info (skipped state i sensor) ! j = info state ! j"
  "j \<noteq> i \<Longrightarrow> info (activated activate state i sensor) ! j = info state ! j"
  by (simp_all add: skipped_def activated_def queried_def)

lemma step_facts_at:
  assumes "i < length (info state)"
  shows "info (skipped state i sensor) ! i =
           (info state ! i)\<lparr>instance_no := of_nat i, nsensor := sensor\<rparr>"
    and "info (activated activate state i sensor) ! i =
           activate ((info state ! i)\<lparr>instance_no := of_nat i, nsensor := sensor,
             is_active := True,
             type := hp_wmi_hwmon_type_map (classify_numeric_sensor sensor)\<rparr>)"
  using assms by (simp_all add: skipped_def activated_def)

text \<open>
  A malformed record: the decoder fails on it. Whatever the index \<open>k\<close> of the instance,
  if the instances before it decode, the loop returns the decoder's error.
\<close>

lemma init_loop_malformed:
  assumes "i \<le> k" and "k < 32"
    and "\<forall>j. i \<le> j \<and> j < k \<longrightarrow>
           (\<exists>w s. block (wdev state) j = Some w \<and> populate (nsensor (info state ! j)) w = Inr s)"
    and "block (wdev state) k = Some wobj"
    and "populate (nsensor (info state ! k)) wobj = Inl err"
  shows "hp_wmi_sensors_init_loop populate skip activate state i active counts = Inl err"
  using assms
proof (induction "k - i" arbitrary: i state active counts)
  case 0
  then have "i = k" by simp
  with 0 show ?case by (simp add: init_loop_error)
next
  case (Suc n)
  then have lt: "i < k" "i < 32" by simp_all
  with Suc.prems obtain w s where
    w: "block (wdev state) i = Some w" "populate (nsensor (info state ! i)) w = Inr s"
    by blast
  have n: "n = k - (i + 1)" "i + 1 \<le> k" using Suc.hyps(2) lt by simp_all
  show ?case
  proof (cases "skip s \<or> classify_numeric_sensor s < 0")
    case True
    have "hp_wmi_sensors_init_loop populate skip activate (skipped state i s) (i + 1)
            active counts = Inl err"
    proof (rule Suc.hyps(1) [OF n(1) n(2) Suc.prems(2)])
      show "\<forall>j. i + 1 \<le> j \<and> j < k \<longrightarrow>
              (\<exists>w s'. block (wdev (skipped state i s)) j = Some w \<and>
                 populate (nsensor (info (skipped state i s) ! j)) w = Inr s')"
        using Suc.prems(3) by (simp add: step_facts)
      show "block (wdev (skipped state i s)) k = Some wobj"
        using Suc.prems(4) by (simp add: step_facts)
      show "populate (nsensor (info (skipped state i s) ! k)) wobj = Inl err"
        using Suc.prems(5) lt by (simp add: step_facts)
    qed
    then show ?thesis
      by (simp add: init_loop_skip [of i state w populate s skip, OF lt(2) w True])
  next
    case False
    have "hp_wmi_sensors_init_loop populate skip activate (activated activate state i s) (i + 1)
            (active @ [i])
            (counts (hp_wmi_hwmon_type_map (classify_numeric_sensor s) :=
               counts (hp_wmi_hwmon_type_map (classify_numeric_sensor s)) + 1)) = Inl err"
    proof (rule Suc.hyps(1) [OF n(1) n(2) Suc.prems(2)])
      show "\<forall>j. i + 1 \<le> j \<and> j < k \<longrightarrow>
              (\<exists>w s'. block (wdev (activated activate state i s)) j = Some w \<and>
                 populate (nsensor (info (activated activate state i s) ! j)) w = Inr s')"
        using Suc.prems(3) by (simp add: step_facts)
      show "block (wdev (activated activate state i s)) k = Some wobj"
        using Suc.prems(4) by (simp add: step_facts)
      show "populate (nsensor (info (activated activate state i s) ! k)) wobj = Inl err"
        using Suc.prems(5) lt by (simp add: step_facts)
    qed
    then show ?thesis
      by (simp add: init_loop_activate [of i state w populate s skip, OF lt(2) w False])
  qed
qed

lemma init_loop_result:
  assumes act: "\<And>x. nsensor (activate x) = nsensor x \<and> is_active (activate x) = is_active x \<and>
                     type (activate x) = type x \<and> instance_no (activate x) = instance_no x"
  shows "hp_wmi_sensors_init_loop populate skip activate state i active counts =
           Inr (state', n, active', counts') \<Longrightarrow>
         i \<le> 32 \<Longrightarrow> length (info state) = 32 \<Longrightarrow>
         (\<forall>j. i \<le> j \<and> j < 32 \<longrightarrow> \<not> is_active (info state ! j)) \<Longrightarrow>
         i \<le> n \<and> n \<le> 32 \<and> length (info state') = 32 \<and> info_map state' = info_map state \<and>
         (\<forall>j. j < i \<or> n \<le> j \<longrightarrow> info state' ! j = info state ! j) \<and>
         (\<forall>j. i \<le> j \<and> j < n \<longrightarrow>
            is_active (info state' ! j) =
              (\<not> skip (nsensor (info state' ! j)) \<and>
               0 \<le> classify_numeric_sensor (nsensor (info state' ! j))) \<and>
            (is_active (info state' ! j) \<longrightarrow>
               type (info state' ! j) =
                 hp_wmi_hwmon_type_map (classify_numeric_sensor (nsensor (info state' ! j))))) \<and>
         active' = active @ filter (\<lambda>j. is_active (info state' ! j)) [i..<n] \<and>
         (\<forall>ty. counts' ty = counts ty +
            length (filter (\<lambda>j. is_active (info state' ! j) \<and> type (info state' ! j) = ty)
              [i..<n])) \<and>
         (\<forall>j. i \<le> j \<and> j < n \<longrightarrow>
            (\<exists>w. block (wdev state) j = Some w \<and>
                 populate (nsensor (info state ! j)) w = Inr (nsensor (info state' ! j))) \<and>
            instance_no (info state' ! j) = of_nat j)"
proof (induction "32 - i" arbitrary: i state active counts)
  case 0
  then have "\<not> i < 32" by simp
  then have "hp_wmi_sensors_init_loop populate skip activate state i active counts =
               Inr (state, i, active, counts)"
    by (rule init_loop_done)
  with "0.prems"(1) have "state' = state" "n = i" "active' = active" "counts' = counts"
    by simp_all
  then show ?case using "0.prems"(2,3) by auto
next
  case (Suc m)
  then have lt: "i < 32" by simp
  have m: "m = 32 - (i + 1)" "i + 1 \<le> 32" using Suc.hyps(2) by simp_all
  note r = Suc.prems(1)
  note len = Suc.prems(3)
  note inactive = Suc.prems(4)
  show ?case
  proof (cases "block (wdev state) i")
    case None
    have "hp_wmi_sensors_init_loop populate skip activate state i active counts =
            Inr (state\<lparr>wdev := queried state i\<rparr>, i, active, counts)"
      using lt None by (rule init_loop_absent)
    with r have "state' = state\<lparr>wdev := queried state i\<rparr>" "n = i" "active' = active"
      "counts' = counts"
      by auto
    then show ?thesis using lt len by auto
  next
    case (Some w)
    show ?thesis
    proof (cases "populate (nsensor (info state ! i)) w")
      case (Inl err)
      have "hp_wmi_sensors_init_loop populate skip activate state i active counts = Inl err"
        using lt Some Inl by (rule init_loop_error)
      with r show ?thesis by simp
    next
      case (Inr s)
      show ?thesis
      proof (cases "skip s \<or> classify_numeric_sensor s < 0")
        case True
        let ?st = "skipped state i s"
        have r1: "hp_wmi_sensors_init_loop populate skip activate ?st (i + 1) active counts =
                    Inr (state', n, active', counts')"
          using r by (simp only: init_loop_skip [of i state w populate s skip, OF lt Some Inr True])
        have pre: "length (info ?st) = 32"
          "\<forall>j. i + 1 \<le> j \<and> j < 32 \<longrightarrow> \<not> is_active (info ?st ! j)"
          using len inactive by (simp_all add: step_facts)
        note ih = Suc.hyps(1) [OF m(1) r1 m(2) pre]
        from ih have n: "i + 1 \<le> n" "n \<le> 32" "length (info state') = 32"
          "info_map state' = info_map ?st" by simp_all
        from ih have same: "\<forall>j. j < i + 1 \<or> n \<le> j \<longrightarrow> info state' ! j = info ?st ! j"
          by blast
        from ih have live: "\<forall>j. i + 1 \<le> j \<and> j < n \<longrightarrow>
            is_active (info state' ! j) =
              (\<not> skip (nsensor (info state' ! j)) \<and>
               0 \<le> classify_numeric_sensor (nsensor (info state' ! j))) \<and>
            (is_active (info state' ! j) \<longrightarrow>
               type (info state' ! j) =
                 hp_wmi_hwmon_type_map (classify_numeric_sensor (nsensor (info state' ! j))))"
          by blast
        from ih have al: "active' = active @ filter (\<lambda>j. is_active (info state' ! j)) [i + 1..<n]"
          by blast
        from ih have cl: "\<forall>ty. counts' ty = counts ty +
            length (filter (\<lambda>j. is_active (info state' ! j) \<and> type (info state' ! j) = ty)
              [i + 1..<n])"
          by blast
        from ih have kept: "\<forall>j. i + 1 \<le> j \<and> j < n \<longrightarrow>
            (\<exists>w. block (wdev ?st) j = Some w \<and>
                 populate (nsensor (info ?st ! j)) w = Inr (nsensor (info state' ! j))) \<and>
            instance_no (info state' ! j) = of_nat j"
          by blast
        have at: "info state' ! i = (info state ! i)\<lparr>instance_no := of_nat i, nsensor := s\<rparr>"
          using same lt len by (simp add: step_facts_at)
        have off: "\<not> is_active (info state' ! i)" "nsensor (info state' ! i) = s"
          "instance_no (info state' ! i) = of_nat i"
          using at inactive lt by simp_all
        have upt: "[i..<n] = i # [i + 1..<n]"
          using n(1) by (simp add: upt_conv_Cons)
        have c1: "i \<le> n \<and> n \<le> 32 \<and> length (info state') = 32 \<and>
                  info_map state' = info_map state"
          using n by (simp add: skipped_def)
        have c2: "\<forall>j. j < i \<or> n \<le> j \<longrightarrow> info state' ! j = info state ! j"
          using same n(1) by (auto simp add: step_facts)
        have c3: "\<forall>j. i \<le> j \<and> j < n \<longrightarrow>
            is_active (info state' ! j) =
              (\<not> skip (nsensor (info state' ! j)) \<and>
               0 \<le> classify_numeric_sensor (nsensor (info state' ! j))) \<and>
            (is_active (info state' ! j) \<longrightarrow>
               type (info state' ! j) =
                 hp_wmi_hwmon_type_map (classify_numeric_sensor (nsensor (info state' ! j))))"
        proof (intro allI impI)
          fix j assume j: "i \<le> j \<and> j < n"
          show "is_active (info state' ! j) =
              (\<not> skip (nsensor (info state' ! j)) \<and>
               0 \<le> classify_numeric_sensor (nsensor (info state' ! j))) \<and>
            (is_active (info state' ! j) \<longrightarrow>
               type (info state' ! j) =
                 hp_wmi_hwmon_type_map (classify_numeric_sensor (nsensor (info state' ! j))))"
          proof (cases "j = i")
            case True
            then show ?thesis using off \<open>skip s \<or> classify_numeric_sensor s < 0\<close> by auto
          next
            case False
            then have "i + 1 \<le> j \<and> j < n" using j by simp
            then show ?thesis using live by blast
          qed
        qed
        have c4: "active' = active @ filter (\<lambda>j. is_active (info state' ! j)) [i..<n]"
          using al off by (simp add: upt)
        have c5: "\<forall>ty. counts' ty = counts ty +
            length (filter (\<lambda>j. is_active (info state' ! j) \<and> type (info state' ! j) = ty)
              [i..<n])"
          using cl off by (simp add: upt)
        have c6: "\<forall>j. i \<le> j \<and> j < n \<longrightarrow>
            (\<exists>w. block (wdev state) j = Some w \<and>
                 populate (nsensor (info state ! j)) w = Inr (nsensor (info state' ! j))) \<and>
            instance_no (info state' ! j) = of_nat j"
        proof (intro allI impI)
          fix j assume j: "i \<le> j \<and> j < n"
          show "(\<exists>w. block (wdev state) j = Some w \<and>
                 populate (nsensor (info state ! j)) w = Inr (nsensor (info state' ! j))) \<and>
            instance_no (info state' ! j) = of_nat j"
          proof (cases "j = i")
            case True
            then show ?thesis using Some Inr off by simp
          next
            case False
            then have "i + 1 \<le> j \<and> j < n" using j by simp
            with kept have "(\<exists>w. block (wdev ?st) j = Some w \<and>
                 populate (nsensor (info ?st ! j)) w = Inr (nsensor (info state' ! j))) \<and>
              instance_no (info state' ! j) = of_nat j"
              by blast
            then show ?thesis using False by (simp add: step_facts)
          qed
        qed
        from c1 c2 c3 c4 c5 c6 show ?thesis by blast
      next
        case False
        let ?ty = "hp_wmi_hwmon_type_map (classify_numeric_sensor s)"
        let ?st = "activated activate state i s"
        have r1: "hp_wmi_sensors_init_loop populate skip activate ?st (i + 1) (active @ [i])
                    (counts (?ty := counts ?ty + 1)) =
                    Inr (state', n, active', counts')"
          using r
          by (simp only: init_loop_activate [of i state w populate s skip, OF lt Some Inr False])
        have pre: "length (info ?st) = 32"
          "\<forall>j. i + 1 \<le> j \<and> j < 32 \<longrightarrow> \<not> is_active (info ?st ! j)"
          using len inactive by (simp_all add: step_facts)
        note ih = Suc.hyps(1) [OF m(1) r1 m(2) pre]
        from ih have n: "i + 1 \<le> n" "n \<le> 32" "length (info state') = 32"
          "info_map state' = info_map ?st" by simp_all
        from ih have same: "\<forall>j. j < i + 1 \<or> n \<le> j \<longrightarrow> info state' ! j = info ?st ! j"
          by blast
        from ih have live: "\<forall>j. i + 1 \<le> j \<and> j < n \<longrightarrow>
            is_active (info state' ! j) =
              (\<not> skip (nsensor (info state' ! j)) \<and>
               0 \<le> classify_numeric_sensor (nsensor (info state' ! j))) \<and>
            (is_active (info state' ! j) \<longrightarrow>
               type (info state' ! j) =
                 hp_wmi_hwmon_type_map (classify_numeric_sensor (nsensor (info state' ! j))))"
          by blast
        from ih have al: "active' = (active @ [i]) @
            filter (\<lambda>j. is_active (info state' ! j)) [i + 1..<n]"
          by blast
        from ih have cl: "\<forall>ty. counts' ty = (counts (?ty := counts ?ty + 1)) ty +
            length (filter (\<lambda>j. is_active (info state' ! j) \<and> type (info state' ! j) = ty)
              [i + 1..<n])"
          by blast
        from ih have kept: "\<forall>j. i + 1 \<le> j \<and> j < n \<longrightarrow>
            (\<exists>w. block (wdev ?st) j = Some w \<and>
                 populate (nsensor (info ?st ! j)) w = Inr (nsensor (info state' ! j))) \<and>
            instance_no (info state' ! j) = of_nat j"
          by blast
        have at: "info state' ! i =
                    activate ((info state ! i)\<lparr>instance_no := of_nat i, nsensor := s,
                      is_active := True, type := ?ty\<rparr>)"
          using same lt len by (simp add: step_facts_at)
        have on: "is_active (info state' ! i)" "nsensor (info state' ! i) = s"
          "type (info state' ! i) = ?ty" "instance_no (info state' ! i) = of_nat i"
          using at by (simp_all add: act)
        have upt: "[i..<n] = i # [i + 1..<n]"
          using n(1) by (simp add: upt_conv_Cons)
        have c1: "i \<le> n \<and> n \<le> 32 \<and> length (info state') = 32 \<and>
                  info_map state' = info_map state"
          using n by (simp add: activated_def)
        have c2: "\<forall>j. j < i \<or> n \<le> j \<longrightarrow> info state' ! j = info state ! j"
          using same n(1) by (auto simp add: step_facts)
        have c3: "\<forall>j. i \<le> j \<and> j < n \<longrightarrow>
            is_active (info state' ! j) =
              (\<not> skip (nsensor (info state' ! j)) \<and>
               0 \<le> classify_numeric_sensor (nsensor (info state' ! j))) \<and>
            (is_active (info state' ! j) \<longrightarrow>
               type (info state' ! j) =
                 hp_wmi_hwmon_type_map (classify_numeric_sensor (nsensor (info state' ! j))))"
        proof (intro allI impI)
          fix j assume j: "i \<le> j \<and> j < n"
          show "is_active (info state' ! j) =
              (\<not> skip (nsensor (info state' ! j)) \<and>
               0 \<le> classify_numeric_sensor (nsensor (info state' ! j))) \<and>
            (is_active (info state' ! j) \<longrightarrow>
               type (info state' ! j) =
                 hp_wmi_hwmon_type_map (classify_numeric_sensor (nsensor (info state' ! j))))"
          proof (cases "j = i")
            case True
            then show ?thesis
              using on \<open>\<not> (skip s \<or> classify_numeric_sensor s < 0)\<close> by auto
          next
            case False
            then have "i + 1 \<le> j \<and> j < n" using j by simp
            then show ?thesis using live by blast
          qed
        qed
        have c4: "active' = active @ filter (\<lambda>j. is_active (info state' ! j)) [i..<n]"
          using al on by (simp add: upt)
        have c5: "\<forall>ty. counts' ty = counts ty +
            length (filter (\<lambda>j. is_active (info state' ! j) \<and> type (info state' ! j) = ty)
              [i..<n])"
          using cl on by (simp add: upt)
        have c6: "\<forall>j. i \<le> j \<and> j < n \<longrightarrow>
            (\<exists>w. block (wdev state) j = Some w \<and>
                 populate (nsensor (info state ! j)) w = Inr (nsensor (info state' ! j))) \<and>
            instance_no (info state' ! j) = of_nat j"
        proof (intro allI impI)
          fix j assume j: "i \<le> j \<and> j < n"
          show "(\<exists>w. block (wdev state) j = Some w \<and>
                 populate (nsensor (info state ! j)) w = Inr (nsensor (info state' ! j))) \<and>
            instance_no (info state' ! j) = of_nat j"
          proof (cases "j = i")
            case True
            then show ?thesis using Some Inr on by simp
          next
            case False
            then have "i + 1 \<le> j \<and> j < n" using j by simp
            with kept have "(\<exists>w. block (wdev ?st) j = Some w \<and>
                 populate (nsensor (info ?st ! j)) w = Inr (nsensor (info state' ! j))) \<and>
              instance_no (info state' ! j) = of_nat j"
              by blast
            then show ?thesis using False by (simp add: step_facts)
          qed
        qed
        from c1 c2 c3 c4 c5 c6 show ?thesis by blast
      qed
    qed
  qed
qed

lemma fill_info_map_length:
  "length (fill_info_map infos active channel counts imap ty) = length (imap ty)"
  by (induction channel arbitrary: counts imap) (simp_all add: Let_def)

lemma fill_info_map_sound:
  "Some j \<in> set (fill_info_map infos active channel counts imap ty) \<Longrightarrow>
   Some j \<in> set (imap ty) \<or> (\<exists>c<channel. active ! c = j \<and> type (infos ! j) = ty)"
proof (induction channel arbitrary: counts imap)
  case 0
  then show ?case by simp
next
  case (Suc channel)
  let ?ty = "type (infos ! (active ! channel))"
  let ?i = "counts ?ty - 1"
  let ?imap = "imap (?ty := (imap ?ty)[?i := Some (active ! channel)])"
  from Suc.prems
  have "Some j \<in> set (fill_info_map infos active channel (counts (?ty := ?i)) ?imap ty)"
    by (simp add: Let_def)
  from Suc.IH [OF this] consider
    (a) "Some j \<in> set (?imap ty)" |
    (b) "\<exists>c<channel. active ! c = j \<and> type (infos ! j) = ty"
    by blast
  then show ?case
  proof cases
    case a
    show ?thesis
    proof (cases "ty = ?ty")
      case True
      with a have "Some j \<in> set ((imap ty)[?i := Some (active ! channel)])" by simp
      then have "Some j \<in> insert (Some (active ! channel)) (set (imap ty))"
        using set_update_subset_insert by fast
      then show ?thesis using True by auto
    next
      case False
      with a show ?thesis by simp
    qed
  next
    case b
    then show ?thesis using less_Suc_eq by auto
  qed
qed

lemma fill_info_map_step:
  assumes "Suc channel \<le> length active"
    and "\<forall>ty. length (filter (\<lambda>a. type (infos ! a) = ty) (take (Suc channel) active)) \<le> counts ty"
  shows "1 \<le> counts (type (infos ! (active ! channel)))"
    and "\<forall>ty. length (filter (\<lambda>a. type (infos ! a) = ty) (take channel active)) \<le>
           (counts (type (infos ! (active ! channel)) :=
              counts (type (infos ! (active ! channel))) - 1)) ty"
proof -
  have tk: "take (Suc channel) active = take channel active @ [active ! channel]"
    using assms(1) by (simp add: take_Suc_conv_app_nth)
  have c: "length (filter (\<lambda>a. type (infos ! a) = ty) (take channel active)) +
             (if type (infos ! (active ! channel)) = ty then 1 else 0) \<le> counts ty" for ty
    using assms(2) [rule_format, of ty] by (simp add: tk split: if_splits)
  from c [of "type (infos ! (active ! channel))"]
  show "1 \<le> counts (type (infos ! (active ! channel)))" by simp
  show "\<forall>ty. length (filter (\<lambda>a. type (infos ! a) = ty) (take channel active)) \<le>
           (counts (type (infos ! (active ! channel)) :=
              counts (type (infos ! (active ! channel))) - 1)) ty"
  proof
    fix ty
    show "length (filter (\<lambda>a. type (infos ! a) = ty) (take channel active)) \<le>
           (counts (type (infos ! (active ! channel)) :=
              counts (type (infos ! (active ! channel))) - 1)) ty"
      using c [of ty] by (cases "type (infos ! (active ! channel)) = ty") simp_all
  qed
qed

lemma fill_info_map_above:
  assumes "channel \<le> length active"
    and "\<forall>ty. length (filter (\<lambda>a. type (infos ! a) = ty) (take channel active)) \<le> counts ty"
    and "counts ty \<le> k"
  shows "fill_info_map infos active channel counts imap ty ! k = imap ty ! k"
  using assms
proof (induction channel arbitrary: counts imap)
  case 0
  then show ?case by simp
next
  case (Suc channel)
  let ?ty = "type (infos ! (active ! channel))"
  let ?i = "counts ?ty - 1"
  let ?imap = "imap (?ty := (imap ?ty)[?i := Some (active ! channel)])"
  note st = fill_info_map_step [OF Suc.prems(1,2)]
  have le: "channel \<le> length active" using Suc.prems(1) by simp
  have k: "(counts (?ty := ?i)) ty \<le> k" using Suc.prems(3) by auto
  have "fill_info_map infos active (Suc channel) counts imap ty ! k =
          fill_info_map infos active channel (counts (?ty := ?i)) ?imap ty ! k"
    by (simp add: Let_def)
  also have "\<dots> = ?imap ty ! k"
    by (rule Suc.IH [OF le st(2) k])
  also have "\<dots> = imap ty ! k"
    using st(1) Suc.prems(3) by (cases "ty = ?ty") simp_all
  finally show ?case .
qed

lemma fill_info_map_complete:
  assumes "channel \<le> length active"
    and "\<forall>ty. length (filter (\<lambda>a. type (infos ! a) = ty) (take channel active)) \<le> counts ty"
    and "\<forall>ty. counts ty \<le> length (imap ty)"
    and "c < channel"
  shows "Some (active ! c) \<in>
           set (fill_info_map infos active channel counts imap (type (infos ! (active ! c))))"
  using assms
proof (induction channel arbitrary: counts imap)
  case 0
  then show ?case by simp
next
  case (Suc channel)
  let ?ty = "type (infos ! (active ! channel))"
  let ?i = "counts ?ty - 1"
  let ?counts = "counts (?ty := ?i)"
  let ?imap = "imap (?ty := (imap ?ty)[?i := Some (active ! channel)])"
  note st = fill_info_map_step [OF Suc.prems(1,2)]
  have le: "channel \<le> length active" using Suc.prems(1) by simp
  have len: "\<forall>ty. ?counts ty \<le> length (?imap ty)"
  proof
    fix ty
    show "?counts ty \<le> length (?imap ty)"
      using Suc.prems(3) [rule_format, of ty] by (cases "ty = ?ty") simp_all
  qed
  have unf: "fill_info_map infos active (Suc channel) counts imap =
               fill_info_map infos active channel ?counts ?imap"
    by (simp add: Let_def)
  show ?case
  proof (cases "c = channel")
    case True
    have i: "?i < length (imap ?ty)"
      using st(1) Suc.prems(3) [rule_format, of ?ty] by simp
    have "fill_info_map infos active channel ?counts ?imap ?ty ! ?i = ?imap ?ty ! ?i"
      by (rule fill_info_map_above [OF le st(2)]) simp
    also have "\<dots> = Some (active ! channel)"
      using i by simp
    finally have "fill_info_map infos active channel ?counts ?imap ?ty ! ?i =
                    Some (active ! channel)" .
    moreover have "?i < length (fill_info_map infos active channel ?counts ?imap ?ty)"
      using i by (simp add: fill_info_map_length)
    ultimately have "Some (active ! channel) \<in>
        set (fill_info_map infos active channel ?counts ?imap ?ty)"
      by (metis nth_mem)
    then show ?thesis by (simp only: unf True)
  next
    case False
    then have "c < channel" using Suc.prems(4) by simp
    from Suc.IH [OF le st(2) len this] show ?thesis by (simp only: unf)
  qed
qed

lemma unpopulated_facts:
  assumes "unpopulated state"
  shows "length (info state) = 32"
    and "\<forall>j. 0 \<le> j \<and> j < 32 \<longrightarrow> \<not> is_active (info state ! j)"
    and "info_map state ty = []"
proof -
  show len: "length (info state) = 32"
    using assms by (simp add: unpopulated_def)
  show "\<forall>j. 0 \<le> j \<and> j < 32 \<longrightarrow> \<not> is_active (info state ! j)"
    using assms len by (simp add: unpopulated_def list_all_length)
  have "ty \<in> set hwmon_types"
    by (cases ty) (simp_all add: hwmon_types_def)
  then show "info_map state ty = []"
    using assms by (simp add: unpopulated_def list_all_iff)
qed

lemma unpopulated_zero_state: "unpopulated (zero_state fw)"
  by (simp add: unpopulated_def zero_state_def zero_info_def hwmon_types_def list_all_length)

lemma type_map_not_chip:
  "0 \<le> classify_numeric_sensor sensor \<Longrightarrow>
   hp_wmi_hwmon_type_map (classify_numeric_sensor sensor) \<noteq> hwmon_chip"
  using classify_numeric_sensor_cases [of sensor]
  by (auto simp add: hp_wmi_hwmon_type_map_def hp_wmi_type_defs)

lemma discovery_live:
  assumes act: "\<And>x. nsensor (activate x) = nsensor x \<and> is_active (activate x) = is_active x \<and>
                     type (activate x) = type x \<and> instance_no (activate x) = instance_no x"
    and un: "unpopulated state"
    and r: "hp_wmi_sensors_init_loop populate skip activate state 0 [] (\<lambda>ty. 0) =
              Inr (st, n, a, c)"
    and e: "hp_wmi_sensors_init_end chip (st, n, a, c) = Inr state'"
    and j: "j < count state'"
  shows "live_exactly (\<lambda>sensor. \<not> skip sensor) state' j"
    and "discovered populate state state' j"
proof -
  have z: "(0::nat) \<le> 32" by simp
  note res = init_loop_result [of activate populate skip state 0 "[]" "\<lambda>ty. 0" st n a c,
      OF act r z unpopulated_facts(1,2) [OF un]]
  from res have len: "length (info st) = 32" and n32: "n \<le> 32" by simp_all
  from res have im: "info_map st ty = []" for ty by (simp add: unpopulated_facts(3) [OF un])
  from res have kept: "\<forall>j. 0 \<le> j \<and> j < n \<longrightarrow>
      (\<exists>w. block (wdev state) j = Some w \<and>
           populate (nsensor (info state ! j)) w = Inr (nsensor (info st ! j))) \<and>
      instance_no (info st ! j) = of_nat j"
    by blast
  from res have live: "\<forall>j. 0 \<le> j \<and> j < n \<longrightarrow>
      is_active (info st ! j) =
        (\<not> skip (nsensor (info st ! j)) \<and> 0 \<le> classify_numeric_sensor (nsensor (info st ! j))) \<and>
      (is_active (info st ! j) \<longrightarrow>
         type (info st ! j) =
           hp_wmi_hwmon_type_map (classify_numeric_sensor (nsensor (info st ! j))))"
    by blast
  from res have a: "a = filter (\<lambda>j. is_active (info st ! j)) [0..<n]" by simp
  from res have c: "\<forall>ty. c ty =
      length (filter (\<lambda>j. is_active (info st ! j) \<and> type (info st ! j) = ty) [0..<n])"
    by simp
  have n0: "n \<noteq> 0" using e by (auto simp add: hp_wmi_sensors_init_end_def split: if_splits)
  have mem: "j \<in> set a \<longleftrightarrow> j < n \<and> is_active (info st ! j)" for j
    by (auto simp add: a)
  have ca: "c ty = length (filter (\<lambda>x. type (info st ! x) = ty) a)" for ty
    by (simp add: a c)
  have chip0: "c hwmon_chip = 0"
  proof -
    have "filter (\<lambda>x. type (info st ! x) = hwmon_chip) a = []"
    proof (simp only: filter_empty_conv, intro ballI)
      fix x assume "x \<in> set a"
      then have x: "x < n" "is_active (info st ! x)" by (simp_all add: mem)
      with live have "type (info st ! x) =
          hp_wmi_hwmon_type_map (classify_numeric_sensor (nsensor (info st ! x)))"
        "0 \<le> classify_numeric_sensor (nsensor (info st ! x))"
        by auto
      then show "\<not> type (info st ! x) = hwmon_chip"
        by (simp add: type_map_not_chip)
    qed
    then show ?thesis by (simp add: ca)
  qed
  define c2 where "c2 = (if chip \<or> c hwmon_temp \<noteq> 0 then c (hwmon_chip := 1) else c)"
  define imap0 where
    "imap0 = (\<lambda>ty. if c2 ty \<noteq> 0 then replicate (c2 ty) None else info_map st ty)"
  have ie: "hp_wmi_sensors_init_end chip (st, n, a, c) =
      (if n = 0 then Inl ENODATA
       else if length a = 0 then Inr (st\<lparr>count := n\<rparr>)
       else Inr (st\<lparr>count := n, channel_count := c2,
                    info_map := fill_info_map (info st) a (length a) c2 imap0\<rparr>))"
    by (simp only: hp_wmi_sensors_init_end_def c2_def imap0_def Let_def prod.case)
  have c2: "c ty \<le> c2 ty" for ty
    using chip0 by (simp add: c2_def)
  have in_map: "(Some j \<in> set (info_map state' ty)) =
                  (j < n \<and> is_active (info st ! j) \<and> type (info st ! j) = ty)" for ty
  proof (cases "a = []")
    case True
    then have "state' = st\<lparr>count := n\<rparr>"
      using e [unfolded ie] n0 by auto
    then have "info_map state' ty = []" by (simp add: im)
    moreover have "\<not> (j < n \<and> is_active (info st ! j))"
      using True mem [of j] by simp
    ultimately show ?thesis by auto
  next
    case False
    then have "state' = st\<lparr>count := n, channel_count := c2,
                 info_map := fill_info_map (info st) a (length a) c2 imap0\<rparr>"
      using e [unfolded ie] n0 by auto
    then have m: "info_map state' ty = fill_info_map (info st) a (length a) c2 imap0 ty"
      by simp
    have none: "Some j \<notin> set (imap0 ty)"
      by (simp add: imap0_def im)
    have le: "\<forall>ty. length (filter (\<lambda>x. type (info st ! x) = ty) (take (length a) a)) \<le> c2 ty"
      using c2 by (simp add: ca [symmetric])
    have ln: "\<forall>ty. c2 ty \<le> length (imap0 ty)"
      by (simp add: imap0_def)
    show ?thesis
    proof
      assume "Some j \<in> set (info_map state' ty)"
      then have "Some j \<in> set (fill_info_map (info st) a (length a) c2 imap0 ty)"
        by (simp only: m)
      from fill_info_map_sound [OF this] none
      obtain k where "k < length a" "a ! k = j" "type (info st ! j) = ty" by blast
      then have "j \<in> set a" "type (info st ! j) = ty" by auto
      then show "j < n \<and> is_active (info st ! j) \<and> type (info st ! j) = ty"
        by (simp add: mem)
    next
      assume "j < n \<and> is_active (info st ! j) \<and> type (info st ! j) = ty"
      then have "j \<in> set a" and ty: "type (info st ! j) = ty" by (simp_all add: mem)
      then obtain k where k: "k < length a" "a ! k = j" by (auto simp add: in_set_conv_nth)
      have "length a \<le> length a" by simp
      from fill_info_map_complete [OF this le ln k(1)]
      show "Some j \<in> set (info_map state' ty)"
        by (simp only: m k(2) ty)
    qed
  qed
  have cnt: "count state' = n" "info state' = info st"
    using e [unfolded ie] n0 by (auto split: if_splits)
  have jn: "j < n" using j cnt by simp
  from live jn have lj: "is_active (info st ! j) =
        (\<not> skip (nsensor (info st ! j)) \<and> 0 \<le> classify_numeric_sensor (nsensor (info st ! j)))"
    "is_active (info st ! j) \<Longrightarrow> type (info st ! j) =
           hp_wmi_hwmon_type_map (classify_numeric_sensor (nsensor (info st ! j)))"
    by auto
  have inact: "\<not> is_active (info st ! j) \<Longrightarrow> \<not> Some j \<in> set (info_map state' ty)" for ty
    by (simp add: in_map)
  show "live_exactly (\<lambda>sensor. \<not> skip sensor) state' j"
    unfolding live_exactly_def Let_def cnt list_all_iff
    using lj jn by (auto simp add: in_map)
  from kept jn show "discovered populate state state' j"
    unfolding discovered_def cnt by auto
qed

lemma interpret_info_keeps:
  "nsensor (interpret_info jiffies (x\<lparr>lo_val := LONG_MAX, hi_val := LONG_MIN\<rparr>)) = nsensor x \<and>
   is_active (interpret_info jiffies (x\<lparr>lo_val := LONG_MAX, hi_val := LONG_MIN\<rparr>)) =
     is_active x \<and>
   type (interpret_info jiffies (x\<lparr>lo_val := LONG_MAX, hi_val := LONG_MIN\<rparr>)) = type x \<and>
   instance_no (interpret_info jiffies (x\<lparr>lo_val := LONG_MAX, hi_val := LONG_MIN\<rparr>)) =
     instance_no x"
  "nsensor (interpret_info_2 jiffies x) = nsensor x \<and>
   is_active (interpret_info_2 jiffies x) = is_active x \<and>
   type (interpret_info_2 jiffies x) = type x \<and>
   instance_no (interpret_info_2 jiffies x) = instance_no x"
  by (simp_all add: interpret_info_def interpret_info_2_def Let_def)

lemma init_live:
  assumes "unpopulated state" and "hp_wmi_sensors_init jiffies state = Inr state'"
    and "j < count state'"
  shows "live_exactly (\<lambda>sensor. uint (operational_status sensor) = HP_WMI_STATUS_OK \<and>
                                 current_reading sensor \<noteq> 0) state' j"
    and "discovered populate_numeric_sensor_from_wobj state state' j"
proof -
  from assms(2) obtain st n a c where
    r: "hp_wmi_sensors_init_loop populate_numeric_sensor_from_wobj numeric_sensor_has_fault
          (\<lambda>info'. interpret_info jiffies (info'\<lparr>lo_val := LONG_MAX, hi_val := LONG_MIN\<rparr>))
          state 0 [] (\<lambda>ty. 0) = Inr (st, n, a, c)"
    and e: "hp_wmi_sensors_init_end True (st, n, a, c) = Inr state'"
    by (auto simp add: hp_wmi_sensors_init_def split: sum.splits)
  note d = discovery_live [where activate =
          "\<lambda>info'. interpret_info jiffies (info'\<lparr>lo_val := LONG_MAX, hi_val := LONG_MIN\<rparr>)"
          and skip = numeric_sensor_has_fault, OF interpret_info_keeps(1) assms(1) r e assms(3)]
  have g: "(\<lambda>sensor. \<not> numeric_sensor_has_fault sensor) =
           (\<lambda>sensor. uint (operational_status sensor) = HP_WMI_STATUS_OK \<and>
                      current_reading sensor \<noteq> 0)"
    by (rule ext) (simp add: numeric_sensor_has_fault_def)
  from d(1) show "live_exactly (\<lambda>sensor. uint (operational_status sensor) = HP_WMI_STATUS_OK \<and>
                                 current_reading sensor \<noteq> 0) state' j"
    by (simp only: g)
  from d(2) show "discovered populate_numeric_sensor_from_wobj state state' j" .
qed

lemma init_live_2:
  assumes "unpopulated state" and "hp_wmi_sensors_init_2 jiffies state = Inr state'"
    and "j < count state'"
  shows "live_exactly (\<lambda>sensor. uint (operational_status sensor) \<noteq> HP_WMI_STATUS_NO_CONTACT)
           state' j"
    and "discovered populate_numeric_sensor_from_wobj_2 state state' j"
proof -
  from assms(2) obtain st n a c where
    r: "hp_wmi_sensors_init_loop populate_numeric_sensor_from_wobj_2
          (\<lambda>sensor. \<not> numeric_sensor_is_connected sensor)
          (interpret_info_2 jiffies) state 0 [] (\<lambda>ty. 0) = Inr (st, n, a, c)"
    and e: "hp_wmi_sensors_init_end False (st, n, a, c) = Inr state'"
    by (auto simp add: hp_wmi_sensors_init_2_def split: sum.splits)
  note d = discovery_live [where activate = "interpret_info_2 jiffies"
          and skip = "\<lambda>sensor. \<not> numeric_sensor_is_connected sensor",
          OF interpret_info_keeps(2) assms(1) r e assms(3)]
  have g: "(\<lambda>sensor. \<not> \<not> numeric_sensor_is_connected sensor) =
           (\<lambda>sensor. uint (operational_status sensor) \<noteq> HP_WMI_STATUS_NO_CONTACT)"
    by (rule ext) (simp add: numeric_sensor_is_connected_def)
  from d(1) show "live_exactly
      (\<lambda>sensor. uint (operational_status sensor) \<noteq> HP_WMI_STATUS_NO_CONTACT) state' j"
    by (simp only: g)
  from d(2) show "discovered populate_numeric_sensor_from_wobj_2 state state' j" .
qed

lemma decodes_all:
  assumes "list_all (decodes populate state) [i..<k]"
  shows "\<forall>j. i \<le> j \<and> j < k \<longrightarrow>
           (\<exists>w s. block (wdev state) j = Some w \<and> populate (nsensor (info state ! j)) w = Inr s)"
proof (intro allI impI)
  fix j
  assume "i \<le> j \<and> j < k"
  then have "j \<in> set [i..<k]" by simp
  with assms have "decodes populate state j" by (simp only: list_all_iff)
  then show "\<exists>w s. block (wdev state) j = Some w \<and>
                 populate (nsensor (info state ! j)) w = Inr s"
    unfolding decodes_def by (auto split: option.splits sum.splits)
qed

lemma malformed_at:
  assumes "malformed populate state k err"
  shows "\<exists>w. block (wdev state) k = Some w \<and> populate (nsensor (info state ! k)) w = Inl err"
  using assms by (auto simp add: malformed_def split: option.splits sum.splits)

lemma init_loop_stops:
  assumes "i \<le> k" and "k < 32"
    and "\<forall>j. i \<le> j \<and> j < k \<longrightarrow>
           (\<exists>w s. block (wdev state) j = Some w \<and> populate (nsensor (info state ! j)) w = Inr s)"
    and "block (wdev state) k = None"
  shows "\<exists>state' active' counts'.
           hp_wmi_sensors_init_loop populate skip activate state i active counts =
             Inr (state', k, active', counts')"
  using assms
proof (induction "k - i" arbitrary: i state active counts)
  case 0
  then have "i = k" by simp
  with 0 show ?case by (simp add: init_loop_absent)
next
  case (Suc n)
  then have lt: "i < k" "i < 32" by simp_all
  with Suc.prems obtain w s where
    w: "block (wdev state) i = Some w" "populate (nsensor (info state ! i)) w = Inr s"
    by blast
  have n: "n = k - (i + 1)" "i + 1 \<le> k" using Suc.hyps(2) lt by simp_all
  show ?case
  proof (cases "skip s \<or> classify_numeric_sensor s < 0")
    case True
    have "\<exists>state' active' counts'.
            hp_wmi_sensors_init_loop populate skip activate (skipped state i s) (i + 1)
              active counts = Inr (state', k, active', counts')"
    proof (rule Suc.hyps(1) [OF n(1) n(2) Suc.prems(2)])
      show "\<forall>j. i + 1 \<le> j \<and> j < k \<longrightarrow>
              (\<exists>w s'. block (wdev (skipped state i s)) j = Some w \<and>
                 populate (nsensor (info (skipped state i s) ! j)) w = Inr s')"
        using Suc.prems(3) by (simp add: step_facts)
      show "block (wdev (skipped state i s)) k = None"
        using Suc.prems(4) by (simp add: step_facts)
    qed
    then show ?thesis
      by (simp add: init_loop_skip [of i state w populate s skip, OF lt(2) w True])
  next
    case False
    have "\<exists>state' active' counts'.
            hp_wmi_sensors_init_loop populate skip activate (activated activate state i s) (i + 1)
              (active @ [i])
              (counts (hp_wmi_hwmon_type_map (classify_numeric_sensor s) :=
                 counts (hp_wmi_hwmon_type_map (classify_numeric_sensor s)) + 1)) =
              Inr (state', k, active', counts')"
    proof (rule Suc.hyps(1) [OF n(1) n(2) Suc.prems(2)])
      show "\<forall>j. i + 1 \<le> j \<and> j < k \<longrightarrow>
              (\<exists>w s'. block (wdev (activated activate state i s)) j = Some w \<and>
                 populate (nsensor (info (activated activate state i s) ! j)) w = Inr s')"
        using Suc.prems(3) by (simp add: step_facts)
      show "block (wdev (activated activate state i s)) k = None"
        using Suc.prems(4) by (simp add: step_facts)
    qed
    then show ?thesis
      by (simp add: init_loop_activate [of i state w populate s skip, OF lt(2) w False])
  qed
qed

lemma init_end_count:
  "(case hp_wmi_sensors_init_end chip (state, k, active, counts) of
      Inl e \<Rightarrow> k = 0 \<and> e = ENODATA
    | Inr state' \<Rightarrow> 0 < k \<and> count state' = k)"
  by (simp add: hp_wmi_sensors_init_end_def Let_def)

lemma init_malformed:
  assumes "k < 32" and "list_all (decodes populate state) [0..<k]"
    and "malformed populate state k err"
  shows "(case hp_wmi_sensors_init_loop populate skip activate state 0 [] (\<lambda>ty. 0) of
            Inl err \<Rightarrow> Inl err
          | Inr r \<Rightarrow> hp_wmi_sensors_init_end chip r) = Inl err"
proof -
  from malformed_at [OF assms(3)] obtain w where
    w: "block (wdev state) k = Some w" "populate (nsensor (info state ! k)) w = Inl err"
    by blast
  have "0 \<le> k" by simp
  from init_loop_malformed [OF this assms(1) decodes_all [OF assms(2)] w]
  show ?thesis by simp
qed

lemma init_stops:
  assumes "k < 32" and "list_all (decodes populate state) [0..<k]"
    and "block (wdev state) k = None"
  shows "(case (case hp_wmi_sensors_init_loop populate skip activate state 0 [] (\<lambda>ty. 0) of
                  Inl err \<Rightarrow> Inl err
                | Inr r \<Rightarrow> hp_wmi_sensors_init_end chip r) of
            Inl e \<Rightarrow> k = 0 \<and> e = ENODATA
          | Inr state' \<Rightarrow> 0 < k \<and> count state' = k)"
proof -
  have "0 \<le> k" by simp
  from init_loop_stops [OF this assms(1) decodes_all [OF assms(2)] assms(3)]
  obtain state' active' counts' where
    "hp_wmi_sensors_init_loop populate skip activate state 0 [] (\<lambda>ty. 0) =
       Inr (state', k, active', counts')"
    by blast
  then show ?thesis
    using init_end_count [where chip = chip and state = state' and k = k and
        active = active' and counts = counts']
    by simp
qed

lemma init_keeps:
  assumes "k < 32" and "unpopulated state" and "0 < k"
    and "block (wdev state) k = None"
  shows "list_all (decodes populate_numeric_sensor_from_wobj state) [0..<k] \<Longrightarrow>
         (case hp_wmi_sensors_init jiffies state of
            Inl e \<Rightarrow> False
          | Inr state' \<Rightarrow>
              count state' = k \<and>
              list_all (discovered populate_numeric_sensor_from_wobj state state') [0..<k] \<and>
              list_all (live_exactly
                (\<lambda>sensor. uint (operational_status sensor) = HP_WMI_STATUS_OK \<and>
                           current_reading sensor \<noteq> 0) state') [0..<k])"
    and "list_all (decodes populate_numeric_sensor_from_wobj_2 state) [0..<k] \<Longrightarrow>
         (case hp_wmi_sensors_init_2 jiffies state of
            Inl e \<Rightarrow> False
          | Inr state' \<Rightarrow>
              count state' = k \<and>
              list_all (discovered populate_numeric_sensor_from_wobj_2 state state') [0..<k] \<and>
              list_all (live_exactly
                (\<lambda>sensor. uint (operational_status sensor) \<noteq> HP_WMI_STATUS_NO_CONTACT)
                state') [0..<k])"
proof -
  assume d: "list_all (decodes populate_numeric_sensor_from_wobj state) [0..<k]"
  have "case hp_wmi_sensors_init jiffies state of
          Inl e \<Rightarrow> k = 0 \<and> e = ENODATA | Inr state' \<Rightarrow> 0 < k \<and> count state' = k"
    unfolding hp_wmi_sensors_init_def by (rule init_stops [OF assms(1) d assms(4)])
  then obtain state' where
    s: "hp_wmi_sensors_init jiffies state = Inr state'" "count state' = k"
    using assms(3) by (cases "hp_wmi_sensors_init jiffies state") simp_all
  have "j < count state'" if "j \<in> set [0..<k]" for j
    using that s(2) by simp
  then show "case hp_wmi_sensors_init jiffies state of
            Inl e \<Rightarrow> False
          | Inr state' \<Rightarrow>
              count state' = k \<and>
              list_all (discovered populate_numeric_sensor_from_wobj state state') [0..<k] \<and>
              list_all (live_exactly
                (\<lambda>sensor. uint (operational_status sensor) = HP_WMI_STATUS_OK \<and>
                           current_reading sensor \<noteq> 0) state') [0..<k]"
    using init_live [OF assms(2) s(1)] by (simp add: s list_all_iff)
next
  assume d: "list_all (decodes populate_numeric_sensor_from_wobj_2 state) [0..<k]"
  have "case hp_wmi_sensors_init_2 jiffies state of
          Inl e \<Rightarrow> k = 0 \<and> e = ENODATA | Inr state' \<Rightarrow> 0 < k \<and> count state' = k"
    unfolding hp_wmi_sensors_init_2_def by (rule init_stops [OF assms(1) d assms(4)])
  then obtain state' where
    s: "hp_wmi_sensors_init_2 jiffies state = Inr state'" "count state' = k"
    using assms(3) by (cases "hp_wmi_sensors_init_2 jiffies state") simp_all
  have "j < count state'" if "j \<in> set [0..<k]" for j
    using that s(2) by simp
  then show "case hp_wmi_sensors_init_2 jiffies state of
            Inl e \<Rightarrow> False
          | Inr state' \<Rightarrow>
              count state' = k \<and>
              list_all (discovered populate_numeric_sensor_from_wobj_2 state state') [0..<k] \<and>
              list_all (live_exactly
                (\<lambda>sensor. uint (operational_status sensor) \<noteq> HP_WMI_STATUS_NO_CONTACT)
                state') [0..<k]"
    using init_live_2 [OF assms(2) s(1)] by (simp add: s list_all_iff)
qed

text \<open>
  Claim C8, as amended. A record is malformed when the decoder, which begins with the
  validation of the shape and of the element types, returns an error for it. In both
  copies, when the records of the instances before \<open>k\<close> decode and the record of instance
  \<open>k\<close> is malformed, the initialisation fails with the error of the decoder, for every
  \<open>k\<close> below 32 and not only for instance 0: no sensor is kept. What stops the discovery
  and keeps the sensors found so far is a query without an answer: when the records
  before \<open>k\<close> decode and instance \<open>k\<close> is absent, the initialisation fails with
  \<open>-ENODATA\<close> for \<open>k = 0\<close>, and succeeds with \<open>k\<close> sensors otherwise. Started from the
  unpopulated state of the probe, the state it then returns holds every instance below
  \<open>k\<close>: entry \<open>j\<close> of the info array is the decoded record of instance \<open>j\<close> under the
  instance number \<open>j\<close>, and it is live exactly when it classifies and passes the test of
  the copy, which is status OK and a reading other than zero in the first copy and a
  status other than No Contact in the second.
\<close>

theorem hp_wmi_sensors_init_malformed:
  assumes "k < 32"
  shows "(list_all (decodes populate_numeric_sensor_from_wobj state) [0..<k] \<and>
          malformed populate_numeric_sensor_from_wobj state k err \<longrightarrow>
            hp_wmi_sensors_init jiffies state = Inl err) \<and>
         (list_all (decodes populate_numeric_sensor_from_wobj_2 state) [0..<k] \<and>
          malformed populate_numeric_sensor_from_wobj_2 state k err \<longrightarrow>
            hp_wmi_sensors_init_2 jiffies state = Inl err) \<and>
         (list_all (decodes populate_numeric_sensor_from_wobj state) [0..<k] \<and>
          block (wdev state) k = None \<longrightarrow>
            (case hp_wmi_sensors_init jiffies state of
               Inl e \<Rightarrow> k = 0 \<and> e = ENODATA
             | Inr state' \<Rightarrow> 0 < k \<and> count state' = k)) \<and>
         (list_all (decodes populate_numeric_sensor_from_wobj_2 state) [0..<k] \<and>
          block (wdev state) k = None \<longrightarrow>
            (case hp_wmi_sensors_init_2 jiffies state of
               Inl e \<Rightarrow> k = 0 \<and> e = ENODATA
             | Inr state' \<Rightarrow> 0 < k \<and> count state' = k)) \<and>
         (unpopulated state \<and> 0 < k \<and>
          list_all (decodes populate_numeric_sensor_from_wobj state) [0..<k] \<and>
          block (wdev state) k = None \<longrightarrow>
            (case hp_wmi_sensors_init jiffies state of
               Inl e \<Rightarrow> False
             | Inr state' \<Rightarrow>
                 count state' = k \<and>
                 list_all (discovered populate_numeric_sensor_from_wobj state state') [0..<k] \<and>
                 list_all (live_exactly
                   (\<lambda>sensor. uint (operational_status sensor) = HP_WMI_STATUS_OK \<and>
                              current_reading sensor \<noteq> 0) state') [0..<k])) \<and>
         (unpopulated state \<and> 0 < k \<and>
          list_all (decodes populate_numeric_sensor_from_wobj_2 state) [0..<k] \<and>
          block (wdev state) k = None \<longrightarrow>
            (case hp_wmi_sensors_init_2 jiffies state of
               Inl e \<Rightarrow> False
             | Inr state' \<Rightarrow>
                 count state' = k \<and>
                 list_all (discovered populate_numeric_sensor_from_wobj_2 state state')
                   [0..<k] \<and>
                 list_all (live_exactly
                   (\<lambda>sensor. uint (operational_status sensor) \<noteq> HP_WMI_STATUS_NO_CONTACT)
                   state') [0..<k]))"
proof (intro conjI impI)
  assume "list_all (decodes populate_numeric_sensor_from_wobj state) [0..<k] \<and>
          malformed populate_numeric_sensor_from_wobj state k err"
  then show "hp_wmi_sensors_init jiffies state = Inl err"
    unfolding hp_wmi_sensors_init_def using init_malformed [OF assms] by blast
next
  assume "list_all (decodes populate_numeric_sensor_from_wobj_2 state) [0..<k] \<and>
          malformed populate_numeric_sensor_from_wobj_2 state k err"
  then show "hp_wmi_sensors_init_2 jiffies state = Inl err"
    unfolding hp_wmi_sensors_init_2_def using init_malformed [OF assms] by blast
next
  assume "list_all (decodes populate_numeric_sensor_from_wobj state) [0..<k] \<and>
          block (wdev state) k = None"
  then show "case hp_wmi_sensors_init jiffies state of
               Inl e \<Rightarrow> k = 0 \<and> e = ENODATA
             | Inr state' \<Rightarrow> 0 < k \<and> count state' = k"
    unfolding hp_wmi_sensors_init_def using init_stops [OF assms] by blast
next
  assume "list_all (decodes populate_numeric_sensor_from_wobj_2 state) [0..<k] \<and>
          block (wdev state) k = None"
  then show "case hp_wmi_sensors_init_2 jiffies state of
               Inl e \<Rightarrow> k = 0 \<and> e = ENODATA
             | Inr state' \<Rightarrow> 0 < k \<and> count state' = k"
    unfolding hp_wmi_sensors_init_2_def using init_stops [OF assms] by blast
next
  assume a: "unpopulated state \<and> 0 < k \<and>
          list_all (decodes populate_numeric_sensor_from_wobj state) [0..<k] \<and>
          block (wdev state) k = None"
  then have u: "unpopulated state" and k: "0 < k" and n: "block (wdev state) k = None"
    and d: "list_all (decodes populate_numeric_sensor_from_wobj state) [0..<k]"
    by simp_all
  show "case hp_wmi_sensors_init jiffies state of
               Inl e \<Rightarrow> False
             | Inr state' \<Rightarrow>
                 count state' = k \<and>
                 list_all (discovered populate_numeric_sensor_from_wobj state state') [0..<k] \<and>
                 list_all (live_exactly
                   (\<lambda>sensor. uint (operational_status sensor) = HP_WMI_STATUS_OK \<and>
                              current_reading sensor \<noteq> 0) state') [0..<k]"
    by (rule init_keeps(1) [OF assms u k n d])
next
  assume a: "unpopulated state \<and> 0 < k \<and>
          list_all (decodes populate_numeric_sensor_from_wobj_2 state) [0..<k] \<and>
          block (wdev state) k = None"
  then have u: "unpopulated state" and k: "0 < k" and n: "block (wdev state) k = None"
    and d: "list_all (decodes populate_numeric_sensor_from_wobj_2 state) [0..<k]"
    by simp_all
  show "case hp_wmi_sensors_init_2 jiffies state of
               Inl e \<Rightarrow> False
             | Inr state' \<Rightarrow>
                 count state' = k \<and>
                 list_all (discovered populate_numeric_sensor_from_wobj_2 state state')
                   [0..<k] \<and>
                 list_all (live_exactly
                   (\<lambda>sensor. uint (operational_status sensor) \<noteq> HP_WMI_STATUS_NO_CONTACT)
                   state') [0..<k]"
    by (rule init_keeps(2) [OF assms u k n d])
qed

theorem hp_wmi_sensors_init_malformed_witness:
  "hp_wmi_sensors_init 0 (zero_state (firmware_of (example_records @ [ACPI_Package []]))) =
     Inl EINVAL \<and>
   hp_wmi_sensors_init_2 0 (zero_state (firmware_of (example_records @ [ACPI_Package []]))) =
     Inl EINVAL \<and>
   (\<exists>s. hp_wmi_sensors_init 0 (zero_state (firmware_of example_records)) = Inr s \<and>
      count s = 3 \<and>
      list_all (discovered populate_numeric_sensor_from_wobj
        (zero_state (firmware_of example_records)) s) [0..<3] \<and>
      list_all (live_exactly
        (\<lambda>sensor. uint (operational_status sensor) = HP_WMI_STATUS_OK \<and>
                   current_reading sensor \<noteq> 0) s) [0..<3] \<and>
      map (\<lambda>j. name (nsensor (info s ! j))) [0..<3] = [Some ''CPU'', Some ''Fan'', Some ''Aux''] \<and>
      map (\<lambda>j. is_active (info s ! j)) [0..<3] = [True, False, False]) \<and>
   (\<exists>s. hp_wmi_sensors_init_2 0 (zero_state (firmware_of example_records)) = Inr s \<and>
      count s = 3 \<and>
      list_all (discovered populate_numeric_sensor_from_wobj_2
        (zero_state (firmware_of example_records)) s) [0..<3] \<and>
      list_all (live_exactly
        (\<lambda>sensor. uint (operational_status sensor) \<noteq> HP_WMI_STATUS_NO_CONTACT) s) [0..<3] \<and>
      map (\<lambda>j. name (nsensor (info s ! j))) [0..<3] = [Some ''CPU'', Some ''Fan'', Some ''Aux''] \<and>
      map (\<lambda>j. is_active (info s ! j)) [0..<3] = [True, True, False])"
proof -
  let ?bad = "zero_state (firmware_of (example_records @ [ACPI_Package []]))"
  let ?good = "zero_state (firmware_of example_records)"
  have k: "(3::nat) < 32" by simp
  have b1: "list_all (decodes populate_numeric_sensor_from_wobj ?bad) [0..<3] \<and>
            malformed populate_numeric_sensor_from_wobj ?bad 3 EINVAL"
    by code_simp
  have b2: "list_all (decodes populate_numeric_sensor_from_wobj_2 ?bad) [0..<3] \<and>
            malformed populate_numeric_sensor_from_wobj_2 ?bad 3 EINVAL"
    by code_simp
  have none: "block (wdev ?good) 3 = None"
    by (simp add: zero_state_def firmware_of_def example_records_def)
  have g1: "list_all (decodes populate_numeric_sensor_from_wobj ?good) [0..<3]"
    by code_simp
  have g2: "list_all (decodes populate_numeric_sensor_from_wobj_2 ?good) [0..<3]"
    by code_simp
  have u: "unpopulated ?good" by (rule unpopulated_zero_state)
  have n1: "case hp_wmi_sensors_init 0 ?good of
      Inl e \<Rightarrow> False
    | Inr s \<Rightarrow> map (\<lambda>j. name (nsensor (info s ! j))) [0..<3] =
               [Some ''CPU'', Some ''Fan'', Some ''Aux''] \<and>
             map (\<lambda>j. is_active (info s ! j)) [0..<3] = [True, False, False]"
    by code_simp
  have n2: "case hp_wmi_sensors_init_2 0 ?good of
      Inl e \<Rightarrow> False
    | Inr s \<Rightarrow> map (\<lambda>j. name (nsensor (info s ! j))) [0..<3] =
               [Some ''CPU'', Some ''Fan'', Some ''Aux''] \<and>
             map (\<lambda>j. is_active (info s ! j)) [0..<3] = [True, True, False]"
    by code_simp
  note bad = hp_wmi_sensors_init_malformed [OF k, of ?bad EINVAL 0]
  note good = hp_wmi_sensors_init_malformed [OF k, of ?good EINVAL 0]
  from bad b1 have r1: "hp_wmi_sensors_init 0 ?bad = Inl EINVAL" by blast
  from bad b2 have r2: "hp_wmi_sensors_init_2 0 ?bad = Inl EINVAL" by blast
  from good g1 none u have "case hp_wmi_sensors_init 0 ?good of
      Inl e \<Rightarrow> False
    | Inr state' \<Rightarrow> count state' = 3 \<and>
        list_all (discovered populate_numeric_sensor_from_wobj ?good state') [0..<3] \<and>
        list_all (live_exactly
          (\<lambda>sensor. uint (operational_status sensor) = HP_WMI_STATUS_OK \<and>
                     current_reading sensor \<noteq> 0) state') [0..<3]"
    by simp
  with n1 have r3: "\<exists>s. hp_wmi_sensors_init 0 ?good = Inr s \<and> count s = 3 \<and>
      list_all (discovered populate_numeric_sensor_from_wobj ?good s) [0..<3] \<and>
      list_all (live_exactly
        (\<lambda>sensor. uint (operational_status sensor) = HP_WMI_STATUS_OK \<and>
                   current_reading sensor \<noteq> 0) s) [0..<3] \<and>
      map (\<lambda>j. name (nsensor (info s ! j))) [0..<3] = [Some ''CPU'', Some ''Fan'', Some ''Aux''] \<and>
      map (\<lambda>j. is_active (info s ! j)) [0..<3] = [True, False, False]"
    by (cases "hp_wmi_sensors_init 0 ?good") simp_all
  from good g2 none u have "case hp_wmi_sensors_init_2 0 ?good of
      Inl e \<Rightarrow> False
    | Inr state' \<Rightarrow> count state' = 3 \<and>
        list_all (discovered populate_numeric_sensor_from_wobj_2 ?good state') [0..<3] \<and>
        list_all (live_exactly
          (\<lambda>sensor. uint (operational_status sensor) \<noteq> HP_WMI_STATUS_NO_CONTACT)
          state') [0..<3]"
    by simp
  with n2 have r4: "\<exists>s. hp_wmi_sensors_init_2 0 ?good = Inr s \<and> count s = 3 \<and>
      list_all (discovered populate_numeric_sensor_from_wobj_2 ?good s) [0..<3] \<and>
      list_all (live_exactly
        (\<lambda>sensor. uint (operational_status sensor) \<noteq> HP_WMI_STATUS_NO_CONTACT) s) [0..<3] \<and>
      map (\<lambda>j. name (nsensor (info s ! j))) [0..<3] = [Some ''CPU'', Some ''Fan'', Some ''Aux''] \<and>
      map (\<lambda>j. is_active (info s ! j)) [0..<3] = [True, True, False]"
    by (cases "hp_wmi_sensors_init_2 0 ?good") simp_all
  from r1 r2 r3 r4 show ?thesis by blast
qed

text \<open>
  The claim as stated fails on a firmware whose instance 0 is a well-formed temperature
  record and whose instance 1 is an integer instead of a package: the validation rejects
  the record of instance 1, and the initialisation returns \<open>-EINVAL\<close> in both copies
  instead of succeeding with the one sensor found before it.
\<close>

theorem hp_wmi_sensors_init_malformed_counterexample:
  "check_wobj (sensor_package ''CPU'' 2 2 2 0 45) = Inr 2 \<and>
   check_wobj (ACPI_Integer 0) = Inl EINVAL \<and>
   hp_wmi_sensors_init 0
     (zero_state (firmware_of [sensor_package ''CPU'' 2 2 2 0 45, ACPI_Integer 0])) =
     Inl EINVAL \<and>
   hp_wmi_sensors_init_2 0
     (zero_state (firmware_of [sensor_package ''CPU'' 2 2 2 0 45, ACPI_Integer 0])) =
     Inl EINVAL"
proof -
  let ?st = "zero_state (firmware_of [sensor_package ''CPU'' 2 2 2 0 45, ACPI_Integer 0])"
  have c: "check_wobj (sensor_package ''CPU'' 2 2 2 0 45) = Inr 2"
    "check_wobj (ACPI_Integer 0) = Inl EINVAL"
    by code_simp+
  have "case hp_wmi_sensors_init 0 ?st of Inl e \<Rightarrow> e = EINVAL | Inr s \<Rightarrow> False"
    by code_simp
  then have r1: "hp_wmi_sensors_init 0 ?st = Inl EINVAL"
    by (cases "hp_wmi_sensors_init 0 ?st") simp_all
  have "case hp_wmi_sensors_init_2 0 ?st of Inl e \<Rightarrow> e = EINVAL | Inr s \<Rightarrow> False"
    by code_simp
  then have r2: "hp_wmi_sensors_init_2 0 ?st = Inl EINVAL"
    by (cases "hp_wmi_sensors_init_2 0 ?st") simp_all
  from c r1 r2 show ?thesis by simp
qed

subsection \<open>The live set\<close>

lemma map_update_same:
  assumes "f x = f (xs ! i)"
  shows "map f (xs[i := x]) = map f xs"
proof (cases "i < length xs")
  case True
  then show ?thesis using assms by (simp add: map_update list_update_same_conv)
next
  case False
  then show ?thesis by (simp add: list_update_beyond)
qed

lemma hp_wmi_update_info_keeps:
  "is_active (fst (snd (hp_wmi_update_info jiffies HZ dev sinfo))) = is_active sinfo"
  "type (fst (snd (hp_wmi_update_info jiffies HZ dev sinfo))) = type sinfo"
  "is_active (fst (snd (hp_wmi_update_info_2 jiffies HZ dev sinfo))) = is_active sinfo"
  "type (fst (snd (hp_wmi_update_info_2 jiffies HZ dev sinfo))) = type sinfo"
  by (simp_all add: hp_wmi_update_info_def hp_wmi_update_info_2_def hp_wmi_get_wobj_def
      interpret_info_def interpret_info_2_def Let_def
      split: option.splits sum.splits)

lemma refresh_loop_inactive:
  assumes "i < count state" and "\<not> is_active (info state ! i)"
  shows "hp_wmi_sensors_refresh_loop jiffies HZ state i =
           hp_wmi_sensors_refresh_loop jiffies HZ state (i + 1)"
  using assms by (subst hp_wmi_sensors_refresh_loop.simps) simp

lemma refresh_loop_keeps:
  "info_map (snd (hp_wmi_sensors_refresh_loop jiffies HZ state i)) = info_map state \<and>
   map is_active (info (snd (hp_wmi_sensors_refresh_loop jiffies HZ state i))) =
     map is_active (info state) \<and>
   map type (info (snd (hp_wmi_sensors_refresh_loop jiffies HZ state i))) =
     map type (info state)"
proof (induction "count state - i" arbitrary: state i)
  case 0
  then have "\<not> i < count state" by simp
  then show ?case by (simp add: refresh_loop_end)
next
  case (Suc n)
  then have lt: "i < count state" by simp
  show ?case
  proof (cases "is_active (info state ! i)")
    case False
    have "n = count state - (i + 1)" using Suc.hyps(2) by simp
    from Suc.hyps(1) [OF this] show ?thesis
      by (simp only: refresh_loop_inactive [OF lt False])
  next
    case True
    obtain err info' dev' where
      u: "hp_wmi_update_info jiffies HZ (wdev state) (info state ! i) = (err, info', dev')"
      by (cases "hp_wmi_update_info jiffies HZ (wdev state) (info state ! i)")
    have k: "is_active info' = is_active (info state ! i)" "type info' = type (info state ! i)"
      using hp_wmi_update_info_keeps(1,2) [of jiffies HZ "wdev state" "info state ! i"]
      by (simp_all add: u)
    let ?st = "state\<lparr>wdev := dev', info := (info state)[i := info']\<rparr>"
    have same: "info_map ?st = info_map state"
      "map is_active (info ?st) = map is_active (info state)"
      "map type (info ?st) = map type (info state)"
      using k by (simp_all add: map_update_same)
    show ?thesis
    proof (cases err)
      case None
      show ?thesis
        using same
        by (simp add: refresh_loop_success [OF lt True u [unfolded None]])
    next
      case (Some e)
      have "n = count ?st - (i + 1)" using Suc.hyps(2) by simp
      from Suc.hyps(1) [OF this] show ?thesis
        by (simp only: refresh_loop_failure [OF lt True u [unfolded Some]] same)
    qed
  qed
qed

text \<open>
  Claim C7, as amended. A sensor is live when its info is active and it stands in the
  channel list of its category; \<open>live_exactly accepted\<close> says that instance \<open>j\<close> is active
  exactly when the decoded sensor is accepted and classifies, and that it stands in the
  list of a category exactly when, moreover, the category is that of its classification.
  After a successful initialisation from the unpopulated state of the probe, every
  discovered instance is live exactly so, where the second copy accepts every sensor
  whose operational status is not No Contact (12), and the first copy accepts only the
  sensors whose operational status is OK (2) and whose reading is not zero. The decision
  is not revisited: an update of a sensor, in both copies, and the refresh task of the
  first copy change neither the active flag nor the category of an info, and the refresh
  task leaves the channel lists as they are.
\<close>

theorem discovery_exclusion:
  assumes "j < count state'"
  shows "(unpopulated state0 \<and> hp_wmi_sensors_init jiffies state0 = Inr state' \<longrightarrow>
            live_exactly (\<lambda>sensor. uint (operational_status sensor) = HP_WMI_STATUS_OK \<and>
                                    current_reading sensor \<noteq> 0) state' j) \<and>
         (unpopulated state0 \<and> hp_wmi_sensors_init_2 jiffies state0 = Inr state' \<longrightarrow>
            live_exactly (\<lambda>sensor. uint (operational_status sensor) \<noteq> HP_WMI_STATUS_NO_CONTACT)
              state' j) \<and>
         HP_WMI_STATUS_OK = 2 \<and> HP_WMI_STATUS_NO_CONTACT = 12 \<and>
         is_active (fst (snd (hp_wmi_update_info jiffies' HZ dev sinfo))) = is_active sinfo \<and>
         type (fst (snd (hp_wmi_update_info jiffies' HZ dev sinfo))) = type sinfo \<and>
         is_active (fst (snd (hp_wmi_update_info_2 jiffies' HZ dev sinfo))) = is_active sinfo \<and>
         type (fst (snd (hp_wmi_update_info_2 jiffies' HZ dev sinfo))) = type sinfo \<and>
         info_map (fst (hp_wmi_sensors_refresh_task jiffies' HZ state)) = info_map state \<and>
         map is_active (info (fst (hp_wmi_sensors_refresh_task jiffies' HZ state))) =
           map is_active (info state) \<and>
         map type (info (fst (hp_wmi_sensors_refresh_task jiffies' HZ state))) =
           map type (info state)"
proof -
  have task: "fst (hp_wmi_sensors_refresh_task jiffies' HZ state) =
                snd (hp_wmi_sensors_refresh_loop jiffies' HZ state 0)"
    by (simp add: hp_wmi_sensors_refresh_task_def Let_def split: prod.splits bool.splits)
  have 1: "live_exactly (\<lambda>sensor. uint (operational_status sensor) = HP_WMI_STATUS_OK \<and>
                                   current_reading sensor \<noteq> 0) state' j"
    if "unpopulated state0 \<and> hp_wmi_sensors_init jiffies state0 = Inr state'"
    using that init_live(1) [of state0 jiffies state' j] assms by blast
  have 2: "live_exactly (\<lambda>sensor. uint (operational_status sensor) \<noteq> HP_WMI_STATUS_NO_CONTACT)
             state' j"
    if "unpopulated state0 \<and> hp_wmi_sensors_init_2 jiffies state0 = Inr state'"
    using that init_live_2(1) [of state0 jiffies state' j] assms by blast
  have 3: "HP_WMI_STATUS_OK = 2 \<and> HP_WMI_STATUS_NO_CONTACT = 12"
    by (simp add: hp_wmi_status_defs)
  have 4: "is_active (fst (snd (hp_wmi_update_info jiffies' HZ dev sinfo))) = is_active sinfo \<and>
         type (fst (snd (hp_wmi_update_info jiffies' HZ dev sinfo))) = type sinfo \<and>
         is_active (fst (snd (hp_wmi_update_info_2 jiffies' HZ dev sinfo))) = is_active sinfo \<and>
         type (fst (snd (hp_wmi_update_info_2 jiffies' HZ dev sinfo))) = type sinfo"
    by (simp add: hp_wmi_update_info_keeps)
  have 5: "info_map (fst (hp_wmi_sensors_refresh_task jiffies' HZ state)) = info_map state \<and>
         map is_active (info (fst (hp_wmi_sensors_refresh_task jiffies' HZ state))) =
           map is_active (info state) \<and>
         map type (info (fst (hp_wmi_sensors_refresh_task jiffies' HZ state))) =
           map type (info state)"
    using refresh_loop_keeps [of jiffies' HZ state 0] by (simp only: task)
  from 1 2 3 4 5 show ?thesis by blast
qed

lemma live_exactly_off:
  assumes "live_exactly accepted state j" and "\<not> accepted (nsensor (info state ! j))"
  shows "is_active (info state ! j) = False"
    and "list_all (\<lambda>ty. Some j \<notin> set (info_map state ty)) hwmon_types"
  using assms by (simp_all add: live_exactly_def Let_def)

lemma live_exactly_on:
  assumes "live_exactly accepted state j" and "accepted (nsensor (info state ! j))"
    and "classify_numeric_sensor (nsensor (info state ! j)) = HP_WMI_TYPE_AIR_FLOW"
  shows "is_active (info state ! j) = True"
    and "Some j \<in> set (info_map state hwmon_fan)"
  using assms
  by (simp_all add: live_exactly_def Let_def hwmon_types_def hp_wmi_hwmon_type_map_def
      hp_wmi_type_defs)

theorem discovery_exclusion_witness:
  "(\<exists>s. hp_wmi_sensors_init 0 (zero_state (firmware_of example_records)) = Inr s \<and>
      1 < count s \<and>
      uint (operational_status (nsensor (info s ! 1))) = HP_WMI_STATUS_DEGRADED \<and>
      live_exactly (\<lambda>sensor. uint (operational_status sensor) = HP_WMI_STATUS_OK \<and>
                              current_reading sensor \<noteq> 0) s 1 \<and>
      is_active (info s ! 1) = False \<and>
      list_all (\<lambda>ty. Some 1 \<notin> set (info_map s ty)) hwmon_types) \<and>
   (\<exists>s. hp_wmi_sensors_init_2 0 (zero_state (firmware_of example_records)) = Inr s \<and>
      2 < count s \<and>
      uint (operational_status (nsensor (info s ! 2))) = HP_WMI_STATUS_NO_CONTACT \<and>
      live_exactly (\<lambda>sensor. uint (operational_status sensor) \<noteq> HP_WMI_STATUS_NO_CONTACT)
        s 2 \<and>
      is_active (info s ! 2) = False \<and>
      list_all (\<lambda>ty. Some 2 \<notin> set (info_map s ty)) hwmon_types \<and>
      uint (operational_status (nsensor (info s ! 1))) = HP_WMI_STATUS_DEGRADED \<and>
      classify_numeric_sensor (nsensor (info s ! 1)) = HP_WMI_TYPE_AIR_FLOW \<and>
      live_exactly (\<lambda>sensor. uint (operational_status sensor) \<noteq> HP_WMI_STATUS_NO_CONTACT)
        s 1 \<and>
      is_active (info s ! 1) = True \<and>
      Some 1 \<in> set (info_map s hwmon_fan))"
proof -
  let ?st = "zero_state (firmware_of example_records)"
  have u: "unpopulated ?st" by (rule unpopulated_zero_state)
  have "case hp_wmi_sensors_init 0 ?st of
          Inl e \<Rightarrow> False
        | Inr s \<Rightarrow> 1 < count s \<and>
            uint (operational_status (nsensor (info s ! 1))) = HP_WMI_STATUS_DEGRADED"
    by code_simp
  then obtain s where s: "hp_wmi_sensors_init 0 ?st = Inr s" "1 < count s"
    "uint (operational_status (nsensor (info s ! 1))) = HP_WMI_STATUS_DEGRADED"
    by (cases "hp_wmi_sensors_init 0 ?st") simp_all
  have "case hp_wmi_sensors_init_2 0 ?st of
          Inl e \<Rightarrow> False
        | Inr s \<Rightarrow> 2 < count s \<and>
            uint (operational_status (nsensor (info s ! 2))) = HP_WMI_STATUS_NO_CONTACT \<and>
            uint (operational_status (nsensor (info s ! 1))) = HP_WMI_STATUS_DEGRADED \<and>
            classify_numeric_sensor (nsensor (info s ! 1)) = HP_WMI_TYPE_AIR_FLOW"
    by code_simp
  then obtain s' where s': "hp_wmi_sensors_init_2 0 ?st = Inr s'" "2 < count s'"
    "uint (operational_status (nsensor (info s' ! 2))) = HP_WMI_STATUS_NO_CONTACT"
    "uint (operational_status (nsensor (info s' ! 1))) = HP_WMI_STATUS_DEGRADED"
    "classify_numeric_sensor (nsensor (info s' ! 1)) = HP_WMI_TYPE_AIR_FLOW"
    by (cases "hp_wmi_sensors_init_2 0 ?st") simp_all
  have c1: "1 < count s'" using s'(2) by simp
  from discovery_exclusion [OF s(2), of ?st 0] u s(1)
  have a: "live_exactly (\<lambda>sensor. uint (operational_status sensor) = HP_WMI_STATUS_OK \<and>
                                   current_reading sensor \<noteq> 0) s 1"
    by blast
  from discovery_exclusion [OF s'(2), of ?st 0] u s'(1)
  have b: "live_exactly (\<lambda>sensor. uint (operational_status sensor) \<noteq> HP_WMI_STATUS_NO_CONTACT)
             s' 2"
    by blast
  from discovery_exclusion [OF c1, of ?st 0] u s'(1)
  have c: "live_exactly (\<lambda>sensor. uint (operational_status sensor) \<noteq> HP_WMI_STATUS_NO_CONTACT)
             s' 1"
    by blast
  have a': "is_active (info s ! 1) = False"
    "list_all (\<lambda>ty. Some 1 \<notin> set (info_map s ty)) hwmon_types"
    using live_exactly_off [OF a] s(3) by (simp_all add: hp_wmi_status_defs)
  have b': "is_active (info s' ! 2) = False"
    "list_all (\<lambda>ty. Some 2 \<notin> set (info_map s' ty)) hwmon_types"
    using live_exactly_off [OF b] s'(3) by simp_all
  have c': "is_active (info s' ! 1) = True" "Some 1 \<in> set (info_map s' hwmon_fan)"
    using live_exactly_on [OF c _ s'(5)] s'(4) by (simp_all add: hp_wmi_status_defs)
  from s a a' have x: "\<exists>s. hp_wmi_sensors_init 0 ?st = Inr s \<and>
      1 < count s \<and>
      uint (operational_status (nsensor (info s ! 1))) = HP_WMI_STATUS_DEGRADED \<and>
      live_exactly (\<lambda>sensor. uint (operational_status sensor) = HP_WMI_STATUS_OK \<and>
                              current_reading sensor \<noteq> 0) s 1 \<and>
      is_active (info s ! 1) = False \<and>
      list_all (\<lambda>ty. Some 1 \<notin> set (info_map s ty)) hwmon_types"
    by blast
  from s' b b' c c' have y: "\<exists>s. hp_wmi_sensors_init_2 0 ?st = Inr s \<and>
      2 < count s \<and>
      uint (operational_status (nsensor (info s ! 2))) = HP_WMI_STATUS_NO_CONTACT \<and>
      live_exactly (\<lambda>sensor. uint (operational_status sensor) \<noteq> HP_WMI_STATUS_NO_CONTACT)
        s 2 \<and>
      is_active (info s ! 2) = False \<and>
      list_all (\<lambda>ty. Some 2 \<notin> set (info_map s ty)) hwmon_types \<and>
      uint (operational_status (nsensor (info s ! 1))) = HP_WMI_STATUS_DEGRADED \<and>
      classify_numeric_sensor (nsensor (info s ! 1)) = HP_WMI_TYPE_AIR_FLOW \<and>
      live_exactly (\<lambda>sensor. uint (operational_status sensor) \<noteq> HP_WMI_STATUS_NO_CONTACT)
        s 1 \<and>
      is_active (info s ! 1) = True \<and>
      Some 1 \<in> set (info_map s hwmon_fan)"
    by blast
  from x y show ?thesis by blast
qed

text \<open>
  The claim as stated fails for the first copy. The firmware answers for three
  instances; the record of instance 1 is a fan (Air Flow, RPM) with operational status
  Degraded and reading 1200. Its status is not No Contact and it classifies, yet after
  the initialisation of the first copy it is not active and the fan category has no
  channel. The second copy makes it channel 0 of the fan category.
\<close>

theorem discovery_exclusion_counterexample:
  "(\<exists>s. hp_wmi_sensors_init 0 (zero_state (firmware_of example_records)) = Inr s \<and>
      count s = 3 \<and>
      uint (operational_status (nsensor (info s ! 1))) = HP_WMI_STATUS_DEGRADED \<and>
      numeric_sensor_is_connected (nsensor (info s ! 1)) \<and>
      classify_numeric_sensor (nsensor (info s ! 1)) = HP_WMI_TYPE_AIR_FLOW \<and>
      is_active (info s ! 1) = False \<and> info_map s hwmon_fan = []) \<and>
   (\<exists>s. hp_wmi_sensors_init_2 0 (zero_state (firmware_of example_records)) = Inr s \<and>
      count s = 3 \<and> is_active (info s ! 1) = True \<and> info_map s hwmon_fan = [Some 1])"
proof -
  let ?st = "zero_state (firmware_of example_records)"
  have "case hp_wmi_sensors_init 0 ?st of
          Inl e \<Rightarrow> False
        | Inr s \<Rightarrow> count s = 3 \<and>
            uint (operational_status (nsensor (info s ! 1))) = HP_WMI_STATUS_DEGRADED \<and>
            numeric_sensor_is_connected (nsensor (info s ! 1)) \<and>
            classify_numeric_sensor (nsensor (info s ! 1)) = HP_WMI_TYPE_AIR_FLOW \<and>
            is_active (info s ! 1) = False \<and> info_map s hwmon_fan = []"
    by code_simp
  then have a: "\<exists>s. hp_wmi_sensors_init 0 ?st = Inr s \<and> count s = 3 \<and>
      uint (operational_status (nsensor (info s ! 1))) = HP_WMI_STATUS_DEGRADED \<and>
      numeric_sensor_is_connected (nsensor (info s ! 1)) \<and>
      classify_numeric_sensor (nsensor (info s ! 1)) = HP_WMI_TYPE_AIR_FLOW \<and>
      is_active (info s ! 1) = False \<and> info_map s hwmon_fan = []"
    by (cases "hp_wmi_sensors_init 0 ?st") simp_all
  have "case hp_wmi_sensors_init_2 0 ?st of
          Inl e \<Rightarrow> False
        | Inr s \<Rightarrow> count s = 3 \<and> is_active (info s ! 1) = True \<and>
            info_map s hwmon_fan = [Some 1]"
    by code_simp
  then have b: "\<exists>s. hp_wmi_sensors_init_2 0 ?st = Inr s \<and> count s = 3 \<and>
      is_active (info s ! 1) = True \<and> info_map s hwmon_fan = [Some 1]"
    by (cases "hp_wmi_sensors_init_2 0 ?st") simp_all
  from a b show ?thesis by blast
qed

end
